theory Spec2Isabelle
  imports Complex_Main "HOL-Library.Word"
begin

unbundle bit_operations_syntax

section \<open>Cedrus video engine driver: data model\<close>

type_synonym u32 = "32 word"
type_synonym u64 = "64 word"

subsection \<open>H.264 encoder: the bit-serializer port (cedrus\_enc\_h264.c)\<close>

text \<open>
  Modelled from the spec: the hardware side of the put-bits port. The driver writes a
  32-bit value to \<open>VE_ENC_AVC_PUTBITSDATA_REG\<close> and a bit count to
  \<open>VE_ENC_AVC_STARTTRIG_REG\<close>; the spec describes the port as a bit writer
  \<open>append(value, bit_count)\<close>. The writer appends the \<open>count\<close> low-order bits of the value,
  most significant first (positions above bit 31 of the 32-bit value read as zero).
\<close>

fun put_bits :: "nat \<Rightarrow> nat \<Rightarrow> bool list" where
  "put_bits n 0 = []"
| "put_bits n (Suc c) = bit n c # put_bits n c"

text \<open>The number a run of bits denotes, most significant bit first.\<close>

definition bits_val :: "bool list \<Rightarrow> nat" where
  "bits_val bs = foldl (\<lambda>a b. 2 * a + of_bool b) 0 bs"

text \<open>
  The encoder side of the device: the coded stream written so far.
  \<open>VE_ENC_AVC_STM_BIT_LEN_REG\<close> reads as the stream's length in bits (a 32-bit register).
\<close>

record cedrus_device =
  coded_bits :: "bool list"

definition stm_bit_len :: "cedrus_device \<Rightarrow> u32" where
  "stm_bit_len dev = of_nat (length (coded_bits dev))"

text \<open>
  \<open>cedrus_enc_h264_coded_append\<close>: poll for \<open>PUT_BITS_READY\<close>, write the value, trigger
  a put of \<open>count\<close> bits.
\<close>

definition cedrus_enc_h264_coded_append :: "cedrus_device \<Rightarrow> u32 \<Rightarrow> nat \<Rightarrow> cedrus_device" where
  "cedrus_enc_h264_coded_append dev v count =
     dev\<lparr>coded_bits := coded_bits dev @ put_bits (unat v) count\<rparr>"

text \<open>
  The kernel's \<open>__fls(word)\<close>: the index of the most significant set bit; the kernel
  documents it as undefined when no bit is set, which is \<open>None\<close> here.
\<close>

fun ilog2 :: "nat \<Rightarrow> nat" where
  "ilog2 n = (if n < 2 then 0 else Suc (ilog2 (n div 2)))"

definition fls_word :: "u32 \<Rightarrow> nat option" where
  "fls_word w = (if w = 0 then None else Some (ilog2 (unat w)))"

text \<open>
  \<open>cedrus_enc_h264_coded_ue\<close>: \<open>bits_count = 2 * __fls(value + 1) + 1\<close>, then
  \<open>append(value + 1, bits_count)\<close>. The argument is an \<open>unsigned int\<close>, so
  \<open>value + 1\<close> wraps at \<open>2^32\<close>.
\<close>

definition cedrus_enc_h264_coded_ue :: "cedrus_device \<Rightarrow> u32 \<Rightarrow> cedrus_device option" where
  "cedrus_enc_h264_coded_ue dev v =
     (case fls_word (v + 1) of
        None \<Rightarrow> None
      | Some f \<Rightarrow> Some (cedrus_enc_h264_coded_append dev (v + 1) (2 * f + 1)))"

text \<open>
  \<open>cedrus_enc_h264_coded_se\<close>: the argument is an \<open>int\<close>, read here through
  \<open>sint\<close>; \<open>2 * value - 1\<close> and \<open>-2 * value\<close> are computed in 32 bits (the kernel
  is built with wrapping signed arithmetic) and stored into an \<open>unsigned int\<close>.
\<close>

definition cedrus_enc_h264_coded_se :: "cedrus_device \<Rightarrow> u32 \<Rightarrow> cedrus_device option" where
  "cedrus_enc_h264_coded_se dev v =
     (let value_ue = (if 0 <s v then 2 * v - 1 else (- 2) * v)
      in cedrus_enc_h264_coded_ue dev value_ue)"

text \<open>
  \<open>cedrus_enc_h264_coded_align\<close>: read the stream bit length, return when it is a
  multiple of 8, else append \<open>8 - bits_count\<close> zero bits.
\<close>

definition cedrus_enc_h264_coded_align :: "cedrus_device \<Rightarrow> cedrus_device" where
  "cedrus_enc_h264_coded_align dev =
     (let v = stm_bit_len dev;
          bits_count = unat (v mod 8)
      in if bits_count = 0 then dev
         else cedrus_enc_h264_coded_append dev 0 (8 - bits_count))"

text \<open>
  The standard inverse mappings (H.264 clause 9.1), following the spec's words: count the
  leading zero bits \<open>k\<close>, skip the one bit, read \<open>k\<close> more bits;
  \<open>codeNum = 2^k - 1 + read_bits(k)\<close>. The signed value of \<open>codeNum = k\<close> is
  \<open>(-1)^(k+1) * ceil(k / 2)\<close>.
\<close>

definition spec_ue_decode :: "bool list \<Rightarrow> nat option" where
  "spec_ue_decode bs =
     (let k = length (takeWhile Not bs)
      in if length bs < 2 * k + 1 then None
         else Some (2 ^ k - 1 + bits_val (take k (drop (Suc k) bs))))"

definition spec_se_decode :: "bool list \<Rightarrow> int option" where
  "spec_se_decode bs =
     (case spec_ue_decode bs of
        None \<Rightarrow> None
      | Some k \<Rightarrow> Some (if odd k then int ((k + 1) div 2) else - int (k div 2)))"

subsection \<open>H.264 encoder: controls, state and job preparation (cedrus\_enc\_h264.c)\<close>

text \<open>
  \<open>enum cedrus_enc_h264_frame_type\<close> and \<open>enum cedrus_enc_h264_step\<close>. The step is
  kept in an \<open>unsigned int\<close> and compared with \<open><\<close> and \<open>>\<close>, so it stays a number.
\<close>

datatype cedrus_enc_h264_frame_type =
    CEDRUS_ENC_H264_FRAME_TYPE_IDR
  | CEDRUS_ENC_H264_FRAME_TYPE_I
  | CEDRUS_ENC_H264_FRAME_TYPE_P
  | CEDRUS_ENC_H264_FRAME_TYPE_B

definition CEDRUS_ENC_H264_STEP_START :: u32 where "CEDRUS_ENC_H264_STEP_START = 0"
definition CEDRUS_ENC_H264_STEP_SPS :: u32 where "CEDRUS_ENC_H264_STEP_SPS = 1"
definition CEDRUS_ENC_H264_STEP_PPS :: u32 where "CEDRUS_ENC_H264_STEP_PPS = 2"
definition CEDRUS_ENC_H264_STEP_SLICE :: u32 where "CEDRUS_ENC_H264_STEP_SLICE = 3"

text \<open>
  \<open>struct cedrus_enc_h264_state\<close>, \<open>struct cedrus_enc_h264_job\<close> and the control and
  bitstream fields of \<open>struct cedrus_enc_h264_context\<close>. Fields of the job that share a
  name with one of the state or the context carry the prefix \<open>job_\<close>. An \<open>int\<close> field is
  a 32-bit word read through \<open>sint\<close> where the code compares it as signed. The job fields
  \<open>profile_idc\<close>, \<open>level_idc\<close> and \<open>constraint_set_flags\<close> are left out: they are
  computed from the profile and level controls alone and only the SPS carries them.
\<close>

record cedrus_enc_h264_state =
  step :: u32
  gop_index :: u32
  frame_num :: u32
  pic_order_cnt_lsb :: u32
  qp_init :: u32

record cedrus_enc_h264_job =
  nal_ref_idc :: u32
  frame_type :: cedrus_enc_h264_frame_type
  job_frame_num :: u32
  job_pic_order_cnt_lsb :: u32
  qp :: u32
  seq_parameter_set_id :: u32
  pic_parameter_set_id :: u32
  idr_pic_id :: u32
  entropy_coding_mode_flag :: u32
  job_chroma_qp_index_offset :: u32
  disable_deblocking_filter_idc :: u32
  slice_alpha_c0_offset_div2 :: u32
  slice_beta_offset_div2 :: u32
  cabac_init_idc :: u32

record cedrus_enc_h264_context =
  state :: cedrus_enc_h264_state
  pic_order_cnt_type :: u32
  log2_max_pic_order_cnt_lsb :: u32
  log2_max_frame_num :: u32
  prepend_sps_pps_idr :: u32
  profile :: u32
  level :: u32
  vui_sar_enable :: u32
  vui_sar_idc :: u32
  vui_ext_sar_width :: u32
  vui_ext_sar_height :: u32
  entropy_mode :: u32
  chroma_qp_index_offset :: u32
  loop_filter_mode :: u32
  loop_filter_alpha :: u32
  loop_filter_beta :: u32
  qp_min :: u32
  qp_max :: u32
  qp_i :: u32
  qp_p :: u32
  gop_closure :: u32
  gop_size :: u32
  gop_open_i_period :: u32
  force_key_frame :: bool

text \<open>
  \<open>BIT(n)\<close> is \<open>1UL << n\<close>, an \<open>unsigned long\<close>; \<open>x %= BIT(n)\<close> on an
  \<open>unsigned int\<close> \<open>x\<close> is the remainder of its value. The driver sets both exponents to 8.
\<close>

definition BIT :: "u32 \<Rightarrow> nat" where
  "BIT n = 2 ^ unat n"

definition mod_ulong :: "u32 \<Rightarrow> nat \<Rightarrow> u32" where
  "mod_ulong x m = of_nat (unat x mod m)"

text \<open>The value of \<open>V4L2_MPEG_VIDEO_H264_ENTROPY_MODE_CABAC\<close> in the V4L2 interface.\<close>

definition V4L2_MPEG_VIDEO_H264_ENTROPY_MODE_CABAC :: u32 where
  "V4L2_MPEG_VIDEO_H264_ENTROPY_MODE_CABAC = 1"

text \<open>
  The state and bitstream parameters \<open>cedrus_enc_h264_setup\<close> writes when streaming
  starts; the control fields are then filled from the controls through
  \<open>cedrus_enc_h264_ctrl_prepare\<close>.
\<close>

definition cedrus_enc_h264_setup :: "cedrus_enc_h264_context \<Rightarrow> cedrus_enc_h264_context" where
  "cedrus_enc_h264_setup h264_ctx =
     h264_ctx\<lparr>state := (state h264_ctx)\<lparr>step := CEDRUS_ENC_H264_STEP_START, gop_index := 0,
                   frame_num := 0, pic_order_cnt_lsb := 0\<rparr>,
              log2_max_frame_num := 8,
              pic_order_cnt_type := 0,
              log2_max_pic_order_cnt_lsb := 8\<rparr>"

text \<open>The context as \<open>kzalloc\<close> returns it, before setup and the controls fill it.\<close>

definition kzalloc_ctx :: cedrus_enc_h264_context where
  "kzalloc_ctx =
     \<lparr>state = \<lparr>step = 0, gop_index = 0, frame_num = 0, pic_order_cnt_lsb = 0, qp_init = 0\<rparr>,
      pic_order_cnt_type = 0, log2_max_pic_order_cnt_lsb = 0, log2_max_frame_num = 0,
      prepend_sps_pps_idr = 0, profile = 0, level = 0, vui_sar_enable = 0, vui_sar_idc = 0,
      vui_ext_sar_width = 0, vui_ext_sar_height = 0, entropy_mode = 0,
      chroma_qp_index_offset = 0, loop_filter_mode = 0, loop_filter_alpha = 0,
      loop_filter_beta = 0, qp_min = 0, qp_max = 0, qp_i = 0, qp_p = 0, gop_closure = 0,
      gop_size = 0, gop_open_i_period = 0, force_key_frame = False\<rparr>"

text \<open>
  The controls \<open>cedrus_enc_h264_ctrl_prepare\<close> switches on; any other id falls through.
  The argument \<open>v\<close> is the control's \<open>cur.val\<close>. For the profile control the source
  may also set the entropy-mode control, which re-enters this function for that control;
  here that is the entropy-mode event of its own, placed before the profile event (the
  two updates of the step commute).
\<close>

datatype v4l2_cid =
    V4L2_CID_MPEG_VIDEO_PREPEND_SPSPPS_TO_IDR
  | V4L2_CID_MPEG_VIDEO_H264_VUI_SAR_ENABLE
  | V4L2_CID_MPEG_VIDEO_H264_VUI_SAR_IDC
  | V4L2_CID_MPEG_VIDEO_H264_VUI_EXT_SAR_WIDTH
  | V4L2_CID_MPEG_VIDEO_H264_VUI_EXT_SAR_HEIGHT
  | V4L2_CID_MPEG_VIDEO_H264_PROFILE
  | V4L2_CID_MPEG_VIDEO_H264_LEVEL
  | V4L2_CID_MPEG_VIDEO_H264_ENTROPY_MODE
  | V4L2_CID_MPEG_VIDEO_H264_CHROMA_QP_INDEX_OFFSET
  | V4L2_CID_MPEG_VIDEO_H264_LOOP_FILTER_MODE
  | V4L2_CID_MPEG_VIDEO_H264_LOOP_FILTER_ALPHA
  | V4L2_CID_MPEG_VIDEO_H264_LOOP_FILTER_BETA
  | V4L2_CID_MPEG_VIDEO_H264_MIN_QP
  | V4L2_CID_MPEG_VIDEO_H264_MAX_QP
  | V4L2_CID_MPEG_VIDEO_H264_I_FRAME_QP
  | V4L2_CID_MPEG_VIDEO_H264_P_FRAME_QP
  | V4L2_CID_MPEG_VIDEO_GOP_CLOSURE
  | V4L2_CID_MPEG_VIDEO_GOP_SIZE
  | V4L2_CID_MPEG_VIDEO_H264_I_PERIOD
  | V4L2_CID_MPEG_VIDEO_FORCE_KEY_FRAME
  | V4L2_CID_OTHER

definition step_at_most :: "u32 \<Rightarrow> cedrus_enc_h264_context \<Rightarrow> cedrus_enc_h264_context" where
  "step_at_most s h264_ctx =
     (if s < step (state h264_ctx) then h264_ctx\<lparr>state := (state h264_ctx)\<lparr>step := s\<rparr>\<rparr>
      else h264_ctx)"

fun cedrus_enc_h264_ctrl_prepare ::
  "cedrus_enc_h264_context \<Rightarrow> v4l2_cid \<Rightarrow> u32 \<Rightarrow> cedrus_enc_h264_context" where
  "cedrus_enc_h264_ctrl_prepare c V4L2_CID_MPEG_VIDEO_PREPEND_SPSPPS_TO_IDR v =
     c\<lparr>prepend_sps_pps_idr := v\<rparr>"
| "cedrus_enc_h264_ctrl_prepare c V4L2_CID_MPEG_VIDEO_H264_VUI_SAR_ENABLE v =
     c\<lparr>vui_sar_enable := v\<rparr>"
| "cedrus_enc_h264_ctrl_prepare c V4L2_CID_MPEG_VIDEO_H264_VUI_SAR_IDC v =
     c\<lparr>vui_sar_idc := v\<rparr>"
| "cedrus_enc_h264_ctrl_prepare c V4L2_CID_MPEG_VIDEO_H264_VUI_EXT_SAR_WIDTH v =
     c\<lparr>vui_ext_sar_width := v\<rparr>"
| "cedrus_enc_h264_ctrl_prepare c V4L2_CID_MPEG_VIDEO_H264_VUI_EXT_SAR_HEIGHT v =
     c\<lparr>vui_ext_sar_height := v\<rparr>"
| "cedrus_enc_h264_ctrl_prepare c V4L2_CID_MPEG_VIDEO_H264_PROFILE v =
     step_at_most CEDRUS_ENC_H264_STEP_SPS (c\<lparr>profile := v\<rparr>)"
| "cedrus_enc_h264_ctrl_prepare c V4L2_CID_MPEG_VIDEO_H264_LEVEL v =
     step_at_most CEDRUS_ENC_H264_STEP_SPS (c\<lparr>level := v\<rparr>)"
| "cedrus_enc_h264_ctrl_prepare c V4L2_CID_MPEG_VIDEO_H264_ENTROPY_MODE v =
     step_at_most CEDRUS_ENC_H264_STEP_PPS (c\<lparr>entropy_mode := v\<rparr>)"
| "cedrus_enc_h264_ctrl_prepare c V4L2_CID_MPEG_VIDEO_H264_CHROMA_QP_INDEX_OFFSET v =
     c\<lparr>chroma_qp_index_offset := v\<rparr>"
| "cedrus_enc_h264_ctrl_prepare c V4L2_CID_MPEG_VIDEO_H264_LOOP_FILTER_MODE v =
     c\<lparr>loop_filter_mode := v\<rparr>"
| "cedrus_enc_h264_ctrl_prepare c V4L2_CID_MPEG_VIDEO_H264_LOOP_FILTER_ALPHA v =
     c\<lparr>loop_filter_alpha := v\<rparr>"
| "cedrus_enc_h264_ctrl_prepare c V4L2_CID_MPEG_VIDEO_H264_LOOP_FILTER_BETA v =
     c\<lparr>loop_filter_beta := v\<rparr>"
| "cedrus_enc_h264_ctrl_prepare c V4L2_CID_MPEG_VIDEO_H264_MIN_QP v = c\<lparr>qp_min := v\<rparr>"
| "cedrus_enc_h264_ctrl_prepare c V4L2_CID_MPEG_VIDEO_H264_MAX_QP v = c\<lparr>qp_max := v\<rparr>"
| "cedrus_enc_h264_ctrl_prepare c V4L2_CID_MPEG_VIDEO_H264_I_FRAME_QP v = c\<lparr>qp_i := v\<rparr>"
| "cedrus_enc_h264_ctrl_prepare c V4L2_CID_MPEG_VIDEO_H264_P_FRAME_QP v = c\<lparr>qp_p := v\<rparr>"
| "cedrus_enc_h264_ctrl_prepare c V4L2_CID_MPEG_VIDEO_GOP_CLOSURE v = c\<lparr>gop_closure := v\<rparr>"
| "cedrus_enc_h264_ctrl_prepare c V4L2_CID_MPEG_VIDEO_GOP_SIZE v = c\<lparr>gop_size := v\<rparr>"
| "cedrus_enc_h264_ctrl_prepare c V4L2_CID_MPEG_VIDEO_H264_I_PERIOD v =
     c\<lparr>gop_open_i_period := v\<rparr>"
| "cedrus_enc_h264_ctrl_prepare c V4L2_CID_MPEG_VIDEO_FORCE_KEY_FRAME v =
     c\<lparr>force_key_frame := True\<rparr>"
| "cedrus_enc_h264_ctrl_prepare c V4L2_CID_OTHER v = c"

text \<open>A series of control writes, in order.\<close>

definition apply_ctrls ::
  "cedrus_enc_h264_context \<Rightarrow> (v4l2_cid \<times> u32) list \<Rightarrow> cedrus_enc_h264_context" where
  "apply_ctrls c ws = foldl (\<lambda>c (cid, v). cedrus_enc_h264_ctrl_prepare c cid v) c ws"

text \<open>
  \<open>cedrus_enc_h264_disable_deblocking_filter_idc\<close>, with the values of
  \<open>enum v4l2_mpeg_video_h264_loop_filter_mode\<close> in the V4L2 interface.
\<close>

definition V4L2_MPEG_VIDEO_H264_LOOP_FILTER_MODE_ENABLED :: u32 where
  "V4L2_MPEG_VIDEO_H264_LOOP_FILTER_MODE_ENABLED = 0"
definition V4L2_MPEG_VIDEO_H264_LOOP_FILTER_MODE_DISABLED :: u32 where
  "V4L2_MPEG_VIDEO_H264_LOOP_FILTER_MODE_DISABLED = 1"
definition V4L2_MPEG_VIDEO_H264_LOOP_FILTER_MODE_DISABLED_AT_SLICE_BOUNDARY :: u32 where
  "V4L2_MPEG_VIDEO_H264_LOOP_FILTER_MODE_DISABLED_AT_SLICE_BOUNDARY = 2"

definition cedrus_enc_h264_disable_deblocking_filter_idc :: "u32 \<Rightarrow> u32" where
  "cedrus_enc_h264_disable_deblocking_filter_idc v =
     (if v = V4L2_MPEG_VIDEO_H264_LOOP_FILTER_MODE_ENABLED then 0
      else if v = V4L2_MPEG_VIDEO_H264_LOOP_FILTER_MODE_DISABLED then 1
      else if v = V4L2_MPEG_VIDEO_H264_LOOP_FILTER_MODE_DISABLED_AT_SLICE_BOUNDARY then 2
      else 0)"

text \<open>
  \<open>cedrus_enc_h264_job_prepare\<close>, on the job scratch that \<open>cedrus_context_job_run\<close> has
  zeroed. The source returns 0 always; \<open>None\<close> stands for the division by zero of
  \<open>gop_index %= gop_size\<close> when \<open>gop_size\<close> is 0 in GOP-closed mode (the control's range
  starts at 1). The frame-type switch for the QP has no case for B, which the function
  never chooses; the zeroed \<open>qp\<close> is kept there. The function is written in the order of
  the source, one definition per group of assignments: the frame type (GOP position, then
  the force-key-frame override), the GOP index, the QP, the job, the step and the state.
\<close>

definition gop_frame_type :: "cedrus_enc_h264_context \<Rightarrow> cedrus_enc_h264_frame_type" where
  "gop_frame_type h264_ctx =
     (if gop_closure h264_ctx \<noteq> 0 then
        (if gop_index (state h264_ctx) = 0 then CEDRUS_ENC_H264_FRAME_TYPE_IDR
         else CEDRUS_ENC_H264_FRAME_TYPE_P)
      else
        (if gop_index (state h264_ctx) = 0 then CEDRUS_ENC_H264_FRAME_TYPE_IDR
         else if 0 <s gop_open_i_period h264_ctx \<and>
                 gop_index (state h264_ctx) mod gop_open_i_period h264_ctx = 0
           then CEDRUS_ENC_H264_FRAME_TYPE_I
         else CEDRUS_ENC_H264_FRAME_TYPE_P))"

definition frame_qp :: "cedrus_enc_h264_context \<Rightarrow> cedrus_enc_h264_frame_type \<Rightarrow> u32" where
  "frame_qp h264_ctx ft =
     (case ft of
        CEDRUS_ENC_H264_FRAME_TYPE_IDR \<Rightarrow> qp_i h264_ctx
      | CEDRUS_ENC_H264_FRAME_TYPE_I \<Rightarrow> qp_i h264_ctx
      | CEDRUS_ENC_H264_FRAME_TYPE_P \<Rightarrow> qp_p h264_ctx
      | CEDRUS_ENC_H264_FRAME_TYPE_B \<Rightarrow> 0)"

definition prepare_frame_type :: "cedrus_enc_h264_context \<Rightarrow> cedrus_enc_h264_frame_type" where
  "prepare_frame_type h264_ctx =
     (if force_key_frame h264_ctx then CEDRUS_ENC_H264_FRAME_TYPE_IDR
      else gop_frame_type h264_ctx)"

definition prepare_gop_index :: "cedrus_enc_h264_context \<Rightarrow> u32" where
  "prepare_gop_index h264_ctx =
     (let gi = gop_index (state h264_ctx) + 1
      in if gop_closure h264_ctx \<noteq> 0 then gi mod gop_size h264_ctx else gi)"

definition prepare_qp :: "cedrus_enc_h264_context \<Rightarrow> u32" where
  "prepare_qp h264_ctx =
     (let q = frame_qp h264_ctx (prepare_frame_type h264_ctx)
      in if qp_max h264_ctx < q then qp_max h264_ctx
         else if q < qp_min h264_ctx then qp_min h264_ctx
         else q)"

definition prepare_job :: "cedrus_enc_h264_context \<Rightarrow> cedrus_enc_h264_job" where
  "prepare_job h264_ctx =
     (let st = state h264_ctx;
          ft = prepare_frame_type h264_ctx;
          idr = (ft = CEDRUS_ENC_H264_FRAME_TYPE_IDR);
          cabac = (entropy_mode h264_ctx = V4L2_MPEG_VIDEO_H264_ENTROPY_MODE_CABAC);
          idc = cedrus_enc_h264_disable_deblocking_filter_idc (loop_filter_mode h264_ctx)
      in \<lparr>nal_ref_idc = 2,
          frame_type = ft,
          job_frame_num = (if idr then 0 else frame_num st),
          job_pic_order_cnt_lsb = (if idr then 0 else pic_order_cnt_lsb st),
          qp = prepare_qp h264_ctx,
          seq_parameter_set_id = 0,
          pic_parameter_set_id = 0,
          idr_pic_id = 0,
          entropy_coding_mode_flag = (if cabac then 1 else 0),
          job_chroma_qp_index_offset = chroma_qp_index_offset h264_ctx,
          disable_deblocking_filter_idc = idc,
          slice_alpha_c0_offset_div2 = (if idc \<noteq> 1 then loop_filter_alpha h264_ctx else 0),
          slice_beta_offset_div2 = (if idc \<noteq> 1 then loop_filter_beta h264_ctx else 0),
          cabac_init_idc =
            (if cabac \<and> ft \<noteq> CEDRUS_ENC_H264_FRAME_TYPE_IDR \<and>
                ft \<noteq> CEDRUS_ENC_H264_FRAME_TYPE_I then 1 else 0)\<rparr>)"

definition prepare_step :: "cedrus_enc_h264_context \<Rightarrow> u32" where
  "prepare_step h264_ctx =
     (if prepare_frame_type h264_ctx = CEDRUS_ENC_H264_FRAME_TYPE_IDR \<and>
         prepend_sps_pps_idr h264_ctx \<noteq> 0
      then CEDRUS_ENC_H264_STEP_SPS else step (state h264_ctx))"

definition prepare_state :: "cedrus_enc_h264_context \<Rightarrow> cedrus_enc_h264_state" where
  "prepare_state h264_ctx =
     \<lparr>step = prepare_step h264_ctx,
      gop_index = prepare_gop_index h264_ctx,
      frame_num = mod_ulong (job_frame_num (prepare_job h264_ctx) + 1)
                    (BIT (log2_max_frame_num h264_ctx)),
      pic_order_cnt_lsb = mod_ulong (job_pic_order_cnt_lsb (prepare_job h264_ctx) + 2)
                    (BIT (log2_max_pic_order_cnt_lsb h264_ctx)),
      qp_init = (if prepare_step h264_ctx < CEDRUS_ENC_H264_STEP_SLICE then prepare_qp h264_ctx
                 else qp_init (state h264_ctx))\<rparr>"

definition cedrus_enc_h264_job_prepare ::
  "cedrus_enc_h264_context \<Rightarrow> (cedrus_enc_h264_job \<times> cedrus_enc_h264_context) option" where
  "cedrus_enc_h264_job_prepare h264_ctx =
     (if gop_closure h264_ctx \<noteq> 0 \<and> gop_size h264_ctx = 0 then None
      else Some (prepare_job h264_ctx,
                 h264_ctx\<lparr>state := prepare_state h264_ctx, force_key_frame := False\<rparr>))"

text \<open>
  The QP syntax elements of \<open>cedrus_enc_h264_job_configure_pps\<close> and
  \<open>cedrus_enc_h264_job_configure_slice_header\<close>: the arguments they pass to
  \<open>cedrus_enc_h264_coded_se\<close>.
\<close>

definition pic_init_qp_minus26 :: "cedrus_enc_h264_state \<Rightarrow> u32" where
  "pic_init_qp_minus26 st = qp_init st - 26"

definition slice_qp_delta :: "cedrus_enc_h264_job \<Rightarrow> cedrus_enc_h264_state \<Rightarrow> u32" where
  "slice_qp_delta job st = qp job - qp_init st"

text \<open>
  The headers as the calls that write them. Each call of the bit writer is recorded with
  the name its \<open>Syntax element:\<close> comment gives it in the source; \<open>Coded_align\<close> is the call
  of \<open>cedrus_enc_h264_coded_align\<close> that ends a parameter set.
\<close>

datatype coded_call =
    Coded_u32 u32
  | Coded_u8 "8 word"
  | Coded_ue u32
  | Coded_se u32
  | Coded_bit u32
  | Coded_append u32 u32
  | Coded_align

type_synonym syntax_element = "string \<times> coded_call"

definition CENDRUS_ENC_H264_NALU_TYPE_SLICE_NON_IDR :: "8 word" where
  "CENDRUS_ENC_H264_NALU_TYPE_SLICE_NON_IDR = 1"
definition CENDRUS_ENC_H264_NALU_TYPE_SLICE_IDR :: "8 word" where
  "CENDRUS_ENC_H264_NALU_TYPE_SLICE_IDR = 5"
definition CENDRUS_ENC_H264_NALU_TYPE_PPS :: "8 word" where
  "CENDRUS_ENC_H264_NALU_TYPE_PPS = 8"

definition CEDRUS_ENC_H264_SLICE_TYPE_I :: u32 where "CEDRUS_ENC_H264_SLICE_TYPE_I = 2"
definition CEDRUS_ENC_H264_SLICE_TYPE_P :: u32 where "CEDRUS_ENC_H264_SLICE_TYPE_P = 0"

text \<open>
  \<open>cedrus_enc_h264_nalu_header\<close>: \<open>GENMASK(4, 0)\<close> is \<open>0x1f\<close> and \<open>GENMASK(6, 5)\<close> is
  \<open>0x60\<close>.
\<close>

definition cedrus_enc_h264_nalu_header :: "8 word \<Rightarrow> 8 word \<Rightarrow> 8 word" where
  "cedrus_enc_h264_nalu_header ty ref_idc = (ty AND 0x1f) OR (push_bit 5 ref_idc AND 0x60)"

text \<open>\<open>cedrus_enc_h264_job_configure_pps\<close>.\<close>

definition cedrus_enc_h264_job_configure_pps ::
  "cedrus_enc_h264_job \<Rightarrow> cedrus_enc_h264_state \<Rightarrow> syntax_element list" where
  "cedrus_enc_h264_job_configure_pps job st =
     [(''Annex-B start code'', Coded_u32 1),
      (''NALU header'',
         Coded_u8 (cedrus_enc_h264_nalu_header CENDRUS_ENC_H264_NALU_TYPE_PPS 3)),
      (''pic_parameter_set_id'', Coded_ue (pic_parameter_set_id job)),
      (''seq_parameter_set_id'', Coded_ue (seq_parameter_set_id job)),
      (''entropy_coding_mode_flag'', Coded_bit (entropy_coding_mode_flag job)),
      (''bottom_field_pic_order_in_frame_present_flag'', Coded_bit 0),
      (''num_slice_groups_minus1'', Coded_ue 0),
      (''num_ref_idx_l0_default_active_minus1'', Coded_ue 0),
      (''num_ref_idx_l1_default_active_minus1'', Coded_ue 0),
      (''weighted_pred_flag'', Coded_bit 0),
      (''weighted_bipred_idc'', Coded_append 0 2),
      (''pic_init_qp_minus26'', Coded_se (pic_init_qp_minus26 st)),
      (''pic_init_qs_minus26'', Coded_se (pic_init_qp_minus26 st)),
      (''chroma_qp_index_offset'', Coded_se (job_chroma_qp_index_offset job)),
      (''deblocking_filter_control_present_flag'', Coded_bit 1),
      (''constrained_intra_pred_flag'', Coded_bit 0),
      (''redundant_pic_cnt_present_flag'', Coded_bit 0),
      (''rbsp_stop_one_bit'', Coded_bit 1),
      (''coded_align'', Coded_align)]"

text \<open>
  \<open>cedrus_enc_h264_job_configure_slice_header\<close>. The NALU header takes the low 8 bits
  of \<open>nal_ref_idc\<close> (the parameter is a \<open>u8\<close>).
\<close>

definition slice_header_slice_type :: "cedrus_enc_h264_job \<Rightarrow> u32" where
  "slice_header_slice_type job =
     (if frame_type job = CEDRUS_ENC_H264_FRAME_TYPE_IDR \<or>
         frame_type job = CEDRUS_ENC_H264_FRAME_TYPE_I
      then CEDRUS_ENC_H264_SLICE_TYPE_I else CEDRUS_ENC_H264_SLICE_TYPE_P)"

definition cedrus_enc_h264_job_configure_slice_header ::
  "cedrus_enc_h264_job \<Rightarrow> cedrus_enc_h264_context \<Rightarrow> syntax_element list" where
  "cedrus_enc_h264_job_configure_slice_header job h264_ctx =
     [(''Annex-B start code'', Coded_u32 1),
      (''NALU header'',
         Coded_u8 (cedrus_enc_h264_nalu_header
           (if frame_type job = CEDRUS_ENC_H264_FRAME_TYPE_IDR
            then CENDRUS_ENC_H264_NALU_TYPE_SLICE_IDR
            else CENDRUS_ENC_H264_NALU_TYPE_SLICE_NON_IDR)
           (ucast (nal_ref_idc job)))),
      (''first_mb_in_slice'', Coded_ue 0),
      (''slice_type'', Coded_ue (slice_header_slice_type job)),
      (''pic_parameter_set_id'', Coded_ue (pic_parameter_set_id job)),
      (''frame_num'', Coded_append (job_frame_num job) (log2_max_frame_num h264_ctx))]
     @ (if frame_type job = CEDRUS_ENC_H264_FRAME_TYPE_IDR
        then [(''idr_pic_id'', Coded_ue (idr_pic_id job))] else [])
     @ (if pic_order_cnt_type h264_ctx = 0
        then [(''pic_order_cnt_lsb'',
                Coded_append (job_pic_order_cnt_lsb job) (log2_max_pic_order_cnt_lsb h264_ctx))]
        else [])
     @ (if slice_header_slice_type job = CEDRUS_ENC_H264_SLICE_TYPE_P
        then [(''num_ref_idx_active_override_flag'', Coded_bit 0),
              (''ref_pic_list_modification_flag_l0'', Coded_bit 0)]
        else [])
     @ (if frame_type job = CEDRUS_ENC_H264_FRAME_TYPE_IDR
        then [(''no_output_of_prior_pics_flag'', Coded_bit 0),
              (''long_term_reference_flag'', Coded_bit 0)]
        else [(''adaptive_ref_pic_marking_mode_flag'', Coded_bit 0)])
     @ (if slice_header_slice_type job \<noteq> CEDRUS_ENC_H264_SLICE_TYPE_I \<and>
           entropy_coding_mode_flag job \<noteq> 0
        then [(''cabac_init_idc'', Coded_ue (cabac_init_idc job))] else [])
     @ [(''slice_qp_delta'', Coded_se (slice_qp_delta job (state h264_ctx))),
        (''disable_deblocking_filter_idc'', Coded_ue (disable_deblocking_filter_idc job))]
     @ (if disable_deblocking_filter_idc job \<noteq> 1
        then [(''slice_alpha_c0_offset_div2'', Coded_se (slice_alpha_c0_offset_div2 job)),
              (''slice_beta_offset_div2'', Coded_se (slice_beta_offset_div2 job))]
        else [])"

text \<open>
  The step after \<open>cedrus_enc_h264_job_configure_headers\<close>: its loop walks
  Start, SPS, PPS, Slice and stops after the slice header, so the step is Slice whenever
  the loop ends (it does not end on a step outside the enumeration).
\<close>

definition cedrus_enc_h264_job_configure_headers ::
  "cedrus_enc_h264_context \<Rightarrow> cedrus_enc_h264_context option" where
  "cedrus_enc_h264_job_configure_headers h264_ctx =
     (if step (state h264_ctx) \<le> CEDRUS_ENC_H264_STEP_SLICE
      then Some (h264_ctx\<lparr>state := (state h264_ctx)\<lparr>step := CEDRUS_ENC_H264_STEP_SLICE\<rparr>\<rparr>)
      else None)"

text \<open>
  A session as the encoder sees it: control writes and jobs, in any order. A job is
  \<open>job_prepare\<close> followed by the header emission of \<open>job_configure\<close>.
\<close>

definition enc_job ::
  "cedrus_enc_h264_context \<Rightarrow> (cedrus_enc_h264_job \<times> cedrus_enc_h264_context) option" where
  "enc_job c =
     (case cedrus_enc_h264_job_prepare c of
        None \<Rightarrow> None
      | Some (job, c') \<Rightarrow>
          (case cedrus_enc_h264_job_configure_headers c' of
             None \<Rightarrow> None
           | Some c'' \<Rightarrow> Some (job, c'')))"

datatype enc_event = Ctrl v4l2_cid u32 | Job

fun run_events ::
  "cedrus_enc_h264_context \<Rightarrow> enc_event list \<Rightarrow>
     (cedrus_enc_h264_job list \<times> cedrus_enc_h264_context) option" where
  "run_events c [] = Some ([], c)"
| "run_events c (Ctrl cid v # es) = run_events (cedrus_enc_h264_ctrl_prepare c cid v) es"
| "run_events c (Job # es) =
     (case enc_job c of
        None \<Rightarrow> None
      | Some (job, c') \<Rightarrow>
          (case run_events c' es of
             None \<Rightarrow> None
           | Some (jobs, cf) \<Rightarrow> Some (job # jobs, cf)))"

text \<open>
  The loop of \<open>cedrus_enc_h264_job_configure_headers\<close> with the NAL units it writes, in
  order. The elements of the SPS are not listed (it carries no QP). On a step outside the
  enumeration the \<open>switch\<close> has no case and the loop does not end: \<open>None\<close>.
\<close>

datatype nalu =
    NALU_SPS
  | NALU_PPS "syntax_element list"
  | NALU_SLICE "syntax_element list"

function job_configure_headers_loop ::
  "cedrus_enc_h264_job \<Rightarrow> cedrus_enc_h264_context \<Rightarrow> nalu list \<Rightarrow>
     (nalu list \<times> cedrus_enc_h264_context) option" where
  "job_configure_headers_loop job h264_ctx written =
     (if step (state h264_ctx) = CEDRUS_ENC_H264_STEP_START then
        job_configure_headers_loop job
          (h264_ctx\<lparr>state := (state h264_ctx)\<lparr>step := CEDRUS_ENC_H264_STEP_SPS\<rparr>\<rparr>) written
      else if step (state h264_ctx) = CEDRUS_ENC_H264_STEP_SPS then
        job_configure_headers_loop job
          (h264_ctx\<lparr>state := (state h264_ctx)\<lparr>step := CEDRUS_ENC_H264_STEP_PPS\<rparr>\<rparr>)
          (written @ [NALU_SPS])
      else if step (state h264_ctx) = CEDRUS_ENC_H264_STEP_PPS then
        job_configure_headers_loop job
          (h264_ctx\<lparr>state := (state h264_ctx)\<lparr>step := CEDRUS_ENC_H264_STEP_SLICE\<rparr>\<rparr>)
          (written @ [NALU_PPS (cedrus_enc_h264_job_configure_pps job (state h264_ctx))])
      else if step (state h264_ctx) = CEDRUS_ENC_H264_STEP_SLICE then
        Some (written @ [NALU_SLICE (cedrus_enc_h264_job_configure_slice_header job h264_ctx)],
              h264_ctx)
      else None)"
  by pat_completeness auto
termination
  by (relation "measure (\<lambda>(job, h264_ctx, written). 3 - unat (step (state h264_ctx)))")
    (simp_all add: CEDRUS_ENC_H264_STEP_START_def CEDRUS_ENC_H264_STEP_SPS_def
      CEDRUS_ENC_H264_STEP_PPS_def CEDRUS_ENC_H264_STEP_SLICE_def)

text \<open>
  A job with what it writes, and a session that keeps, for each job, the context the job
  was prepared from, the job and the NAL units written for it.
\<close>

definition enc_job_coded ::
  "cedrus_enc_h264_context \<Rightarrow>
     (cedrus_enc_h264_job \<times> nalu list \<times> cedrus_enc_h264_context) option" where
  "enc_job_coded c =
     (case cedrus_enc_h264_job_prepare c of
        None \<Rightarrow> None
      | Some (job, c') \<Rightarrow>
          (case job_configure_headers_loop job c' [] of
             None \<Rightarrow> None
           | Some (nalus, c'') \<Rightarrow> Some (job, nalus, c'')))"

fun run_coded ::
  "cedrus_enc_h264_context \<Rightarrow> enc_event list \<Rightarrow>
     ((cedrus_enc_h264_context \<times> cedrus_enc_h264_job \<times> nalu list) list \<times>
      cedrus_enc_h264_context) option" where
  "run_coded c [] = Some ([], c)"
| "run_coded c (Ctrl cid v # es) = run_coded (cedrus_enc_h264_ctrl_prepare c cid v) es"
| "run_coded c (Job # es) =
     (case enc_job_coded c of
        None \<Rightarrow> None
      | Some (job, nalus, c') \<Rightarrow>
          (case run_coded c' es of
             None \<Rightarrow> None
           | Some (outs, cf) \<Rightarrow> Some ((c, job, nalus) # outs, cf)))"

definition coded_stream ::
  "(cedrus_enc_h264_context \<times> cedrus_enc_h264_job \<times> nalu list) list \<Rightarrow> nalu list" where
  "coded_stream outs = concat (map (\<lambda>(c, job, nalus). nalus) outs)"

text \<open>
  The reader's side, from H.264 (7.4.2.2, 7.4.3): a slice is decoded with
  \<open>SliceQPY = 26 + pic_init_qp_minus26 + slice_qp_delta\<close>, the first read from the PPS in
  force (here the last one written, all with \<open>pic_parameter_set_id\<close> 0), the second from
  the slice header; an \<open>se(v)\<close> element reads as the signed value the call was given.
  \<open>pps_qp_after\<close> is \<open>26 + pic_init_qp_minus26\<close> of the PPS in force after a stream, and
  \<open>decoded_slice_qps\<close> the \<open>SliceQPY\<close> of its slices, in order (\<open>None\<close> for a slice with no
  PPS before it or a missing element).
\<close>

definition se_element :: "string \<Rightarrow> syntax_element list \<Rightarrow> int option" where
  "se_element name els =
     (case map_of els name of Some (Coded_se v) \<Rightarrow> Some (sint v) | _ \<Rightarrow> None)"

fun pps_qp_after :: "int option \<Rightarrow> nalu list \<Rightarrow> int option" where
  "pps_qp_after pq [] = pq"
| "pps_qp_after pq (NALU_SPS # ns) = pps_qp_after pq ns"
| "pps_qp_after pq (NALU_PPS els # ns) =
     pps_qp_after (map_option (\<lambda>v. 26 + v) (se_element ''pic_init_qp_minus26'' els)) ns"
| "pps_qp_after pq (NALU_SLICE els # ns) = pps_qp_after pq ns"

fun decoded_slice_qps :: "int option \<Rightarrow> nalu list \<Rightarrow> int option list" where
  "decoded_slice_qps pq [] = []"
| "decoded_slice_qps pq (NALU_SPS # ns) = decoded_slice_qps pq ns"
| "decoded_slice_qps pq (NALU_PPS els # ns) =
     decoded_slice_qps (map_option (\<lambda>v. 26 + v) (se_element ''pic_init_qp_minus26'' els)) ns"
| "decoded_slice_qps pq (NALU_SLICE els # ns) =
     (case (pq, se_element ''slice_qp_delta'' els) of
        (Some p, Some d) \<Rightarrow> Some (p + d)
      | _ \<Rightarrow> None) # decoded_slice_qps pq ns"

text \<open>
  The QP of a job in the spec's words: the control value of the frame type, \<open>qp_i\<close> for
  IDR and I frames and \<open>qp_p\<close> for P frames, saturated at \<open>qp_max\<close> and otherwise at
  \<open>qp_min\<close>.
\<close>

definition spec_frame_qp :: "cedrus_enc_h264_context \<Rightarrow> cedrus_enc_h264_frame_type \<Rightarrow> u32" where
  "spec_frame_qp c ft = (if ft = CEDRUS_ENC_H264_FRAME_TYPE_P then qp_p c else qp_i c)"

definition spec_qp :: "cedrus_enc_h264_context \<Rightarrow> cedrus_enc_h264_frame_type \<Rightarrow> u32" where
  "spec_qp c ft =
     (if qp_max c < spec_frame_qp c ft then qp_max c
      else if spec_frame_qp c ft < qp_min c then qp_min c
      else spec_frame_qp c ft)"

definition is_qp_ctrl :: "v4l2_cid \<Rightarrow> bool" where
  "is_qp_ctrl cid \<longleftrightarrow>
     cid = V4L2_CID_MPEG_VIDEO_H264_MIN_QP \<or> cid = V4L2_CID_MPEG_VIDEO_H264_MAX_QP \<or>
     cid = V4L2_CID_MPEG_VIDEO_H264_I_FRAME_QP \<or> cid = V4L2_CID_MPEG_VIDEO_H264_P_FRAME_QP"

text \<open>
  The identification a run of jobs carries, in the spec's words: \<open>frame_num\<close> advances
  by 1 and \<open>pic_order_cnt_lsb\<close> by 2 per job, each reduced modulo its bound (\<open>mf\<close>,
  \<open>mp\<close>), and both are 0 on every IDR job. \<open>fn\<close> and \<open>poc\<close> are the values the next
  non-IDR job carries.
\<close>

fun spec_frame_ids :: "nat \<Rightarrow> nat \<Rightarrow> u32 \<Rightarrow> u32 \<Rightarrow> cedrus_enc_h264_job list \<Rightarrow> bool" where
  "spec_frame_ids mf mp fn poc [] = True"
| "spec_frame_ids mf mp fn poc (j # js) =
     (job_frame_num j = (if frame_type j = CEDRUS_ENC_H264_FRAME_TYPE_IDR then 0 else fn) \<and>
      job_pic_order_cnt_lsb j =
        (if frame_type j = CEDRUS_ENC_H264_FRAME_TYPE_IDR then 0 else poc) \<and>
      spec_frame_ids mf mp (mod_ulong (job_frame_num j + 1) mf)
        (mod_ulong (job_pic_order_cnt_lsb j + 2) mp) js)"

text \<open>
  The counters such a run leaves in the state: the values the next non-IDR job carries.
\<close>

fun spec_next_ids :: "nat \<Rightarrow> nat \<Rightarrow> u32 \<Rightarrow> u32 \<Rightarrow> cedrus_enc_h264_job list \<Rightarrow> u32 \<times> u32" where
  "spec_next_ids mf mp fn poc [] = (fn, poc)"
| "spec_next_ids mf mp fn poc (j # js) =
     spec_next_ids mf mp (mod_ulong (job_frame_num j + 1) mf)
       (mod_ulong (job_pic_order_cnt_lsb j + 2) mp) js"

text \<open>
  A run of jobs under fixed controls, each job optionally preceded by a write of the
  force-key-frame control; and the frame type of its \<open>n\<close>-th job.
\<close>

fun force_jobs :: "bool list \<Rightarrow> enc_event list" where
  "force_jobs [] = []"
| "force_jobs (f # fs) =
     (if f then [Ctrl V4L2_CID_MPEG_VIDEO_FORCE_KEY_FRAME 0, Job] else [Job]) @ force_jobs fs"

definition nth_frame_type ::
  "cedrus_enc_h264_context \<Rightarrow> bool list \<Rightarrow> nat \<Rightarrow> cedrus_enc_h264_frame_type option" where
  "nth_frame_type c fs n =
     (case run_events c (force_jobs fs) of
        None \<Rightarrow> None
      | Some (jobs, cf) \<Rightarrow> if n < length jobs then Some (frame_type (jobs ! n)) else None)"

subsection \<open>Job dispatch, interrupt and watchdog (cedrus.c, cedrus\_context.c)\<close>

text \<open>
  The device as the completion paths see it. \<open>watchdog_pending\<close> is the pending bit of
  the delayed work \<open>watchdog_work\<close>; \<open>curr_priv\<close> is what \<open>v4l2_m2m_get_curr_priv\<close>
  returns, the context of the job the mem2mem framework is running, if any;
  \<open>dec_ctx_active\<close> and \<open>enc_ctx_active\<close> are the \<open>ctx_active\<close> markers of the two
  processing units. Calls that leave the driver (engine operations on the hardware, the
  mem2mem framework, the reset controller) are recorded in \<open>trace\<close>, in order.
\<close>

datatype cedrus_irq_status = CEDRUS_IRQ_NONE | CEDRUS_IRQ_ERROR | CEDRUS_IRQ_SUCCESS

datatype vb2_buffer_state = VB2_BUF_STATE_DONE | VB2_BUF_STATE_ERROR

datatype irqreturn = IRQ_NONE | IRQ_HANDLED

datatype errno = ENOMEM | EINVAL | ENODEV | ERANGE | EOPNOTSUPP

datatype proc_id = Proc_dec | Proc_enc

record cedrus_context =
  ctx_id :: nat
  ctx_proc :: proc_id

datatype action =
    Job_memset cedrus_context
  | Ctrl_request_setup cedrus_context
  | Ctrl_request_complete cedrus_context
  | Engine_job_trigger cedrus_context
  | Engine_job_finish cedrus_context vb2_buffer_state
  | M2m_buf_done_and_job_finish cedrus_context vb2_buffer_state
  | Engine_irq_disable cedrus_context
  | Engine_irq_clear cedrus_context
  | Reset_control_reset

record cedrus_dev_state =
  watchdog_pending :: bool
  curr_priv :: "cedrus_context option"
  dec_ctx_active :: "cedrus_context option"
  enc_ctx_active :: "cedrus_context option"
  trace :: "action list"

definition do_action :: "action \<Rightarrow> cedrus_dev_state \<Rightarrow> cedrus_dev_state" where
  "do_action a s = s\<lparr>trace := trace s @ [a]\<rparr>"

text \<open>
  \<open>cedrus_context_job_finish\<close>: the engine's \<open>job_finish\<close>, the \<open>memset\<close> of the job
  structure, then \<open>v4l2_m2m_buf_done_and_job_finish\<close>, which returns both buffers with
  the state and ends the framework's current job.
\<close>

definition cedrus_context_job_finish ::
  "cedrus_context \<Rightarrow> vb2_buffer_state \<Rightarrow> cedrus_dev_state \<Rightarrow> cedrus_dev_state" where
  "cedrus_context_job_finish ctx st s =
     (do_action (M2m_buf_done_and_job_finish ctx st)
        (do_action (Job_memset ctx)
          (do_action (Engine_job_finish ctx st) s)))\<lparr>curr_priv := None\<rparr>"

definition cedrus_proc_context_active_update ::
  "cedrus_context \<Rightarrow> cedrus_dev_state \<Rightarrow> cedrus_dev_state" where
  "cedrus_proc_context_active_update ctx s =
     (case ctx_proc ctx of
        Proc_dec \<Rightarrow> s\<lparr>dec_ctx_active := Some ctx\<rparr>
      | Proc_enc \<Rightarrow> s\<lparr>enc_ctx_active := Some ctx\<rparr>)"

text \<open>
  \<open>cedrus_context_job_run\<close>. The results of the engine's \<open>job_prepare\<close>,
  \<open>format_configure\<close>, the picture format configuration and the engine's
  \<open>job_configure\<close> are arguments (\<open>None\<close> is the return value 0); \<open>req\<close> tells whether
  the coded buffer carries a request. It returns 0 (\<open>None\<close>) or the first error.
\<close>

definition job_run_error ::
  "cedrus_context \<Rightarrow> bool \<Rightarrow> cedrus_dev_state \<Rightarrow> cedrus_dev_state" where
  "job_run_error ctx req s =
     cedrus_context_job_finish ctx VB2_BUF_STATE_ERROR
       (if req then do_action (Ctrl_request_complete ctx) s else s)"

definition cedrus_context_job_run ::
  "cedrus_context \<Rightarrow> bool \<Rightarrow> errno option \<Rightarrow> errno option \<Rightarrow> errno option \<Rightarrow> errno option \<Rightarrow>
     cedrus_dev_state \<Rightarrow> errno option \<times> cedrus_dev_state" where
  "cedrus_context_job_run ctx req r_prepare r_format r_picture r_configure s =
     (let s1 = do_action (Job_memset ctx) s;
          s2 = (if req then do_action (Ctrl_request_setup ctx) s1 else s1)
      in case r_prepare of
           Some e \<Rightarrow> (Some e, job_run_error ctx req s2)
         | None \<Rightarrow>
        (case r_format of
           Some e \<Rightarrow> (Some e, job_run_error ctx req s2)
         | None \<Rightarrow>
        (case r_picture of
           Some e \<Rightarrow> (Some e, job_run_error ctx req s2)
         | None \<Rightarrow>
        (case r_configure of
           Some e \<Rightarrow> (Some e, job_run_error ctx req s2)
         | None \<Rightarrow>
             (let s3 = (if req then do_action (Ctrl_request_complete ctx) s2 else s2);
                  s4 = cedrus_proc_context_active_update ctx s3;
                  s5 = s4\<lparr>watchdog_pending := True\<rparr>
              in (None, do_action (Engine_job_trigger ctx) s5))))))"

text \<open>
  \<open>cedrus_watchdog\<close>, the work function: it runs once the delayed work has left the
  pending state. \<open>watchdog_expire\<close> is that transition followed by the function; it has
  no effect when the work is not pending (never scheduled, or cancelled).
\<close>

definition cedrus_watchdog :: "cedrus_dev_state \<Rightarrow> cedrus_dev_state" where
  "cedrus_watchdog s =
     (case curr_priv s of
        None \<Rightarrow> s
      | Some ctx \<Rightarrow> cedrus_context_job_finish ctx VB2_BUF_STATE_ERROR
                      (do_action Reset_control_reset s))"

definition watchdog_expire :: "cedrus_dev_state \<Rightarrow> cedrus_dev_state" where
  "watchdog_expire s =
     (if watchdog_pending s then cedrus_watchdog (s\<lparr>watchdog_pending := False\<rparr>) else s)"

definition cedrus_irq_disable_clear :: "cedrus_context \<Rightarrow> cedrus_dev_state \<Rightarrow> cedrus_dev_state" where
  "cedrus_irq_disable_clear ctx s =
     do_action (Engine_irq_clear ctx) (do_action (Engine_irq_disable ctx) s)"

definition cedrus_irq_spurious :: "cedrus_dev_state \<Rightarrow> cedrus_dev_state" where
  "cedrus_irq_spurious s =
     (let s1 = (case dec_ctx_active s of None \<Rightarrow> s | Some ctx \<Rightarrow> cedrus_irq_disable_clear ctx s)
      in case enc_ctx_active s1 of None \<Rightarrow> s1 | Some ctx \<Rightarrow> cedrus_irq_disable_clear ctx s1)"

text \<open>
  Modelled from the spec: \<open>cancel_delayed_work\<close> is the atomic cancel that reports whether
  it won: it returns whether the work was pending and leaves it not pending.
\<close>

definition cancel_delayed_work :: "cedrus_dev_state \<Rightarrow> bool \<times> cedrus_dev_state" where
  "cancel_delayed_work s = (watchdog_pending s, s\<lparr>watchdog_pending := False\<rparr>)"

text \<open>
  \<open>cedrus_irq\<close>. \<open>status\<close> is what \<open>cedrus_engine_irq_status\<close> reads from the engine's
  status register when the handler reaches that call.
\<close>

definition cedrus_irq :: "cedrus_irq_status \<Rightarrow> cedrus_dev_state \<Rightarrow> irqreturn \<times> cedrus_dev_state" where
  "cedrus_irq status s =
     (let ctx = curr_priv s;
          (cancelled, s1) = cancel_delayed_work s
      in if \<not> cancelled then (IRQ_HANDLED, cedrus_irq_spurious s1)
         else
           (case ctx of
              None \<Rightarrow> (IRQ_NONE, cedrus_irq_spurious s1)
            | Some c \<Rightarrow>
                if status = CEDRUS_IRQ_NONE then (IRQ_NONE, s1)
                else
                  (let s2 = cedrus_irq_disable_clear c s1;
                       st = (if status = CEDRUS_IRQ_ERROR then VB2_BUF_STATE_ERROR
                             else VB2_BUF_STATE_DONE)
                   in (IRQ_HANDLED, cedrus_context_job_finish c st s2))))"

text \<open>The completions a trace holds: the buffer states reported to the framework.\<close>

fun completions :: "action list \<Rightarrow> vb2_buffer_state list" where
  "completions [] = []"
| "completions (M2m_buf_done_and_job_finish ctx st # as) = st # completions as"
| "completions (a # as) = completions as"

text \<open>A job of \<open>ctx\<close> as dispatch leaves it: active, watchdog armed, triggered.\<close>

definition dispatched :: "cedrus_context \<Rightarrow> cedrus_dev_state" where
  "dispatched ctx =
     snd (cedrus_context_job_run ctx False None None None None
       \<lparr>watchdog_pending = False, curr_priv = Some ctx, dec_ctx_active = None,
        enc_ctx_active = None, trace = []\<rparr>)"

subsection \<open>H.265 decoder: job configuration up to the bitstream skip (cedrus\_dec\_h265.c)\<close>

text \<open>
  What \<open>cedrus_dec_h265_job_configure\<close> reads before it has programmed the bitstream
  position: the entry-point counts of the slice parameters and of the control array, the
  size of the picture buffer's MV column buffer (0 when not yet allocated), the size the
  function computes for it and whether the allocation succeeds, the tile and
  entropy-sync flags of the PPS, the framework's
  \<open>new_frame\<close>, the slice's \<open>data_byte_offset\<close>, and the byte the hardware shows before
  the slice data.
\<close>

record h265_job_input =
  num_entry_point_offsets :: u32
  entry_point_offsets_count :: u32
  mv_col_buf_size :: nat
  mv_col_buf_size_needed :: nat
  mv_col_buf_alloc_ok :: bool
  pps_tiles_or_entropy_sync :: bool
  new_frame :: bool
  data_byte_offset :: u32
  padding_byte :: "8 word"

text \<open>The register programming, in the order of the source, one constructor per group.\<close>

datatype h265_hw_op =
    Write_bits_offset_len_addr
  | Write_dec_ctb_addr
  | Tiles_write
  | Write_tile_start_end_zero
  | Write_dec_ctb_num_zero
  | Trigger_init_swdec
  | Trigger_flush_bits nat
  | Trigger_show_bits nat
  | Write_slice_registers

text \<open>
  \<open>cedrus_dec_h265_bits_skip\<close>: flush \<open>count\<close> bits, at most 32 per trigger.
\<close>

function bits_skip_from :: "nat \<Rightarrow> nat \<Rightarrow> h265_hw_op list" where
  "bits_skip_from written count =
     (if written < count
      then Trigger_flush_bits (min (count - written) 32) #
           bits_skip_from (written + min (count - written) 32) count
      else [])"
  by pat_completeness auto
termination
  by (relation "measure (\<lambda>(written, count). count - written)") auto

definition cedrus_dec_h265_bits_skip :: "u32 \<Rightarrow> h265_hw_op list" where
  "cedrus_dec_h265_bits_skip count = bits_skip_from 0 (unat count)"

text \<open>
  The loop \<open>for (count = 0; count < 8; count++) if (padding & (1 << count)) break;\<close>,
  entered at \<open>count\<close> with \<open>n\<close> iterations left.
\<close>

primrec padding_scan :: "8 word \<Rightarrow> nat \<Rightarrow> nat \<Rightarrow> nat" where
  "padding_scan p count 0 = count"
| "padding_scan p count (Suc n) = (if bit p count then count else padding_scan p (Suc count) n)"

text \<open>
  \<open>cedrus_dec_h265_job_configure\<close>: the result (\<open>Inl\<close> the error), the register
  programming done, and the size of the MV column buffer afterwards.
\<close>

definition cedrus_dec_h265_job_configure ::
  "h265_job_input \<Rightarrow> (errno + unit) \<times> h265_hw_op list \<times> nat" where
  "cedrus_dec_h265_job_configure j =
     (if num_entry_point_offsets j \<noteq> 0 \<and>
         num_entry_point_offsets j \<noteq> entry_point_offsets_count j
      then (Inl ERANGE, [], mv_col_buf_size j)
      else if mv_col_buf_size j = 0 \<and> \<not> mv_col_buf_alloc_ok j
      then (Inl ENOMEM, [], 0)
      else
        let mv = (if mv_col_buf_size j = 0 then mv_col_buf_size_needed j else mv_col_buf_size j);
            ops1 = [Write_bits_offset_len_addr, Write_dec_ctb_addr] @
                   (if pps_tiles_or_entropy_sync j then [Tiles_write]
                    else [Write_tile_start_end_zero]) @
                   (if new_frame j then [Write_dec_ctb_num_zero] else []) @
                   [Trigger_init_swdec]
        in if data_byte_offset j = 0
           then (Inl EOPNOTSUPP, ops1, mv)
           else
             let ops2 = ops1 @ cedrus_dec_h265_bits_skip ((data_byte_offset j - 1) * 8) @
                        [Trigger_show_bits 8]
             in if padding_byte j = 0
                then (Inl EINVAL, ops2, mv)
                else
                  let count = Suc (padding_scan (padding_byte j) 0 8)
                  in (Inr (),
                      ops2 @ cedrus_dec_h265_bits_skip (of_nat (8 - count)) @
                        [Write_slice_registers],
                      mv))"

text \<open>
  A job of the H.265 decoder through \<open>cedrus_context_job_run\<close>: the engine's
  \<open>job_prepare\<close> returns 0 always; the formats configure as \<open>r_format\<close> and
  \<open>r_picture\<close> say.
\<close>

definition h265_job_run ::
  "cedrus_context \<Rightarrow> bool \<Rightarrow> errno option \<Rightarrow> errno option \<Rightarrow> h265_job_input \<Rightarrow>
     cedrus_dev_state \<Rightarrow> errno option \<times> cedrus_dev_state" where
  "h265_job_run ctx req r_format r_picture j s =
     cedrus_context_job_run ctx req None r_format r_picture
       (case fst (cedrus_dec_h265_job_configure j) of Inl e \<Rightarrow> Some e | Inr u \<Rightarrow> None) s"

subsection \<open>H.264 decoder: the frame list (cedrus\_dec\_h264.c)\<close>

text \<open>
  A picture buffer of the capture queue, with the fields of its
  \<open>struct cedrus_dec_h264_buffer\<close>: the queue is the list of its buffers, a buffer is
  named by its index. The engine buffer is allocated zeroed, so a new buffer has position
  0 and no MV column buffer.
\<close>

datatype cedrus_dec_h264_pic_type =
    CEDRUS_DEC_H264_PIC_TYPE_FRAME
  | CEDRUS_DEC_H264_PIC_TYPE_FIELD
  | CEDRUS_DEC_H264_PIC_TYPE_MBAFF

record cedrus_buffer =
  copied_timestamp :: bool
  timestamp :: u64
  position :: nat
  pic_type :: cedrus_dec_h264_pic_type
  h264_mv_col_buf_size :: nat

text \<open>
  Modelled from the spec: \<open>vb2_find_buffer\<close> resolves a timestamp to an already-known
  picture buffer; it is the first buffer of the queue that carries a copied timestamp
  equal to it.
\<close>

fun find_from :: "nat \<Rightarrow> cedrus_buffer list \<Rightarrow> u64 \<Rightarrow> nat option" where
  "find_from i [] ts = None"
| "find_from i (b # bs) ts =
     (if copied_timestamp b \<and> timestamp b = ts then Some i else find_from (Suc i) bs ts)"

definition vb2_find_buffer :: "cedrus_buffer list \<Rightarrow> u64 \<Rightarrow> nat option" where
  "vb2_find_buffer q ts = find_from 0 q ts"

text \<open>
  An entry of \<open>decode_params->dpb\<close>: \<open>dpb_valid\<close> and \<open>dpb_active\<close> are the bits
  \<open>V4L2_H264_DPB_ENTRY_FLAG_VALID\<close> and \<open>V4L2_H264_DPB_ENTRY_FLAG_ACTIVE\<close> of its flags.
  The decode parameters as \<open>cedrus_write_frame_list\<close> reads them: the DPB array (16
  entries), the field-picture flag, the SPS flag for MBAFF, and the field order counts.
  The list holds the entries of the array in order; a list shorter than 16 stands for an
  array whose remaining entries are not valid, which the loop skips.
\<close>

record v4l2_h264_dpb_entry =
  reference_ts :: u64
  dpb_valid :: bool
  dpb_active :: bool
  top_field_order_cnt :: u32
  bottom_field_order_cnt :: u32


text \<open>
  \<open>struct cedrus_dec_h264_sram_ref_pic\<close> as \<open>cedrus_fill_ref_pic\<close> fills it:
  \<open>ref_buffer\<close> stands for the luma, chroma and MV column addresses of that buffer.
  \<open>pic_list\<close> has \<open>CEDRUS_DEC_H264_FRAME_NUM\<close> entries, \<open>None\<close> where it is still
  zeroed.
\<close>

definition CEDRUS_DEC_H264_FRAME_NUM :: nat where
  "CEDRUS_DEC_H264_FRAME_NUM = 18"

record cedrus_dec_h264_sram_ref_pic =
  ref_buffer :: nat
  ref_top_field_order_cnt :: u32
  ref_bottom_field_order_cnt :: u32
  ref_pic_type :: cedrus_dec_h264_pic_type

text \<open>
  The locals of the loop over the DPB. \<open>used_dpbs\<close> is the \<open>unsigned long\<close> bit mask,
  as a number; \<open>scan_output\<close> is the local \<open>output\<close>, \<open>None\<close> for -1. A write to \<open>pic_list\<close> at or past index 18
  is outside the array: \<open>overrun\<close> records it.
\<close>

record frame_list_scan =
  used_dpbs :: nat
  scan_output :: "nat option"
  pic_list :: "cedrus_dec_h264_sram_ref_pic option list"
  overrun :: bool

definition cedrus_fill_ref_pic ::
  "cedrus_buffer list \<Rightarrow> nat \<Rightarrow> u32 \<Rightarrow> u32 \<Rightarrow> nat \<Rightarrow> frame_list_scan \<Rightarrow> frame_list_scan" where
  "cedrus_fill_ref_pic q b top_cnt bottom_cnt pos st =
     (if pos < CEDRUS_DEC_H264_FRAME_NUM
      then st\<lparr>pic_list := (pic_list st)[pos := Some \<lparr>ref_buffer = b,
             ref_top_field_order_cnt = top_cnt, ref_bottom_field_order_cnt = bottom_cnt,
             ref_pic_type = pic_type (q ! b)\<rparr>]\<rparr>
      else st\<lparr>overrun := True\<rparr>)"

definition dpb_step ::
  "cedrus_buffer list \<Rightarrow> u64 \<Rightarrow> frame_list_scan \<Rightarrow> v4l2_h264_dpb_entry \<Rightarrow> frame_list_scan" where
  "dpb_step q ts st e =
     (if \<not> dpb_valid e then st
      else case vb2_find_buffer q (reference_ts e) of
        None \<Rightarrow> st
      | Some b \<Rightarrow>
          (let pos = position (q ! b);
               st1 = st\<lparr>used_dpbs := used_dpbs st OR 2 ^ pos\<rparr>
           in if ts = reference_ts e then st1\<lparr>scan_output := Some pos\<rparr>
              else if \<not> dpb_active e then st1
              else cedrus_fill_ref_pic q b (top_field_order_cnt e) (bottom_field_order_cnt e)
                     pos st1))"



text \<open>
  \<open>cedrus_write_frame_list\<close> for the output picture \<open>out\<close> of the queue \<open>q\<close>. It returns
  \<open>-ENOMEM\<close> or the \<open>pic_list\<close> written to the SRAM with the value written to
  \<open>VE_H264_OUTPUT_FRAME_IDX\<close>, and the queue afterwards; \<open>None\<close> when it has written
  outside \<open>pic_list\<close>.
\<close>

definition frame_list_scan_dpb ::
  "cedrus_buffer list \<Rightarrow> u64 \<Rightarrow> v4l2_h264_dpb_entry list \<Rightarrow> frame_list_scan" where
  "frame_list_scan_dpb q ts es =
     foldl (dpb_step q ts)
       \<lparr>used_dpbs = 0, scan_output = None,
        pic_list = replicate CEDRUS_DEC_H264_FRAME_NUM None, overrun = False\<rparr> es"















section \<open>Proofs\<close>

subsection \<open>Bit writer\<close>

declare ilog2.simps [simp del]

lemma ilog2_bounds: "0 < n \<Longrightarrow> 2 ^ ilog2 n \<le> n \<and> n < 2 ^ Suc (ilog2 n)"
proof (induction n rule: ilog2.induct)
  case (1 n)
  show ?case
  proof (cases "n < 2")
    case True
    with 1(2) show ?thesis by (simp add: ilog2.simps [of n])
  next
    case False
    then have pos: "0 < n div 2" by simp
    from 1(1) [OF False pos]
    have "2 ^ ilog2 (n div 2) \<le> n div 2" "n div 2 < 2 ^ Suc (ilog2 (n div 2))"
      by simp_all
    with False show ?thesis by (simp add: ilog2.simps [of n]) linarith
  qed
qed

lemma ilog2_floor_log: "0 < n \<Longrightarrow> \<lfloor>log 2 (real n)\<rfloor> = int (ilog2 n)"
  using floor_log_nat_eq_if [of 2 "ilog2 n" n] ilog2_bounds [of n] by simp

lemma foldl_put_bits:
  "foldl (\<lambda>a b. 2 * a + of_bool b) a (put_bits n c) = a * 2 ^ c + n mod 2 ^ c"
proof (induction c arbitrary: a)
  case 0
  show ?case by simp
next
  case (Suc c)
  have h: "n mod 2 ^ Suc c = 2 ^ c * of_bool (bit n c) + n mod 2 ^ c"
    using take_bit_Suc_from_most [of c n] by (simp add: take_bit_eq_mod)
  have "foldl (\<lambda>a b. 2 * a + of_bool b) a (put_bits n (Suc c)) =
      foldl (\<lambda>a b. 2 * a + of_bool b) (2 * a + of_bool (bit n c)) (put_bits n c)"
    by simp
  also have "\<dots> = (2 * a + of_bool (bit n c)) * 2 ^ c + n mod 2 ^ c"
    by (rule Suc)
  also have "\<dots> = a * 2 ^ Suc c + n mod 2 ^ Suc c"
    unfolding h by (simp add: algebra_simps)
  finally show ?case .
qed

lemma bits_val_put_bits: "bits_val (put_bits n c) = n mod 2 ^ c"
  by (simp add: bits_val_def foldl_put_bits)

lemma length_put_bits [simp]: "length (put_bits n c) = c"
  by (induction c) simp_all

lemma put_bits_zero: "put_bits 0 c = replicate c False"
  by (induction c) simp_all

lemma put_bits_leading:
  "n < 2 ^ m \<Longrightarrow> put_bits n (m + j) = replicate j False @ put_bits n m"
proof (induction j)
  case 0
  show ?case by simp
next
  case (Suc j)
  have "\<not> bit n (m + j)"
  proof -
    have "n < 2 ^ (m + j)" using Suc.prems
      by (metis le_add1 less_le_trans one_le_numeral power_increasing)
    then show ?thesis by (simp add: bit_iff_odd)
  qed
  with Suc show ?case by (simp add: replicate_app_Cons_same)
qed

subsection \<open>Byte alignment and Exp-Golomb codes\<close>

lemma unat_of_nat_mod8: "unat ((of_nat N :: u32) mod 8) = N mod 8"
proof -
  have "unat ((of_nat N :: u32) mod 8) = (N mod 2 ^ 32) mod 8"
    by (simp add: unat_mod unat_of_nat)
  also have "\<dots> = N mod 8"
    by (rule mod_mod_cancel) simp
  finally show ?thesis .
qed

text \<open>
  C8: after \<open>N\<close> bits have been written, the byte alignment appends the least number of
  zero bits that makes the bit count a multiple of 8: none when \<open>N\<close> is a multiple of 8,
  \<open>8 - N mod 8\<close> otherwise, always fewer than 8.
\<close>

theorem coded_align_pads:
  fixes dev :: cedrus_device
  defines "N \<equiv> length (coded_bits dev)"
  defines "pad \<equiv> (if N mod 8 = 0 then 0 else 8 - N mod 8)"
  shows "coded_bits (cedrus_enc_h264_coded_align dev) = coded_bits dev @ replicate pad False
    \<and> (N + pad) mod 8 = 0 \<and> pad < 8
    \<and> (\<forall>k. (N + k) mod 8 = 0 \<longrightarrow> pad \<le> k)"
proof -
  have a: "coded_bits (cedrus_enc_h264_coded_align dev) = coded_bits dev @ replicate pad False"
    by (simp add: cedrus_enc_h264_coded_align_def stm_bit_len_def unat_of_nat_mod8 Let_def
        cedrus_enc_h264_coded_append_def put_bits_zero N_def pad_def)
  have b: "(N + pad) mod 8 = 0" unfolding pad_def by presburger
  have c: "pad < 8" unfolding pad_def by simp
  have d: "\<forall>k. (N + k) mod 8 = 0 \<longrightarrow> pad \<le> k" unfolding pad_def by presburger
  from a b c d show ?thesis by blast
qed

theorem coded_align_pads_witness:
  "coded_bits (cedrus_enc_h264_coded_align \<lparr>coded_bits = [True, False, True]\<rparr>) =
     [True, False, True, False, False, False, False, False]"
proof -
  have r: "replicate 5 False = [False, False, False, False, False]"
    by (simp add: numeral_eq_Suc)
  from coded_align_pads [of "\<lparr>coded_bits = [True, False, True]\<rparr>"]
  have "coded_bits (cedrus_enc_h264_coded_align \<lparr>coded_bits = [True, False, True]\<rparr>) =
     [True, False, True] @ replicate 5 False"
    by simp
  then show ?thesis by (simp add: r)
qed

lemma fls_word_Some: "w \<noteq> 0 \<Longrightarrow> fls_word w = Some (ilog2 (unat w))"
  by (simp add: fls_word_def)

lemma ue_code_word:
  assumes "0 < n"
  shows "put_bits n (2 * ilog2 n + 1) = replicate (ilog2 n) False @ True # put_bits n (ilog2 n)"
proof -
  let ?k = "ilog2 n"
  from ilog2_bounds [OF assms] have lo: "2 ^ ?k \<le> n" and hi: "n < 2 ^ Suc ?k" by simp_all
  have a: "put_bits n (Suc ?k + ?k) = replicate ?k False @ put_bits n (Suc ?k)"
    using hi by (rule put_bits_leading)
  have "n div 2 ^ ?k = 1"
    using lo hi by (simp add: div_nat_eqI)
  then have "bit n ?k" by (simp add: bit_iff_odd)
  then have b: "put_bits n (Suc ?k) = True # put_bits n ?k" by simp
  have e: "2 * ?k + 1 = Suc ?k + ?k" by simp
  show ?thesis unfolding e a b ..
qed

lemma takeWhile_Not_replicate: "takeWhile Not (replicate k False @ True # r) = replicate k False"
  by (induction k) simp_all

lemma spec_ue_decode_code_word:
  assumes "0 < n"
  shows "spec_ue_decode (put_bits n (2 * ilog2 n + 1)) = Some (n - 1)"
proof -
  let ?k = "ilog2 n"
  from ilog2_bounds [OF assms] have lo: "2 ^ ?k \<le> n" and hi: "n < 2 ^ Suc ?k" by simp_all
  have m: "n mod 2 ^ ?k = n - 2 ^ ?k"
    using lo hi by (simp add: mod_if le_mod_geq)
  have w: "put_bits n (2 * ?k + 1) = replicate ?k False @ True # put_bits n ?k"
    by (rule ue_code_word [OF assms])
  have "length (takeWhile Not (put_bits n (2 * ?k + 1))) = ?k"
    unfolding w by (simp add: takeWhile_Not_replicate)
  moreover have "take ?k (drop (Suc ?k) (put_bits n (2 * ?k + 1))) = put_bits n ?k"
    unfolding w by simp
  ultimately have "spec_ue_decode (put_bits n (2 * ?k + 1)) = Some (2 ^ ?k - 1 + n mod 2 ^ ?k)"
    by (simp add: spec_ue_decode_def Let_def bits_val_put_bits)
  with m lo show ?thesis by simp
qed


lemma coded_ue_Some:
  assumes "v \<noteq> - 1"
  shows "cedrus_enc_h264_coded_ue dev v =
    Some (dev\<lparr>coded_bits := coded_bits dev @ put_bits (unat v + 1) (2 * ilog2 (unat v + 1) + 1)\<rparr>)"
proof -
  from assms have nz: "v + 1 \<noteq> 0"
    by (metis add.commute add_eq_0_iff)
  then have u: "unat (v + 1) = unat v + 1"
    using unatSuc [of v] by (simp add: add.commute)
  show ?thesis
    by (simp add: cedrus_enc_h264_coded_ue_def fls_word_Some [OF nz] u
        cedrus_enc_h264_coded_append_def)
qed

text \<open>
  C6 (amended): for every 32-bit value \<open>v\<close> other than \<open>2^32 - 1\<close>, \<open>ue(v)\<close> appends
  the bit pattern \<open>v + 1\<close> in exactly \<open>2 * floor(log2(v + 1)) + 1\<close> bits; \<open>ue(0)\<close> is the
  single bit 1, \<open>ue(1)\<close> is 010 and \<open>ue(2)\<close> is 011.
\<close>

theorem coded_ue_emits:
  assumes "v \<noteq> - 1"
  shows "(\<exists>bs. cedrus_enc_h264_coded_ue dev v = Some (dev\<lparr>coded_bits := coded_bits dev @ bs\<rparr>)
      \<and> int (length bs) = 2 * \<lfloor>log 2 (real (unat v + 1))\<rfloor> + 1
      \<and> bits_val bs = unat v + 1)
    \<and> cedrus_enc_h264_coded_ue dev 0 = Some (dev\<lparr>coded_bits := coded_bits dev @ [True]\<rparr>)
    \<and> cedrus_enc_h264_coded_ue dev 1 =
        Some (dev\<lparr>coded_bits := coded_bits dev @ [False, True, False]\<rparr>)
    \<and> cedrus_enc_h264_coded_ue dev 2 =
        Some (dev\<lparr>coded_bits := coded_bits dev @ [False, True, True]\<rparr>)"
proof -
  let ?n = "unat v + 1"
  let ?bs = "put_bits ?n (2 * ilog2 ?n + 1)"
  have pos: "0 < ?n" by simp
  from ilog2_bounds [OF pos] have hi: "?n < 2 ^ Suc (ilog2 ?n)" by simp
  have "?n < 2 ^ (2 * ilog2 ?n + 1)"
    by (rule less_le_trans [OF hi]) (simp del: power_Suc)
  then have val: "bits_val ?bs = ?n"
    unfolding bits_val_put_bits by (rule mod_less)
  have len: "int (length ?bs) = 2 * \<lfloor>log 2 (real ?n)\<rfloor> + 1"
    using ilog2_floor_log [OF pos] by simp
  have g: "\<exists>bs. cedrus_enc_h264_coded_ue dev v = Some (dev\<lparr>coded_bits := coded_bits dev @ bs\<rparr>)
      \<and> int (length bs) = 2 * \<lfloor>log 2 (real ?n)\<rfloor> + 1 \<and> bits_val bs = ?n"
    using coded_ue_Some [OF assms, of dev] val len by blast
  have e0: "cedrus_enc_h264_coded_ue dev 0 = Some (dev\<lparr>coded_bits := coded_bits dev @ [True]\<rparr>)"
  proof -
    have ne: "(0 :: u32) \<noteq> - 1" by simp
    have n: "unat (0 :: u32) + 1 = 1" by simp
    have l: "2 * ilog2 1 + 1 = 1" by code_simp
    have p: "put_bits 1 1 = [True]" by code_simp
    from coded_ue_Some [OF ne, of dev] show ?thesis unfolding n l p .
  qed
  have e1: "cedrus_enc_h264_coded_ue dev 1 =
      Some (dev\<lparr>coded_bits := coded_bits dev @ [False, True, False]\<rparr>)"
  proof -
    have ne: "(1 :: u32) \<noteq> - 1" by simp
    have n: "unat (1 :: u32) + 1 = 2" by simp
    have l: "2 * ilog2 2 + 1 = 3" by code_simp
    have p: "put_bits 2 3 = [False, True, False]" by code_simp
    from coded_ue_Some [OF ne, of dev] show ?thesis unfolding n l p .
  qed
  have e2: "cedrus_enc_h264_coded_ue dev 2 =
      Some (dev\<lparr>coded_bits := coded_bits dev @ [False, True, True]\<rparr>)"
  proof -
    have ne: "(2 :: u32) \<noteq> - 1" by simp
    have n: "unat (2 :: u32) + 1 = 3" by simp
    have l: "2 * ilog2 3 + 1 = 3" by code_simp
    have p: "put_bits 3 3 = [False, True, True]" by code_simp
    from coded_ue_Some [OF ne, of dev] show ?thesis unfolding n l p .
  qed
  from g e0 e1 e2 show ?thesis by blast
qed

theorem coded_ue_emits_witness:
  "(5 :: u32) \<noteq> - 1
   \<and> (\<exists>bs. cedrus_enc_h264_coded_ue \<lparr>coded_bits = []\<rparr> 5 = Some \<lparr>coded_bits = bs\<rparr>
      \<and> int (length bs) = 2 * \<lfloor>log 2 (real (unat (5 :: u32) + 1))\<rfloor> + 1
      \<and> bits_val bs = unat (5 :: u32) + 1)"
proof -
  have ne: "(5 :: u32) \<noteq> - 1" by simp
  from coded_ue_emits [OF ne, of "\<lparr>coded_bits = []\<rparr>"] ne show ?thesis by simp
qed

text \<open>
  At \<open>v = 2^32 - 1\<close> the sum \<open>v + 1\<close> wraps to 0, where \<open>__fls\<close> is undefined: no
  code word of \<open>v + 1 = 2^32\<close> is appended.
\<close>

theorem coded_ue_max_counterexample:
  "cedrus_enc_h264_coded_ue \<lparr>coded_bits = []\<rparr> 4294967295 = None"
  by (simp add: cedrus_enc_h264_coded_ue_def fls_word_def)

lemma se_value_ue_pos:
  fixes v :: u32
  assumes "0 < sint v"
  shows "uint (2 * v - 1) = 2 * sint v - 1"
proof -
  have b: "sint v < 2 ^ 31" using sint_lt [of v] by simp
  have "2 * v - 1 = word_of_int (2 * sint v - 1)"
    by simp
  then have "uint (2 * v - 1) = (2 * sint v - 1) mod 2 ^ 32"
    by (simp only: uint_word_of_int) simp
  also have "\<dots> = 2 * sint v - 1"
    using assms b by (intro mod_pos_pos_trivial) auto
  finally show ?thesis .
qed

lemma se_value_ue_nonpos:
  fixes v :: u32
  assumes "sint v \<le> 0" and "sint v \<noteq> - (2 ^ 31)"
  shows "uint ((- 2) * v) = - 2 * sint v"
proof -
  have b: "- (2 ^ 31) \<le> sint v" using sint_ge [of v] by simp
  have "(- 2) * v = word_of_int (- 2 * sint v)"
    by simp
  then have "uint ((- 2) * v) = (- 2 * sint v) mod 2 ^ 32"
    by (simp only: uint_word_of_int) simp
  also have "\<dots> = - 2 * sint v"
    using assms b by (intro mod_pos_pos_trivial) auto
  finally show ?thesis .
qed


lemma coded_ue_decodes:
  assumes "u \<noteq> - 1"
  shows "\<exists>bs. cedrus_enc_h264_coded_ue dev u = Some (dev\<lparr>coded_bits := coded_bits dev @ bs\<rparr>)
     \<and> spec_ue_decode bs = Some (unat u)"
proof -
  have "spec_ue_decode (put_bits (unat u + 1) (2 * ilog2 (unat u + 1) + 1)) = Some (unat u + 1 - 1)"
    by (rule spec_ue_decode_code_word) simp
  with coded_ue_Some [OF assms, of dev] show ?thesis by auto
qed

lemma se_decode_odd: "spec_ue_decode bs = Some k \<Longrightarrow> int k = 2 * i - 1 \<Longrightarrow> spec_se_decode bs = Some i"
  by (auto simp: spec_se_decode_def) presburger+

lemma se_decode_even: "spec_ue_decode bs = Some k \<Longrightarrow> int k = - 2 * i \<Longrightarrow> spec_se_decode bs = Some i"
  by (auto simp: spec_se_decode_def) presburger+

text \<open>
  C5 (amended): for every \<open>int\<close> value \<open>v\<close> other than \<open>INT_MIN = -2^31\<close>, \<open>se(v)\<close> emits
  the unsigned code of \<open>2 * v - 1\<close> when \<open>v\<close> is positive and of \<open>-2 * v\<close> otherwise (as
  integers, without wrap-around), the standard inverse signed mapping applied to the
  emitted code word returns \<open>v\<close>, and \<open>se(0)\<close> emits the code of \<open>ue(0)\<close>.
\<close>

theorem coded_se_roundtrip:
  fixes v :: u32
  assumes "sint v \<noteq> - (2 ^ 31)"
  shows "(\<exists>u bs. cedrus_enc_h264_coded_se dev v = cedrus_enc_h264_coded_ue dev u
       \<and> uint u = (if 0 < sint v then 2 * sint v - 1 else - 2 * sint v)
       \<and> cedrus_enc_h264_coded_se dev v = Some (dev\<lparr>coded_bits := coded_bits dev @ bs\<rparr>)
       \<and> spec_se_decode bs = Some (sint v))
    \<and> cedrus_enc_h264_coded_se dev 0 = cedrus_enc_h264_coded_ue dev 0"
proof -
  define u :: u32 where "u = (if 0 <s v then 2 * v - 1 else (- 2) * v)"
  have se: "cedrus_enc_h264_coded_se dev v = cedrus_enc_h264_coded_ue dev u"
    by (simp only: cedrus_enc_h264_coded_se_def u_def Let_def)
  have s: "0 <s v \<longleftrightarrow> 0 < sint v"
    by (simp add: word_sless_alt)
  have b: "sint v < 2147483648" "- 2147483648 \<le> sint v" "sint v \<noteq> - 2147483648"
    using sint_lt [of v] sint_ge [of v] assms by simp_all
  have vl: "uint u = (if 0 < sint v then 2 * sint v - 1 else - 2 * sint v) \<and> uint u < 4294967295"
  proof (cases "0 < sint v")
    case True
    then have "u = 2 * v - 1" by (simp only: u_def s if_True)
    with se_value_ue_pos [OF True] have e: "uint u = 2 * sint v - 1" by (simp only:)
    from e b have "uint u < 4294967295" by linarith
    with e True show ?thesis by (simp only: if_True simp_thms)
  next
    case False
    then have "u = (- 2) * v" by (simp only: u_def s if_False)
    moreover from False have "sint v \<le> 0" by simp
    note se_value_ue_nonpos [OF this assms]
    ultimately have e: "uint u = - 2 * sint v" by (simp only:)
    from e b have "uint u < 4294967295" by linarith
    with e False show ?thesis by (simp only: if_False simp_thms)
  qed
  then have val: "uint u = (if 0 < sint v then 2 * sint v - 1 else - 2 * sint v)"
    and lt: "uint u < 4294967295" by blast+
  have "uint (- 1 :: u32) = 4294967295"
    by (simp add: uint_word_ariths)
  with lt have ne: "u \<noteq> - 1" by auto
  from coded_ue_decodes [OF ne, of dev] obtain bs where
    emit: "cedrus_enc_h264_coded_ue dev u = Some (dev\<lparr>coded_bits := coded_bits dev @ bs\<rparr>)"
    and dec: "spec_ue_decode bs = Some (unat u)" by blast
  have k: "int (unat u) = uint u" by (rule uint_nat [symmetric])
  have sd: "spec_se_decode bs = Some (sint v)"
  proof (cases "0 < sint v")
    case True
    with val k have "int (unat u) = 2 * sint v - 1" by simp
    with dec show ?thesis by (rule se_decode_odd)
  next
    case False
    with val k have "int (unat u) = - 2 * sint v" by simp
    with dec show ?thesis by (rule se_decode_even)
  qed
  have "cedrus_enc_h264_coded_se dev v = cedrus_enc_h264_coded_ue dev u
       \<and> uint u = (if 0 < sint v then 2 * sint v - 1 else - 2 * sint v)
       \<and> cedrus_enc_h264_coded_se dev v = Some (dev\<lparr>coded_bits := coded_bits dev @ bs\<rparr>)
       \<and> spec_se_decode bs = Some (sint v)"
  proof (intro conjI)
    show "cedrus_enc_h264_coded_se dev v = cedrus_enc_h264_coded_ue dev u" by (rule se)
    show "uint u = (if 0 < sint v then 2 * sint v - 1 else - 2 * sint v)" by (rule val)
    show "cedrus_enc_h264_coded_se dev v = Some (dev\<lparr>coded_bits := coded_bits dev @ bs\<rparr>)"
      unfolding se by (rule emit)
    show "spec_se_decode bs = Some (sint v)" by (rule sd)
  qed
  then have g: "\<exists>u bs. cedrus_enc_h264_coded_se dev v = cedrus_enc_h264_coded_ue dev u
       \<and> uint u = (if 0 < sint v then 2 * sint v - 1 else - 2 * sint v)
       \<and> cedrus_enc_h264_coded_se dev v = Some (dev\<lparr>coded_bits := coded_bits dev @ bs\<rparr>)
       \<and> spec_se_decode bs = Some (sint v)"
    by (intro exI)
  have z: "cedrus_enc_h264_coded_se dev 0 = cedrus_enc_h264_coded_ue dev 0"
    by (simp add: cedrus_enc_h264_coded_se_def)
  from g z show ?thesis by (rule conjI)
qed

theorem coded_se_roundtrip_witness:
  "sint (- 3 :: u32) \<noteq> - (2 ^ 31)
   \<and> (\<exists>u bs. cedrus_enc_h264_coded_se \<lparr>coded_bits = []\<rparr> (- 3) =
         cedrus_enc_h264_coded_ue \<lparr>coded_bits = []\<rparr> u
       \<and> uint u = 6
       \<and> cedrus_enc_h264_coded_se \<lparr>coded_bits = []\<rparr> (- 3) = Some \<lparr>coded_bits = bs\<rparr>
       \<and> spec_se_decode bs = Some (- 3))"
proof -
  have ne: "sint (- 3 :: u32) \<noteq> - (2 ^ 31)" by simp
  from coded_se_roundtrip [OF ne, of "\<lparr>coded_bits = []\<rparr>"] ne show ?thesis by simp
qed

text \<open>
  At \<open>v = INT_MIN\<close> the product \<open>-2 * v\<close> wraps to 0: \<open>se\<close> emits the code word of 0,
  which decodes to 0.
\<close>

theorem coded_se_int_min_counterexample:
  "sint (2147483648 :: u32) = - 2147483648
   \<and> cedrus_enc_h264_coded_se \<lparr>coded_bits = []\<rparr> 2147483648 = Some \<lparr>coded_bits = [True]\<rparr>
   \<and> spec_se_decode [True] = Some 0"
proof -
  have s: "sint (2147483648 :: u32) = - 2147483648" by simp
  have v: "(if 0 <s (2147483648 :: u32) then 2 * 2147483648 - 1 else (- 2) * (2147483648 :: u32)) = 0"
    by (simp add: word_sless_alt)
  have f: "fls_word 1 = Some 0"
    by (simp add: fls_word_def ilog2.simps)
  have e: "cedrus_enc_h264_coded_ue \<lparr>coded_bits = []\<rparr> 0 = Some \<lparr>coded_bits = [True]\<rparr>"
    by (simp add: cedrus_enc_h264_coded_ue_def f cedrus_enc_h264_coded_append_def bit_0)
  have c: "cedrus_enc_h264_coded_se \<lparr>coded_bits = []\<rparr> 2147483648 = Some \<lparr>coded_bits = [True]\<rparr>"
    unfolding cedrus_enc_h264_coded_se_def Let_def v by (rule e)
  have d: "spec_se_decode [True] = Some 0"
    by (simp add: spec_se_decode_def spec_ue_decode_def bits_val_def)
  from s c d show ?thesis by blast
qed

subsection \<open>Encoder job preparation\<close>

lemmas step_defs = CEDRUS_ENC_H264_STEP_START_def CEDRUS_ENC_H264_STEP_SPS_def
  CEDRUS_ENC_H264_STEP_PPS_def CEDRUS_ENC_H264_STEP_SLICE_def

lemma job_prepare_Some:
  assumes "gop_closure c = 0 \<or> gop_size c \<noteq> 0"
  shows "cedrus_enc_h264_job_prepare c =
    Some (prepare_job c, c\<lparr>state := prepare_state c, force_key_frame := False\<rparr>)"
  using assms by (auto simp: cedrus_enc_h264_job_prepare_def)

lemma job_prepare_SomeD:
  assumes "cedrus_enc_h264_job_prepare c = Some (job, c')"
  shows "job = prepare_job c \<and> c' = c\<lparr>state := prepare_state c, force_key_frame := False\<rparr>"
  using assms by (simp add: cedrus_enc_h264_job_prepare_def split: if_splits)

lemma prepare_job_frame_type [simp]: "frame_type (prepare_job c) = prepare_frame_type c"
  by (simp add: prepare_job_def Let_def)

lemma prepare_job_qp [simp]: "qp (prepare_job c) = prepare_qp c"
  by (simp add: prepare_job_def Let_def)

lemma prepare_job_frame_num [simp]:
  "job_frame_num (prepare_job c) =
     (if prepare_frame_type c = CEDRUS_ENC_H264_FRAME_TYPE_IDR then 0 else frame_num (state c))"
  by (simp add: prepare_job_def Let_def)

lemma prepare_job_poc [simp]:
  "job_pic_order_cnt_lsb (prepare_job c) =
     (if prepare_frame_type c = CEDRUS_ENC_H264_FRAME_TYPE_IDR then 0
      else pic_order_cnt_lsb (state c))"
  by (simp add: prepare_job_def Let_def)


lemma gop_frame_type_not_B: "gop_frame_type c \<noteq> CEDRUS_ENC_H264_FRAME_TYPE_B"
  by (simp add: gop_frame_type_def)

lemma prepare_frame_type_not_B: "prepare_frame_type c \<noteq> CEDRUS_ENC_H264_FRAME_TYPE_B"
  by (simp add: prepare_frame_type_def gop_frame_type_not_B)

lemma frame_qp_eq:
  "ft \<noteq> CEDRUS_ENC_H264_FRAME_TYPE_B \<Longrightarrow>
   frame_qp c ft = (if ft = CEDRUS_ENC_H264_FRAME_TYPE_P then qp_p c else qp_i c)"
  by (cases ft) (simp_all add: frame_qp_def)

lemma clamp_word:
  fixes q lo hi :: u32
  assumes "lo \<le> hi"
  defines "r \<equiv> (if hi < q then hi else if q < lo then lo else q)"
  shows "uint r = max (uint lo) (min (uint hi) (uint q)) \<and> lo \<le> r \<and> r \<le> hi"
  using assms by (auto simp: word_le_def word_less_def)

subsection \<open>Runs of jobs: frame identification\<close>

lemma ctrl_prepare_keeps:
  "frame_num (state (cedrus_enc_h264_ctrl_prepare c cid v)) = frame_num (state c)
   \<and> pic_order_cnt_lsb (state (cedrus_enc_h264_ctrl_prepare c cid v)) = pic_order_cnt_lsb (state c)
   \<and> log2_max_frame_num (cedrus_enc_h264_ctrl_prepare c cid v) = log2_max_frame_num c
   \<and> log2_max_pic_order_cnt_lsb (cedrus_enc_h264_ctrl_prepare c cid v) =
       log2_max_pic_order_cnt_lsb c
   \<and> step (state (cedrus_enc_h264_ctrl_prepare c cid v)) \<le> step (state c)
   \<and> gop_size (cedrus_enc_h264_ctrl_prepare c cid v) =
       (if cid = V4L2_CID_MPEG_VIDEO_GOP_SIZE then v else gop_size c)"
  by (cases cid) (auto simp: step_at_most_def)

lemma prepare_step_le:
  "step (state c) \<le> CEDRUS_ENC_H264_STEP_SLICE \<Longrightarrow> prepare_step c \<le> CEDRUS_ENC_H264_STEP_SLICE"
  by (simp add: prepare_step_def step_defs)

lemma enc_job_Some:
  assumes "gop_closure c = 0 \<or> gop_size c \<noteq> 0" and "step (state c) \<le> CEDRUS_ENC_H264_STEP_SLICE"
  shows "enc_job c = Some (prepare_job c,
    c\<lparr>state := (prepare_state c)\<lparr>step := CEDRUS_ENC_H264_STEP_SLICE\<rparr>, force_key_frame := False\<rparr>)"
proof -
  have "step (prepare_state c) \<le> CEDRUS_ENC_H264_STEP_SLICE"
    using prepare_step_le [OF assms(2)] by (simp add: prepare_state_def)
  then show ?thesis
    by (simp add: enc_job_def job_prepare_Some [OF assms(1)]
        cedrus_enc_h264_job_configure_headers_def)
qed

lemma mod_ulong_less: "0 < m \<Longrightarrow> unat (mod_ulong x m) < m"
proof -
  assume "0 < m"
  have "unat (mod_ulong x m) \<le> unat x mod m"
    by (simp add: mod_ulong_def unat_of_nat)
  also have "\<dots> < m" using \<open>0 < m\<close> by simp
  finally show ?thesis .
qed

lemma BIT_pos: "0 < BIT n"
  by (simp add: BIT_def)

lemma spec_frame_ids_bounds:
  assumes "spec_frame_ids mf mp fn poc jobs" and "0 < mf" and "0 < mp"
    and "unat fn < mf" and "unat poc < mp"
  shows "\<forall>job \<in> set jobs. unat (job_frame_num job) < mf \<and> unat (job_pic_order_cnt_lsb job) < mp
    \<and> (frame_type job = CEDRUS_ENC_H264_FRAME_TYPE_IDR \<longrightarrow>
         job_frame_num job = 0 \<and> job_pic_order_cnt_lsb job = 0)"
  using assms
proof (induction jobs arbitrary: fn poc)
  case Nil
  show ?case by simp
next
  case (Cons j js)
  have
    hd: "job_frame_num j = (if frame_type j = CEDRUS_ENC_H264_FRAME_TYPE_IDR then 0 else fn)"
      "job_pic_order_cnt_lsb j = (if frame_type j = CEDRUS_ENC_H264_FRAME_TYPE_IDR then 0 else poc)"
    and tl: "spec_frame_ids mf mp (mod_ulong (job_frame_num j + 1) mf)
        (mod_ulong (job_pic_order_cnt_lsb j + 2) mp) js"
    using Cons.prems(1) unfolding spec_frame_ids.simps by blast+
  have j: "unat (job_frame_num j) < mf \<and> unat (job_pic_order_cnt_lsb j) < mp
    \<and> (frame_type j = CEDRUS_ENC_H264_FRAME_TYPE_IDR \<longrightarrow>
         job_frame_num j = 0 \<and> job_pic_order_cnt_lsb j = 0)"
    using hd Cons.prems(2-5) by simp
  have "\<forall>job \<in> set js. unat (job_frame_num job) < mf \<and> unat (job_pic_order_cnt_lsb job) < mp
    \<and> (frame_type job = CEDRUS_ENC_H264_FRAME_TYPE_IDR \<longrightarrow>
         job_frame_num job = 0 \<and> job_pic_order_cnt_lsb job = 0)"
    by (rule Cons.IH [OF tl Cons.prems(2,3) mod_ulong_less [OF Cons.prems(2)]
          mod_ulong_less [OF Cons.prems(3)]])
  with j show ?case by simp
qed

lemma run_events_ids:
  assumes "step (state c) \<le> CEDRUS_ENC_H264_STEP_SLICE"
    and "gop_size c \<noteq> 0"
    and "\<forall>v. Ctrl V4L2_CID_MPEG_VIDEO_GOP_SIZE v \<in> set evs \<longrightarrow> v \<noteq> 0"
  shows "\<exists>jobs cf. run_events c evs = Some (jobs, cf)
    \<and> length jobs = length (filter (\<lambda>e. e = Job) evs)
    \<and> spec_frame_ids (BIT (log2_max_frame_num c)) (BIT (log2_max_pic_order_cnt_lsb c))
        (frame_num (state c)) (pic_order_cnt_lsb (state c)) jobs"
  using assms
proof (induction evs arbitrary: c)
  case Nil
  show ?case by simp
next
  case (Cons e es)
  show ?case
  proof (cases e)
    case (Ctrl cid v)
    let ?c = "cedrus_enc_h264_ctrl_prepare c cid v"
    note k = ctrl_prepare_keeps [of c cid v]
    have 1: "step (state ?c) \<le> CEDRUS_ENC_H264_STEP_SLICE"
      using k Cons.prems(1) by (meson order_trans)
    have 2: "gop_size ?c \<noteq> 0"
      using k Cons.prems(2,3) Ctrl by auto
    have 3: "\<forall>v. Ctrl V4L2_CID_MPEG_VIDEO_GOP_SIZE v \<in> set es \<longrightarrow> v \<noteq> 0"
      using Cons.prems(3) by simp
    from Cons.IH [OF 1 2 3] k Ctrl show ?thesis by simp
  next
    case Job
    let ?c = "c\<lparr>state := (prepare_state c)\<lparr>step := CEDRUS_ENC_H264_STEP_SLICE\<rparr>,
      force_key_frame := False\<rparr>"
    have j: "enc_job c = Some (prepare_job c, ?c)"
      using Cons.prems(1,2) by (intro enc_job_Some) simp_all
    have 1: "step (state ?c) \<le> CEDRUS_ENC_H264_STEP_SLICE" by simp
    have 2: "gop_size ?c \<noteq> 0" using Cons.prems(2) by simp
    have 3: "\<forall>v. Ctrl V4L2_CID_MPEG_VIDEO_GOP_SIZE v \<in> set es \<longrightarrow> v \<noteq> 0"
      using Cons.prems(3) by simp
    from Cons.IH [OF 1 2 3] obtain jobs cf where
      r: "run_events ?c es = Some (jobs, cf)"
      and l: "length jobs = length (filter (\<lambda>e. e = Job) es)"
      and s: "spec_frame_ids (BIT (log2_max_frame_num ?c)) (BIT (log2_max_pic_order_cnt_lsb ?c))
        (frame_num (state ?c)) (pic_order_cnt_lsb (state ?c)) jobs"
      by blast
    have "run_events c (e # es) = Some (prepare_job c # jobs, cf)"
      using Job j r by simp
    moreover have "spec_frame_ids (BIT (log2_max_frame_num c)) (BIT (log2_max_pic_order_cnt_lsb c))
        (frame_num (state c)) (pic_order_cnt_lsb (state c)) (prepare_job c # jobs)"
      using s by (simp add: prepare_state_def)
    ultimately show ?thesis using l Job by simp
  qed
qed

lemma run_events_next_ids:
  assumes "step (state c) \<le> CEDRUS_ENC_H264_STEP_SLICE"
    and "gop_size c \<noteq> 0"
    and "\<forall>v. Ctrl V4L2_CID_MPEG_VIDEO_GOP_SIZE v \<in> set evs \<longrightarrow> v \<noteq> 0"
  shows "\<exists>jobs cf. run_events c evs = Some (jobs, cf)
    \<and> (frame_num (state cf), pic_order_cnt_lsb (state cf)) =
        spec_next_ids (BIT (log2_max_frame_num c)) (BIT (log2_max_pic_order_cnt_lsb c))
          (frame_num (state c)) (pic_order_cnt_lsb (state c)) jobs"
  using assms
proof (induction evs arbitrary: c)
  case Nil
  show ?case by simp
next
  case (Cons e es)
  show ?case
  proof (cases e)
    case (Ctrl cid v)
    let ?c = "cedrus_enc_h264_ctrl_prepare c cid v"
    note k = ctrl_prepare_keeps [of c cid v]
    have 1: "step (state ?c) \<le> CEDRUS_ENC_H264_STEP_SLICE"
      using k Cons.prems(1) by (meson order_trans)
    have 2: "gop_size ?c \<noteq> 0"
      using k Cons.prems(2,3) Ctrl by auto
    have 3: "\<forall>v. Ctrl V4L2_CID_MPEG_VIDEO_GOP_SIZE v \<in> set es \<longrightarrow> v \<noteq> 0"
      using Cons.prems(3) by simp
    from Cons.IH [OF 1 2 3] k Ctrl show ?thesis by simp
  next
    case Job
    let ?c = "c\<lparr>state := (prepare_state c)\<lparr>step := CEDRUS_ENC_H264_STEP_SLICE\<rparr>,
      force_key_frame := False\<rparr>"
    have j: "enc_job c = Some (prepare_job c, ?c)"
      using Cons.prems(1,2) by (intro enc_job_Some) simp_all
    have 1: "step (state ?c) \<le> CEDRUS_ENC_H264_STEP_SLICE" by simp
    have 2: "gop_size ?c \<noteq> 0" using Cons.prems(2) by simp
    have 3: "\<forall>v. Ctrl V4L2_CID_MPEG_VIDEO_GOP_SIZE v \<in> set es \<longrightarrow> v \<noteq> 0"
      using Cons.prems(3) by simp
    from Cons.IH [OF 1 2 3] obtain jobs cf where
      r: "run_events ?c es = Some (jobs, cf)"
      and s: "(frame_num (state cf), pic_order_cnt_lsb (state cf)) =
        spec_next_ids (BIT (log2_max_frame_num ?c)) (BIT (log2_max_pic_order_cnt_lsb ?c))
          (frame_num (state ?c)) (pic_order_cnt_lsb (state ?c)) jobs"
      by blast
    have "run_events c (e # es) = Some (prepare_job c # jobs, cf)"
      using Job j r by simp
    moreover have "(frame_num (state cf), pic_order_cnt_lsb (state cf)) =
        spec_next_ids (BIT (log2_max_frame_num c)) (BIT (log2_max_pic_order_cnt_lsb c))
          (frame_num (state c)) (pic_order_cnt_lsb (state c)) (prepare_job c # jobs)"
      using s by (simp add: prepare_state_def)
    ultimately show ?thesis by simp
  qed
qed

lemma spec_frame_ids_step:
  assumes "spec_frame_ids mf mp fn poc jobs" and "Suc k < length jobs"
    and "frame_type (jobs ! Suc k) \<noteq> CEDRUS_ENC_H264_FRAME_TYPE_IDR"
  shows "job_frame_num (jobs ! Suc k) = mod_ulong (job_frame_num (jobs ! k) + 1) mf
    \<and> job_pic_order_cnt_lsb (jobs ! Suc k) = mod_ulong (job_pic_order_cnt_lsb (jobs ! k) + 2) mp"
  using assms
proof (induction jobs arbitrary: fn poc k)
  case Nil
  then show ?case by simp
next
  case (Cons j js)
  have tl: "spec_frame_ids mf mp (mod_ulong (job_frame_num j + 1) mf)
        (mod_ulong (job_pic_order_cnt_lsb j + 2) mp) js"
    using Cons.prems(1) unfolding spec_frame_ids.simps by blast
  show ?case
  proof (cases k)
    case 0
    then obtain j' js' where js: "js = j' # js'" using Cons.prems(2) by (cases js) auto
    have "job_frame_num j' = (if frame_type j' = CEDRUS_ENC_H264_FRAME_TYPE_IDR then 0
        else mod_ulong (job_frame_num j + 1) mf)"
      "job_pic_order_cnt_lsb j' = (if frame_type j' = CEDRUS_ENC_H264_FRAME_TYPE_IDR then 0
        else mod_ulong (job_pic_order_cnt_lsb j + 2) mp)"
      using tl unfolding js spec_frame_ids.simps by blast+
    then show ?thesis using 0 js Cons.prems(3) by simp
  next
    case (Suc k')
    from Cons.IH [OF tl, of k'] Cons.prems(2,3) Suc show ?thesis by simp
  qed
qed

lemma unat_mod_ulong: "unat (mod_ulong x m) = unat x mod m"
proof -
  have "unat x mod m \<le> unat x" by simp
  also have "\<dots> < 2 ^ 32" using unsigned_less [of x] by simp
  finally have "unat x mod m < 4294967296" by simp
  then show ?thesis by (simp add: mod_ulong_def unat_of_nat)
qed

lemma unat_mod_ulong_add:
  assumes "n \<le> 32"
  shows "unat (mod_ulong (x + k) (2 ^ n)) = (unat x + unat k) mod 2 ^ n"
proof -
  have d: "(2 :: nat) ^ n dvd 2 ^ 32" using assms by (rule le_imp_power_dvd)
  have "unat (x + k) = (unat x + unat k) mod 2 ^ 32"
    by (simp add: unat_word_ariths)
  then have "unat (x + k) mod 2 ^ n = (unat x + unat k) mod 2 ^ n"
    using mod_mod_cancel [OF d, of "unat x + unat k"] by simp
  then show ?thesis by (simp add: unat_mod_ulong)
qed

text \<open>
  C7: in every run of control writes and jobs, started from a state whose counters are
  below their bounds (as \<open>cedrus_enc_h264_setup\<close> leaves them: both 0, both exponents 8),
  each job carries \<open>frame_num < 2^log2_max_frame_num\<close> and
  \<open>pic_order_cnt_lsb < 2^log2_max_pic_order_cnt_lsb\<close>, and every IDR job carries
  \<open>frame_num = 0\<close> and \<open>pic_order_cnt_lsb = 0\<close>. The counters advance with every job: a
  job that is not IDR carries the \<open>frame_num\<close> of the job before it plus 1 and its
  \<open>pic_order_cnt_lsb\<close> plus 2, each reduced modulo its bound, and after the run the state
  holds the last job's values advanced once more. The run returns whenever no write sets
  the GOP size to 0.
\<close>

theorem run_events_frame_ids:
  assumes "unat (frame_num (state c)) < BIT (log2_max_frame_num c)"
    and "unat (pic_order_cnt_lsb (state c)) < BIT (log2_max_pic_order_cnt_lsb c)"
    and "step (state c) \<le> CEDRUS_ENC_H264_STEP_SLICE"
    and "gop_size c \<noteq> 0"
    and "\<forall>v. Ctrl V4L2_CID_MPEG_VIDEO_GOP_SIZE v \<in> set evs \<longrightarrow> v \<noteq> 0"
  shows "\<exists>jobs cf. run_events c evs = Some (jobs, cf)
    \<and> length jobs = length (filter (\<lambda>e. e = Job) evs)
    \<and> spec_frame_ids (BIT (log2_max_frame_num c)) (BIT (log2_max_pic_order_cnt_lsb c))
        (frame_num (state c)) (pic_order_cnt_lsb (state c)) jobs
    \<and> (frame_num (state cf), pic_order_cnt_lsb (state cf)) =
        spec_next_ids (BIT (log2_max_frame_num c)) (BIT (log2_max_pic_order_cnt_lsb c))
          (frame_num (state c)) (pic_order_cnt_lsb (state c)) jobs
    \<and> (\<forall>job \<in> set jobs.
          unat (job_frame_num job) < 2 ^ unat (log2_max_frame_num c)
          \<and> unat (job_pic_order_cnt_lsb job) < 2 ^ unat (log2_max_pic_order_cnt_lsb c)
          \<and> (frame_type job = CEDRUS_ENC_H264_FRAME_TYPE_IDR \<longrightarrow>
               job_frame_num job = 0 \<and> job_pic_order_cnt_lsb job = 0))
    \<and> (\<forall>k. Suc k < length jobs \<longrightarrow>
          frame_type (jobs ! Suc k) \<noteq> CEDRUS_ENC_H264_FRAME_TYPE_IDR \<longrightarrow>
            job_frame_num (jobs ! Suc k) =
              mod_ulong (job_frame_num (jobs ! k) + 1) (BIT (log2_max_frame_num c))
            \<and> job_pic_order_cnt_lsb (jobs ! Suc k) =
              mod_ulong (job_pic_order_cnt_lsb (jobs ! k) + 2)
                (BIT (log2_max_pic_order_cnt_lsb c))
            \<and> (unat (log2_max_frame_num c) \<le> 32 \<longrightarrow>
                 unat (job_frame_num (jobs ! Suc k)) =
                   (unat (job_frame_num (jobs ! k)) + 1) mod 2 ^ unat (log2_max_frame_num c))
            \<and> (unat (log2_max_pic_order_cnt_lsb c) \<le> 32 \<longrightarrow>
                 unat (job_pic_order_cnt_lsb (jobs ! Suc k)) =
                   (unat (job_pic_order_cnt_lsb (jobs ! k)) + 2)
                     mod 2 ^ unat (log2_max_pic_order_cnt_lsb c)))"
proof -
  let ?mf = "BIT (log2_max_frame_num c)" and ?mp = "BIT (log2_max_pic_order_cnt_lsb c)"
  from run_events_ids [OF assms(3,4,5)] obtain jobs cf where
    r: "run_events c evs = Some (jobs, cf)"
    and l: "length jobs = length (filter (\<lambda>e. e = Job) evs)"
    and s: "spec_frame_ids ?mf ?mp (frame_num (state c)) (pic_order_cnt_lsb (state c)) jobs"
    by blast
  from run_events_next_ids [OF assms(3,4,5)] r
  have n: "(frame_num (state cf), pic_order_cnt_lsb (state cf)) =
        spec_next_ids ?mf ?mp (frame_num (state c)) (pic_order_cnt_lsb (state c)) jobs"
    by simp
  from spec_frame_ids_bounds [OF s BIT_pos BIT_pos assms(1,2)]
  have b: "\<forall>job \<in> set jobs.
          unat (job_frame_num job) < 2 ^ unat (log2_max_frame_num c)
          \<and> unat (job_pic_order_cnt_lsb job) < 2 ^ unat (log2_max_pic_order_cnt_lsb c)
          \<and> (frame_type job = CEDRUS_ENC_H264_FRAME_TYPE_IDR \<longrightarrow>
               job_frame_num job = 0 \<and> job_pic_order_cnt_lsb job = 0)"
    by (simp add: BIT_def)
  have a: "\<forall>k. Suc k < length jobs \<longrightarrow>
          frame_type (jobs ! Suc k) \<noteq> CEDRUS_ENC_H264_FRAME_TYPE_IDR \<longrightarrow>
            job_frame_num (jobs ! Suc k) = mod_ulong (job_frame_num (jobs ! k) + 1) ?mf
            \<and> job_pic_order_cnt_lsb (jobs ! Suc k) =
              mod_ulong (job_pic_order_cnt_lsb (jobs ! k) + 2) ?mp
            \<and> (unat (log2_max_frame_num c) \<le> 32 \<longrightarrow>
                 unat (job_frame_num (jobs ! Suc k)) =
                   (unat (job_frame_num (jobs ! k)) + 1) mod 2 ^ unat (log2_max_frame_num c))
            \<and> (unat (log2_max_pic_order_cnt_lsb c) \<le> 32 \<longrightarrow>
                 unat (job_pic_order_cnt_lsb (jobs ! Suc k)) =
                   (unat (job_pic_order_cnt_lsb (jobs ! k)) + 2)
                     mod 2 ^ unat (log2_max_pic_order_cnt_lsb c))"
  proof (intro allI impI)
    fix k assume k: "Suc k < length jobs"
      and t: "frame_type (jobs ! Suc k) \<noteq> CEDRUS_ENC_H264_FRAME_TYPE_IDR"
    from spec_frame_ids_step [OF s k t]
    have w: "job_frame_num (jobs ! Suc k) = mod_ulong (job_frame_num (jobs ! k) + 1) ?mf"
      "job_pic_order_cnt_lsb (jobs ! Suc k) =
         mod_ulong (job_pic_order_cnt_lsb (jobs ! k) + 2) ?mp"
      by simp_all
    have f: "unat (log2_max_frame_num c) \<le> 32 \<longrightarrow>
                 unat (job_frame_num (jobs ! Suc k)) =
                   (unat (job_frame_num (jobs ! k)) + 1) mod 2 ^ unat (log2_max_frame_num c)"
      unfolding w(1) BIT_def
      using unat_mod_ulong_add [of "unat (log2_max_frame_num c)" "job_frame_num (jobs ! k)" 1]
      by simp
    have p: "unat (log2_max_pic_order_cnt_lsb c) \<le> 32 \<longrightarrow>
                 unat (job_pic_order_cnt_lsb (jobs ! Suc k)) =
                   (unat (job_pic_order_cnt_lsb (jobs ! k)) + 2)
                     mod 2 ^ unat (log2_max_pic_order_cnt_lsb c)"
      unfolding w(2) BIT_def
      using unat_mod_ulong_add [of "unat (log2_max_pic_order_cnt_lsb c)"
          "job_pic_order_cnt_lsb (jobs ! k)" 2]
      by simp
    from w f p show "job_frame_num (jobs ! Suc k) =
              mod_ulong (job_frame_num (jobs ! k) + 1) ?mf
            \<and> job_pic_order_cnt_lsb (jobs ! Suc k) =
              mod_ulong (job_pic_order_cnt_lsb (jobs ! k) + 2) ?mp
            \<and> (unat (log2_max_frame_num c) \<le> 32 \<longrightarrow>
                 unat (job_frame_num (jobs ! Suc k)) =
                   (unat (job_frame_num (jobs ! k)) + 1) mod 2 ^ unat (log2_max_frame_num c))
            \<and> (unat (log2_max_pic_order_cnt_lsb c) \<le> 32 \<longrightarrow>
                 unat (job_pic_order_cnt_lsb (jobs ! Suc k)) =
                   (unat (job_pic_order_cnt_lsb (jobs ! k)) + 2)
                     mod 2 ^ unat (log2_max_pic_order_cnt_lsb c))"
      by blast
  qed
  from r l s n b a show ?thesis by blast
qed

text \<open>
  A GOP-closed run of three jobs: the jobs carry (IDR, 0, 0), (P, 1, 2), (P, 2, 4) and the
  state is left with the counters 3 and 6.
\<close>

theorem run_events_frame_ids_witness:
  "\<exists>jobs cf. run_events
       (apply_ctrls (cedrus_enc_h264_setup kzalloc_ctx)
          [(V4L2_CID_MPEG_VIDEO_GOP_CLOSURE, 1), (V4L2_CID_MPEG_VIDEO_GOP_SIZE, 2)])
       [Job, Ctrl V4L2_CID_MPEG_VIDEO_GOP_SIZE 3, Job, Job] = Some (jobs, cf)
     \<and> map (\<lambda>j. (frame_type j, job_frame_num j, job_pic_order_cnt_lsb j)) jobs =
         [(CEDRUS_ENC_H264_FRAME_TYPE_IDR, 0, 0), (CEDRUS_ENC_H264_FRAME_TYPE_P, 1, 2),
          (CEDRUS_ENC_H264_FRAME_TYPE_P, 2, 4)]
     \<and> frame_num (state cf) = 3 \<and> pic_order_cnt_lsb (state cf) = 6
     \<and> spec_frame_ids 256 256 0 0 jobs
     \<and> spec_next_ids 256 256 0 0 jobs = (3, 6)"
proof -
  define c where "c = apply_ctrls (cedrus_enc_h264_setup kzalloc_ctx)
          [(V4L2_CID_MPEG_VIDEO_GOP_CLOSURE, 1), (V4L2_CID_MPEG_VIDEO_GOP_SIZE, 2)]"
  define evs where "evs = [Job, Ctrl V4L2_CID_MPEG_VIDEO_GOP_SIZE 3, Job, Job]"
  have f: "frame_num (state c) = 0" "pic_order_cnt_lsb (state c) = 0"
    "log2_max_frame_num c = 8" "log2_max_pic_order_cnt_lsb c = 8" "step (state c) = 0"
    "gop_size c = 2"
    by (simp_all add: c_def apply_ctrls_def cedrus_enc_h264_setup_def kzalloc_ctx_def
        CEDRUS_ENC_H264_STEP_START_def)
  have 1: "unat (frame_num (state c)) < BIT (log2_max_frame_num c)"
    and 2: "unat (pic_order_cnt_lsb (state c)) < BIT (log2_max_pic_order_cnt_lsb c)"
    and 3: "step (state c) \<le> CEDRUS_ENC_H264_STEP_SLICE"
    and 4: "gop_size c \<noteq> 0"
    by (simp_all add: f BIT_def CEDRUS_ENC_H264_STEP_SLICE_def)
  have 5: "\<forall>v. Ctrl V4L2_CID_MPEG_VIDEO_GOP_SIZE v \<in> set evs \<longrightarrow> v \<noteq> 0"
    by (simp add: evs_def)
  have b: "BIT 8 = 256" by (simp add: BIT_def)
  from run_events_frame_ids [OF 1 2 3 4 5] obtain jobs cf where
    r: "run_events c evs = Some (jobs, cf)"
    and s: "spec_frame_ids 256 256 0 0 jobs"
    and n: "(frame_num (state cf), pic_order_cnt_lsb (state cf)) = spec_next_ids 256 256 0 0 jobs"
    unfolding f b by blast
  have "map_option (\<lambda>(jobs, cf).
        (map (\<lambda>j. (frame_type j, job_frame_num j, job_pic_order_cnt_lsb j)) jobs,
         frame_num (state cf), pic_order_cnt_lsb (state cf))) (run_events c evs) =
      Some ([(CEDRUS_ENC_H264_FRAME_TYPE_IDR, 0, 0), (CEDRUS_ENC_H264_FRAME_TYPE_P, 1, 2),
             (CEDRUS_ENC_H264_FRAME_TYPE_P, 2, 4)], 3, 6)"
    unfolding c_def evs_def by code_simp
  then have m: "map (\<lambda>j. (frame_type j, job_frame_num j, job_pic_order_cnt_lsb j)) jobs =
         [(CEDRUS_ENC_H264_FRAME_TYPE_IDR, 0, 0), (CEDRUS_ENC_H264_FRAME_TYPE_P, 1, 2),
          (CEDRUS_ENC_H264_FRAME_TYPE_P, 2, 4)]"
    and e: "frame_num (state cf) = 3" "pic_order_cnt_lsb (state cf) = 6"
    using r by simp_all
  from n e have x: "spec_next_ids 256 256 0 0 jobs = (3, 6)" by simp
  have "run_events c evs = Some (jobs, cf)
     \<and> map (\<lambda>j. (frame_type j, job_frame_num j, job_pic_order_cnt_lsb j)) jobs =
         [(CEDRUS_ENC_H264_FRAME_TYPE_IDR, 0, 0), (CEDRUS_ENC_H264_FRAME_TYPE_P, 1, 2),
          (CEDRUS_ENC_H264_FRAME_TYPE_P, 2, 4)]
     \<and> frame_num (state cf) = 3 \<and> pic_order_cnt_lsb (state cf) = 6
     \<and> spec_frame_ids 256 256 0 0 jobs
     \<and> spec_next_ids 256 256 0 0 jobs = (3, 6)"
    using r m e s x by (intro conjI)
  then show ?thesis unfolding c_def evs_def by (intro exI)
qed

subsection \<open>Runs of jobs: the QP written\<close>

lemma u32_le_3_cases:
  "(x :: u32) \<le> 3 \<Longrightarrow> x = 0 \<or> x = 1 \<or> x = 2 \<or> x = 3"
proof -
  assume "x \<le> 3"
  then have "unat x \<le> 3" by (simp add: word_le_nat_alt)
  then have "unat x = 0 \<or> unat x = 1 \<or> unat x = 2 \<or> unat x = 3" by arith
  then show ?thesis unfolding word_unat_eq_iff [of x] by simp
qed

lemma headers_loop_slice:
  "step (state c) = CEDRUS_ENC_H264_STEP_SLICE \<Longrightarrow>
   job_configure_headers_loop job c w =
     Some (w @ [NALU_SLICE (cedrus_enc_h264_job_configure_slice_header job c)], c)"
  by (subst job_configure_headers_loop.simps) (simp add: step_defs)

lemma headers_loop_pps:
  "step (state c) = CEDRUS_ENC_H264_STEP_PPS \<Longrightarrow>
   job_configure_headers_loop job c w =
     Some (w @ [NALU_PPS (cedrus_enc_h264_job_configure_pps job (state c)),
                NALU_SLICE (cedrus_enc_h264_job_configure_slice_header job
                  (c\<lparr>state := (state c)\<lparr>step := CEDRUS_ENC_H264_STEP_SLICE\<rparr>\<rparr>))],
           c\<lparr>state := (state c)\<lparr>step := CEDRUS_ENC_H264_STEP_SLICE\<rparr>\<rparr>)"
  by (subst job_configure_headers_loop.simps) (simp add: step_defs headers_loop_slice)

lemma headers_loop_sps:
  "step (state c) = CEDRUS_ENC_H264_STEP_SPS \<Longrightarrow>
   job_configure_headers_loop job c w =
     Some (w @ [NALU_SPS, NALU_PPS (cedrus_enc_h264_job_configure_pps job
                  ((state c)\<lparr>step := CEDRUS_ENC_H264_STEP_PPS\<rparr>)),
                NALU_SLICE (cedrus_enc_h264_job_configure_slice_header job
                  (c\<lparr>state := (state c)\<lparr>step := CEDRUS_ENC_H264_STEP_SLICE\<rparr>\<rparr>))],
           c\<lparr>state := (state c)\<lparr>step := CEDRUS_ENC_H264_STEP_SLICE\<rparr>\<rparr>)"
  by (subst job_configure_headers_loop.simps) (simp add: step_defs headers_loop_pps)

lemma headers_loop_start:
  "step (state c) = CEDRUS_ENC_H264_STEP_START \<Longrightarrow>
   job_configure_headers_loop job c w =
     Some (w @ [NALU_SPS, NALU_PPS (cedrus_enc_h264_job_configure_pps job
                  ((state c)\<lparr>step := CEDRUS_ENC_H264_STEP_PPS\<rparr>)),
                NALU_SLICE (cedrus_enc_h264_job_configure_slice_header job
                  (c\<lparr>state := (state c)\<lparr>step := CEDRUS_ENC_H264_STEP_SLICE\<rparr>\<rparr>))],
           c\<lparr>state := (state c)\<lparr>step := CEDRUS_ENC_H264_STEP_SLICE\<rparr>\<rparr>)"
  by (subst job_configure_headers_loop.simps) (simp add: step_defs headers_loop_sps)

lemma pps_qp:
  "se_element ''pic_init_qp_minus26'' (cedrus_enc_h264_job_configure_pps job st) =
     Some (sint (qp_init st - 26))"
  by (simp add: se_element_def cedrus_enc_h264_job_configure_pps_def pic_init_qp_minus26_def)

lemma slice_qp:
  "se_element ''slice_qp_delta'' (cedrus_enc_h264_job_configure_slice_header job c) =
     Some (sint (qp job - qp_init (state c)))"
  by (simp add: se_element_def cedrus_enc_h264_job_configure_slice_header_def
      slice_qp_delta_def map_of_append)

lemma sint_small:
  fixes a :: u32
  assumes "a \<le> 51"
  shows "sint a = uint a"
proof -
  have le: "uint a \<le> 51" using assms by (simp add: word_le_def)
  have ge: "0 \<le> uint a" by simp
  have 1: "- 2147483648 \<le> uint a" using ge by linarith
  have 2: "uint a < 2147483648" using le by linarith
  have "signed_take_bit 31 (uint a) = uint a"
    using 1 2 signed_take_bit_int_eq_self [of 31 "uint a"] by simp
  then show ?thesis by (simp add: sint_uint)
qed

lemma sint_sub_small:
  fixes a b :: u32
  assumes "a \<le> 51" and "b \<le> 51"
  shows "sint (a - b) = uint a - uint b"
proof -
  have le: "uint a \<le> 51" "uint b \<le> 51" using assms by (simp_all add: word_le_def)
  have ge: "0 \<le> uint a" "0 \<le> uint b" by simp_all
  have 1: "- 2147483648 \<le> uint a - uint b" using ge le by linarith
  have 2: "uint a - uint b < 2147483648" using ge le by linarith
  have "sint (a - b) = signed_take_bit 31 (sint a - sint b)"
    by (simp add: sint_word_ariths)
  also have "\<dots> = signed_take_bit 31 (uint a - uint b)"
    by (simp add: sint_small assms)
  also have "\<dots> = uint a - uint b"
    using 1 2 signed_take_bit_int_eq_self [of 31 "uint a - uint b"] by simp
  finally show ?thesis .
qed

lemma sint_sub_26:
  fixes a :: u32
  assumes "a \<le> 51"
  shows "sint (a - 26) = uint a - 26"
  using sint_sub_small [OF assms, of 26] by simp

lemma decoded_slice_qps_append:
  "decoded_slice_qps pq (xs @ ys) =
     decoded_slice_qps pq xs @ decoded_slice_qps (pps_qp_after pq xs) ys"
  by (induction pq xs rule: decoded_slice_qps.induct) simp_all

lemma pps_qp_after_append:
  "pps_qp_after pq (xs @ ys) = pps_qp_after (pps_qp_after pq xs) ys"
  by (induction pq xs rule: pps_qp_after.induct) simp_all

lemma headers_loop_result:
  assumes "step (state c) \<le> CEDRUS_ENC_H264_STEP_SLICE"
  shows "\<exists>nalus. job_configure_headers_loop job c [] =
       Some (nalus, c\<lparr>state := (state c)\<lparr>step := CEDRUS_ENC_H264_STEP_SLICE\<rparr>\<rparr>)
     \<and> pps_qp_after pq nalus =
         (if step (state c) = CEDRUS_ENC_H264_STEP_SLICE then pq
          else Some (26 + sint (qp_init (state c) - 26)))
     \<and> decoded_slice_qps pq nalus =
         [case (if step (state c) = CEDRUS_ENC_H264_STEP_SLICE then pq
                else Some (26 + sint (qp_init (state c) - 26))) of
            None \<Rightarrow> None
          | Some p \<Rightarrow> Some (p + sint (qp job - qp_init (state c)))]
     \<and> (\<forall>els. NALU_PPS els \<in> set nalus \<longrightarrow>
          step (state c) \<noteq> CEDRUS_ENC_H264_STEP_SLICE
          \<and> se_element ''pic_init_qp_minus26'' els = Some (sint (qp_init (state c) - 26)))"
proof -
  from assms have "step (state c) = 0 \<or> step (state c) = 1 \<or> step (state c) = 2 \<or>
      step (state c) = 3"
    by (intro u32_le_3_cases) (simp add: step_defs)
  then consider (start) "step (state c) = CEDRUS_ENC_H264_STEP_START"
    | (sps) "step (state c) = CEDRUS_ENC_H264_STEP_SPS"
    | (pps) "step (state c) = CEDRUS_ENC_H264_STEP_PPS"
    | (slice) "step (state c) = CEDRUS_ENC_H264_STEP_SLICE"
    by (auto simp add: step_defs)
  then show ?thesis
  proof cases
    case start
    show ?thesis
      unfolding headers_loop_start [OF start]
      using start by (simp add: step_defs pps_qp slice_qp split: option.splits)
  next
    case sps
    show ?thesis
      unfolding headers_loop_sps [OF sps]
      using sps by (simp add: step_defs pps_qp slice_qp split: option.splits)
  next
    case pps
    show ?thesis
      unfolding headers_loop_pps [OF pps]
      using pps by (simp add: step_defs pps_qp slice_qp split: option.splits)
  next
    case slice
    have e: "c\<lparr>state := (state c)\<lparr>step := CEDRUS_ENC_H264_STEP_SLICE\<rparr>\<rparr> = c"
      using slice by simp
    show ?thesis
      unfolding headers_loop_slice [OF slice] e
      using slice by (simp add: slice_qp split: option.splits)
  qed
qed

lemma frame_qp_spec:
  "frame_qp c (prepare_frame_type c) = spec_frame_qp c (prepare_frame_type c)"
  using frame_qp_eq [OF prepare_frame_type_not_B, of c c] by (simp add: spec_frame_qp_def)

lemma prepare_qp_spec: "prepare_qp c = spec_qp c (prepare_frame_type c)"
  by (simp add: prepare_qp_def spec_qp_def Let_def frame_qp_spec)

lemma spec_qp_le:
  assumes "qp_min c \<le> 51" "qp_max c \<le> 51" "qp_i c \<le> 51" "qp_p c \<le> 51"
  shows "spec_qp c ft \<le> 51"
  using assms by (simp add: spec_qp_def spec_frame_qp_def)

lemma spec_qp_clamp:
  assumes "qp_min c \<le> qp_max c"
  shows "uint (spec_qp c ft) =
       max (uint (qp_min c)) (min (uint (qp_max c)) (uint (spec_frame_qp c ft)))
     \<and> qp_min c \<le> spec_qp c ft \<and> spec_qp c ft \<le> qp_max c"
  unfolding spec_qp_def using clamp_word [OF assms, of "spec_frame_qp c ft"] by blast

lemma enc_job_coded_qp:
  assumes g: "gop_closure c = 0 \<or> gop_size c \<noteq> 0"
    and s: "step (state c) \<le> CEDRUS_ENC_H264_STEP_SLICE"
    and r: "qp_min c \<le> 51" "qp_max c \<le> 51" "qp_i c \<le> 51" "qp_p c \<le> 51"
    and i: "step (state c) = CEDRUS_ENC_H264_STEP_SLICE \<Longrightarrow>
            pq = Some (uint (qp_init (state c))) \<and> qp_init (state c) \<le> 51"
  shows "\<exists>nalus. enc_job_coded c = Some (prepare_job c, nalus,
         c\<lparr>state := (prepare_state c)\<lparr>step := CEDRUS_ENC_H264_STEP_SLICE\<rparr>,
           force_key_frame := False\<rparr>)
     \<and> decoded_slice_qps pq nalus = [Some (uint (prepare_qp c))]
     \<and> pps_qp_after pq nalus = Some (uint (qp_init (prepare_state c)))
     \<and> qp_init (prepare_state c) \<le> 51
     \<and> (\<forall>els. NALU_PPS els \<in> set nalus \<longrightarrow>
          se_element ''pic_init_qp_minus26'' els = Some (uint (prepare_qp c) - 26))"
proof -
  let ?c1 = "c\<lparr>state := prepare_state c, force_key_frame := False\<rparr>"
  have q51: "prepare_qp c \<le> 51" unfolding prepare_qp_spec using r by (rule spec_qp_le)
  have s1: "step (state ?c1) \<le> CEDRUS_ENC_H264_STEP_SLICE"
    using prepare_step_le [OF s] by (simp add: prepare_state_def)
  from headers_loop_result [OF s1, of "prepare_job c" pq] obtain nalus where
    l: "job_configure_headers_loop (prepare_job c) ?c1 [] =
       Some (nalus, ?c1\<lparr>state := (state ?c1)\<lparr>step := CEDRUS_ENC_H264_STEP_SLICE\<rparr>\<rparr>)"
    and p: "pps_qp_after pq nalus =
         (if step (state ?c1) = CEDRUS_ENC_H264_STEP_SLICE then pq
          else Some (26 + sint (qp_init (state ?c1) - 26)))"
    and d: "decoded_slice_qps pq nalus =
         [case (if step (state ?c1) = CEDRUS_ENC_H264_STEP_SLICE then pq
                else Some (26 + sint (qp_init (state ?c1) - 26))) of
            None \<Rightarrow> None
          | Some p \<Rightarrow> Some (p + sint (qp (prepare_job c) - qp_init (state ?c1)))]"
    and w: "\<forall>els. NALU_PPS els \<in> set nalus \<longrightarrow>
          step (state ?c1) \<noteq> CEDRUS_ENC_H264_STEP_SLICE
          \<and> se_element ''pic_init_qp_minus26'' els = Some (sint (qp_init (state ?c1) - 26))"
    by blast
  have e: "enc_job_coded c = Some (prepare_job c, nalus,
         c\<lparr>state := (prepare_state c)\<lparr>step := CEDRUS_ENC_H264_STEP_SLICE\<rparr>,
           force_key_frame := False\<rparr>)"
    using l by (simp add: enc_job_coded_def job_prepare_Some [OF g])
  show ?thesis
  proof (cases "prepare_step c = CEDRUS_ENC_H264_STEP_SLICE")
    case True
    then have st: "step (state c) = CEDRUS_ENC_H264_STEP_SLICE"
      by (simp add: prepare_step_def step_defs split: if_splits)
    from i [OF st] have pq: "pq = Some (uint (qp_init (state c)))"
      and qi: "qp_init (state c) \<le> 51" by simp_all
    have qe: "qp_init (prepare_state c) = qp_init (state c)"
      using True by (simp add: prepare_state_def)
    have "decoded_slice_qps pq nalus = [Some (uint (prepare_qp c))]"
      unfolding d using True pq
      by (simp add: prepare_state_def sint_sub_small [OF q51 qi])
    moreover have "pps_qp_after pq nalus = Some (uint (qp_init (prepare_state c)))"
      unfolding p using True pq by (simp add: prepare_state_def)
    moreover have "\<forall>els. NALU_PPS els \<in> set nalus \<longrightarrow>
          se_element ''pic_init_qp_minus26'' els = Some (uint (prepare_qp c) - 26)"
      using w True by (simp add: prepare_state_def)
    ultimately show ?thesis using e qe qi by simp
  next
    case False
    then have lt: "prepare_step c < CEDRUS_ENC_H264_STEP_SLICE"
      using prepare_step_le [OF s] by simp
    have qe: "qp_init (prepare_state c) = prepare_qp c"
      using lt by (simp add: prepare_state_def)
    have "decoded_slice_qps pq nalus = [Some (uint (prepare_qp c))]"
      unfolding d using False lt
      by (simp add: prepare_state_def sint_sub_26 [OF q51])
    moreover have "pps_qp_after pq nalus = Some (uint (qp_init (prepare_state c)))"
      unfolding p using False lt by (simp add: prepare_state_def sint_sub_26 [OF q51])
    moreover have "\<forall>els. NALU_PPS els \<in> set nalus \<longrightarrow>
          se_element ''pic_init_qp_minus26'' els = Some (uint (prepare_qp c) - 26)"
      using w lt by (simp add: prepare_state_def sint_sub_26 [OF q51])
    ultimately show ?thesis using e qe q51 by simp
  qed
qed

lemma ctrl_prepare_qp:
  "qp_init (state (cedrus_enc_h264_ctrl_prepare c cid v)) = qp_init (state c)
   \<and> qp_min (cedrus_enc_h264_ctrl_prepare c cid v) =
       (if cid = V4L2_CID_MPEG_VIDEO_H264_MIN_QP then v else qp_min c)
   \<and> qp_max (cedrus_enc_h264_ctrl_prepare c cid v) =
       (if cid = V4L2_CID_MPEG_VIDEO_H264_MAX_QP then v else qp_max c)
   \<and> qp_i (cedrus_enc_h264_ctrl_prepare c cid v) =
       (if cid = V4L2_CID_MPEG_VIDEO_H264_I_FRAME_QP then v else qp_i c)
   \<and> qp_p (cedrus_enc_h264_ctrl_prepare c cid v) =
       (if cid = V4L2_CID_MPEG_VIDEO_H264_P_FRAME_QP then v else qp_p c)"
  by (cases cid) (auto simp: step_at_most_def)

lemma run_coded_gen:
  assumes "step (state c) \<le> CEDRUS_ENC_H264_STEP_SLICE"
    and "gop_size c \<noteq> 0"
    and "\<forall>v. Ctrl V4L2_CID_MPEG_VIDEO_GOP_SIZE v \<in> set evs \<longrightarrow> v \<noteq> 0"
    and "qp_min c \<le> 51 \<and> qp_max c \<le> 51 \<and> qp_i c \<le> 51 \<and> qp_p c \<le> 51"
    and "\<forall>cid v. Ctrl cid v \<in> set evs \<longrightarrow> is_qp_ctrl cid \<longrightarrow> v \<le> 51"
    and "step (state c) = CEDRUS_ENC_H264_STEP_SLICE \<longrightarrow>
           pq = Some (uint (qp_init (state c))) \<and> qp_init (state c) \<le> 51"
  shows "\<exists>outs cf. run_coded c evs = Some (outs, cf)
    \<and> length outs = length (filter (\<lambda>e. e = Job) evs)
    \<and> (\<forall>(cj, job, nalus) \<in> set outs.
          frame_type job \<noteq> CEDRUS_ENC_H264_FRAME_TYPE_B
          \<and> qp job = spec_qp cj (frame_type job)
          \<and> (\<forall>els. NALU_PPS els \<in> set nalus \<longrightarrow>
                se_element ''pic_init_qp_minus26'' els = Some (uint (qp job) - 26)))
    \<and> decoded_slice_qps pq (coded_stream outs) =
        map (\<lambda>(cj, job, nalus). Some (uint (qp job))) outs"
  using assms
proof (induction evs arbitrary: c pq)
  case Nil
  show ?case by (simp add: coded_stream_def)
next
  case (Cons e es)
  show ?case
  proof (cases e)
    case (Ctrl cid v)
    let ?c = "cedrus_enc_h264_ctrl_prepare c cid v"
    note k = ctrl_prepare_keeps [of c cid v]
    note q = ctrl_prepare_qp [of c cid v]
    have 1: "step (state ?c) \<le> CEDRUS_ENC_H264_STEP_SLICE"
      using k Cons.prems(1) by (meson order_trans)
    have 2: "gop_size ?c \<noteq> 0"
      using k Cons.prems(2,3) Ctrl by auto
    have 3: "\<forall>v. Ctrl V4L2_CID_MPEG_VIDEO_GOP_SIZE v \<in> set es \<longrightarrow> v \<noteq> 0"
      using Cons.prems(3) by simp
    have v: "is_qp_ctrl cid \<longrightarrow> v \<le> 51" using Cons.prems(5) Ctrl by simp
    have 4: "qp_min ?c \<le> 51 \<and> qp_max ?c \<le> 51 \<and> qp_i ?c \<le> 51 \<and> qp_p ?c \<le> 51"
      using q Cons.prems(4) v by (simp add: is_qp_ctrl_def)
    have 5: "\<forall>cid v. Ctrl cid v \<in> set es \<longrightarrow> is_qp_ctrl cid \<longrightarrow> v \<le> 51"
      using Cons.prems(5) by simp
    have 6: "step (state ?c) = CEDRUS_ENC_H264_STEP_SLICE \<longrightarrow>
           pq = Some (uint (qp_init (state ?c))) \<and> qp_init (state ?c) \<le> 51"
    proof
      assume a: "step (state ?c) = CEDRUS_ENC_H264_STEP_SLICE"
      have "step (state ?c) \<le> step (state c)" using k by simp
      with a Cons.prems(1) have "step (state c) = CEDRUS_ENC_H264_STEP_SLICE" by simp
      with Cons.prems(6) q
      show "pq = Some (uint (qp_init (state ?c))) \<and> qp_init (state ?c) \<le> 51" by simp
    qed
    from Cons.IH [OF 1 2 3 4 5 6] Ctrl show ?thesis by simp
  next
    case Job
    let ?c = "c\<lparr>state := (prepare_state c)\<lparr>step := CEDRUS_ENC_H264_STEP_SLICE\<rparr>,
      force_key_frame := False\<rparr>"
    have g: "gop_closure c = 0 \<or> gop_size c \<noteq> 0" using Cons.prems(2) by simp
    have i: "step (state c) = CEDRUS_ENC_H264_STEP_SLICE \<Longrightarrow>
            pq = Some (uint (qp_init (state c))) \<and> qp_init (state c) \<le> 51"
      using Cons.prems(6) by simp
    from enc_job_coded_qp [OF g Cons.prems(1) _ _ _ _ i] Cons.prems(4)
    obtain nalus where
      j: "enc_job_coded c = Some (prepare_job c, nalus, ?c)"
      and d: "decoded_slice_qps pq nalus = [Some (uint (prepare_qp c))]"
      and p: "pps_qp_after pq nalus = Some (uint (qp_init (prepare_state c)))"
      and b: "qp_init (prepare_state c) \<le> 51"
      and w: "\<forall>els. NALU_PPS els \<in> set nalus \<longrightarrow>
          se_element ''pic_init_qp_minus26'' els = Some (uint (prepare_qp c) - 26)"
      by blast
    have 1: "step (state ?c) \<le> CEDRUS_ENC_H264_STEP_SLICE" by simp
    have 2: "gop_size ?c \<noteq> 0" using Cons.prems(2) by simp
    have 3: "\<forall>v. Ctrl V4L2_CID_MPEG_VIDEO_GOP_SIZE v \<in> set es \<longrightarrow> v \<noteq> 0"
      using Cons.prems(3) by simp
    have 4: "qp_min ?c \<le> 51 \<and> qp_max ?c \<le> 51 \<and> qp_i ?c \<le> 51 \<and> qp_p ?c \<le> 51"
      using Cons.prems(4) by simp
    have 5: "\<forall>cid v. Ctrl cid v \<in> set es \<longrightarrow> is_qp_ctrl cid \<longrightarrow> v \<le> 51"
      using Cons.prems(5) by simp
    have 6: "step (state ?c) = CEDRUS_ENC_H264_STEP_SLICE \<longrightarrow>
           pps_qp_after pq nalus = Some (uint (qp_init (state ?c))) \<and> qp_init (state ?c) \<le> 51"
      using p b by simp
    from Cons.IH [OF 1 2 3 4 5 6] obtain outs cf where
      r: "run_coded ?c es = Some (outs, cf)"
      and l: "length outs = length (filter (\<lambda>e. e = Job) es)"
      and a: "\<forall>(cj, job, nalus) \<in> set outs.
          frame_type job \<noteq> CEDRUS_ENC_H264_FRAME_TYPE_B
          \<and> qp job = spec_qp cj (frame_type job)
          \<and> (\<forall>els. NALU_PPS els \<in> set nalus \<longrightarrow>
                se_element ''pic_init_qp_minus26'' els = Some (uint (qp job) - 26))"
      and s: "decoded_slice_qps (pps_qp_after pq nalus) (coded_stream outs) =
        map (\<lambda>(cj, job, nalus). Some (uint (qp job))) outs"
      by blast
    have run: "run_coded c (e # es) = Some ((c, prepare_job c, nalus) # outs, cf)"
      using Job j r by simp
    have hd: "frame_type (prepare_job c) \<noteq> CEDRUS_ENC_H264_FRAME_TYPE_B
          \<and> qp (prepare_job c) = spec_qp c (frame_type (prepare_job c))
          \<and> (\<forall>els. NALU_PPS els \<in> set nalus \<longrightarrow>
                se_element ''pic_init_qp_minus26'' els = Some (uint (qp (prepare_job c)) - 26))"
      using w by (simp add: prepare_frame_type_not_B prepare_qp_spec)
    have st: "decoded_slice_qps pq (coded_stream ((c, prepare_job c, nalus) # outs)) =
        map (\<lambda>(cj, job, nalus). Some (uint (qp job))) ((c, prepare_job c, nalus) # outs)"
      using d s by (simp add: coded_stream_def decoded_slice_qps_append)
    show ?thesis
      using run l Job a hd st
      by (intro exI [of _ "(c, prepare_job c, nalus) # outs"] exI [of _ cf]) simp
  qed
qed

text \<open>
  C10 (amended): in every run of control writes and jobs that starts before the parameter
  sets are written (as \<open>cedrus_enc_h264_setup\<close> leaves the state), with the QP controls in
  their range 0..51, every job is prepared with the QP of its frame type, \<open>qp_i\<close> for IDR
  and I frames and \<open>qp_p\<close> for P frames, replaced by \<open>qp_max\<close> when it exceeds \<open>qp_max\<close>
  and otherwise by \<open>qp_min\<close> when it is below \<open>qp_min\<close>; when \<open>qp_min \<le> qp_max\<close> that is
  the value clamped into \<open>[qp_min, qp_max]\<close>. No value is rejected. That QP is the one
  written in the stream. A PPS written for a job carries \<open>pic_init_qp_minus26\<close> equal to
  the job's QP minus 26: \<open>qp_init\<close> is set to the job's QP when the job is to write a PPS,
  and kept otherwise. For every slice, \<open>26 + pic_init_qp_minus26\<close> of the last PPS written
  plus the slice's \<open>slice_qp_delta\<close> is the QP of its job.
\<close>

theorem run_coded_qp_emitted:
  assumes "step (state c) < CEDRUS_ENC_H264_STEP_SLICE"
    and "gop_size c \<noteq> 0"
    and "\<forall>v. Ctrl V4L2_CID_MPEG_VIDEO_GOP_SIZE v \<in> set evs \<longrightarrow> v \<noteq> 0"
    and "qp_min c \<le> 51" and "qp_max c \<le> 51" and "qp_i c \<le> 51" and "qp_p c \<le> 51"
    and "\<forall>cid v. Ctrl cid v \<in> set evs \<longrightarrow> is_qp_ctrl cid \<longrightarrow> v \<le> 51"
  shows "\<exists>outs cf. run_coded c evs = Some (outs, cf)
    \<and> length outs = length (filter (\<lambda>e. e = Job) evs)
    \<and> (\<forall>(cj, job, nalus) \<in> set outs.
          frame_type job \<noteq> CEDRUS_ENC_H264_FRAME_TYPE_B
          \<and> qp job = spec_qp cj (frame_type job)
          \<and> (\<forall>els. NALU_PPS els \<in> set nalus \<longrightarrow>
                se_element ''pic_init_qp_minus26'' els = Some (uint (qp job) - 26))
          \<and> (qp_min cj \<le> qp_max cj \<longrightarrow>
               qp_min cj \<le> qp job \<and> qp job \<le> qp_max cj
               \<and> uint (qp job) =
                   max (uint (qp_min cj))
                     (min (uint (qp_max cj)) (uint (spec_frame_qp cj (frame_type job))))))
    \<and> decoded_slice_qps None (coded_stream outs) =
        map (\<lambda>(cj, job, nalus). Some (uint (qp job))) outs"
proof -
  have 1: "step (state c) \<le> CEDRUS_ENC_H264_STEP_SLICE" using assms(1) by simp
  have 4: "qp_min c \<le> 51 \<and> qp_max c \<le> 51 \<and> qp_i c \<le> 51 \<and> qp_p c \<le> 51"
    using assms(4-7) by simp
  have 6: "step (state c) = CEDRUS_ENC_H264_STEP_SLICE \<longrightarrow>
           None = Some (uint (qp_init (state c))) \<and> qp_init (state c) \<le> 51"
    using assms(1) by simp
  from run_coded_gen [OF 1 assms(2,3) 4 assms(8) 6] obtain outs cf where
    r: "run_coded c evs = Some (outs, cf)"
    and l: "length outs = length (filter (\<lambda>e. e = Job) evs)"
    and a: "\<forall>(cj, job, nalus) \<in> set outs.
          frame_type job \<noteq> CEDRUS_ENC_H264_FRAME_TYPE_B
          \<and> qp job = spec_qp cj (frame_type job)
          \<and> (\<forall>els. NALU_PPS els \<in> set nalus \<longrightarrow>
                se_element ''pic_init_qp_minus26'' els = Some (uint (qp job) - 26))"
    and s: "decoded_slice_qps None (coded_stream outs) =
        map (\<lambda>(cj, job, nalus). Some (uint (qp job))) outs"
    by blast
  have "\<forall>(cj, job, nalus) \<in> set outs.
          frame_type job \<noteq> CEDRUS_ENC_H264_FRAME_TYPE_B
          \<and> qp job = spec_qp cj (frame_type job)
          \<and> (\<forall>els. NALU_PPS els \<in> set nalus \<longrightarrow>
                se_element ''pic_init_qp_minus26'' els = Some (uint (qp job) - 26))
          \<and> (qp_min cj \<le> qp_max cj \<longrightarrow>
               qp_min cj \<le> qp job \<and> qp job \<le> qp_max cj
               \<and> uint (qp job) =
                   max (uint (qp_min cj))
                     (min (uint (qp_max cj)) (uint (spec_frame_qp cj (frame_type job)))))"
    using a spec_qp_clamp by fastforce
  with r l s show ?thesis by blast
qed

text \<open>
  Three jobs in GOP-open mode with \<open>qp_min = 10\<close>, \<open>qp_max = 40\<close>, \<open>qp_i = 50\<close> and
  \<open>qp_p = 30\<close>, then \<open>5\<close>: the QPs are 40, 30 and 10, and so are the QPs read back from the
  stream.
\<close>

theorem run_coded_qp_emitted_witness:
  "map_option
     (\<lambda>(outs, cf). (map (\<lambda>(cj, job, nalus). (frame_type job, qp job)) outs,
                    decoded_slice_qps None (coded_stream outs)))
     (run_coded
        (apply_ctrls (cedrus_enc_h264_setup kzalloc_ctx)
           [(V4L2_CID_MPEG_VIDEO_H264_MIN_QP, 10), (V4L2_CID_MPEG_VIDEO_H264_MAX_QP, 40),
            (V4L2_CID_MPEG_VIDEO_H264_I_FRAME_QP, 50), (V4L2_CID_MPEG_VIDEO_H264_P_FRAME_QP, 30),
            (V4L2_CID_MPEG_VIDEO_GOP_SIZE, 12)])
        [Job, Job, Ctrl V4L2_CID_MPEG_VIDEO_H264_P_FRAME_QP 5, Job])
   = Some ([(CEDRUS_ENC_H264_FRAME_TYPE_IDR, 40), (CEDRUS_ENC_H264_FRAME_TYPE_P, 30),
            (CEDRUS_ENC_H264_FRAME_TYPE_P, 10)],
           [Some 40, Some 30, Some 10])"
proof -
  define c where "c = apply_ctrls (cedrus_enc_h264_setup kzalloc_ctx)
           [(V4L2_CID_MPEG_VIDEO_H264_MIN_QP, 10), (V4L2_CID_MPEG_VIDEO_H264_MAX_QP, 40),
            (V4L2_CID_MPEG_VIDEO_H264_I_FRAME_QP, 50), (V4L2_CID_MPEG_VIDEO_H264_P_FRAME_QP, 30),
            (V4L2_CID_MPEG_VIDEO_GOP_SIZE, 12)]"
  define evs where "evs = [Job, Job, Ctrl V4L2_CID_MPEG_VIDEO_H264_P_FRAME_QP 5, Job]"
  have f: "step (state c) = 0" "gop_size c = 12" "qp_min c = 10" "qp_max c = 40"
    "qp_i c = 50" "qp_p c = 30"
    by (simp_all add: c_def apply_ctrls_def cedrus_enc_h264_setup_def kzalloc_ctx_def
        CEDRUS_ENC_H264_STEP_START_def)
  have 1: "step (state c) < CEDRUS_ENC_H264_STEP_SLICE"
    and 2: "gop_size c \<noteq> 0"
    and 4: "qp_min c \<le> 51" "qp_max c \<le> 51" "qp_i c \<le> 51" "qp_p c \<le> 51"
    by (simp_all add: f CEDRUS_ENC_H264_STEP_SLICE_def)
  have 3: "\<forall>v. Ctrl V4L2_CID_MPEG_VIDEO_GOP_SIZE v \<in> set evs \<longrightarrow> v \<noteq> 0"
    by (simp add: evs_def)
  have 5: "\<forall>cid v. Ctrl cid v \<in> set evs \<longrightarrow> is_qp_ctrl cid \<longrightarrow> v \<le> 51"
    by (simp add: evs_def)
  from run_coded_qp_emitted [OF 1 2 3 4 5] obtain outs cf where
    r: "run_coded c evs = Some (outs, cf)"
    and d: "decoded_slice_qps None (coded_stream outs) =
        map (\<lambda>(cj, job, nalus). Some (uint (qp job))) outs"
    by blast
  have "map_option (\<lambda>(outs, cf). map (\<lambda>(cj, job, nalus). (frame_type job, qp job)) outs)
      (run_coded c evs) =
     Some [(CEDRUS_ENC_H264_FRAME_TYPE_IDR, 40), (CEDRUS_ENC_H264_FRAME_TYPE_P, 30),
           (CEDRUS_ENC_H264_FRAME_TYPE_P, 10)]"
    unfolding c_def evs_def by code_simp
  then have m: "map (\<lambda>(cj, job, nalus). (frame_type job, qp job)) outs =
     [(CEDRUS_ENC_H264_FRAME_TYPE_IDR, 40), (CEDRUS_ENC_H264_FRAME_TYPE_P, 30),
      (CEDRUS_ENC_H264_FRAME_TYPE_P, 10)]"
    using r by simp
  have "map (\<lambda>(cj, job, nalus). Some (uint (qp job))) outs =
      map (\<lambda>(ft, q). Some (uint q)) (map (\<lambda>(cj, job, nalus). (frame_type job, qp job)) outs)"
    by (simp add: case_prod_beta comp_def)
  also have "\<dots> = [Some 40, Some 30, Some 10]" unfolding m by simp
  finally have "decoded_slice_qps None (coded_stream outs) = [Some 40, Some 30, Some 10]"
    using d by simp
  then show ?thesis using r m unfolding c_def evs_def by simp
qed

text \<open>
  The controls are independent, each ranging over 0..51: with \<open>qp_min = 40\<close>,
  \<open>qp_max = 10\<close> and \<open>qp_i = 5\<close> the first job (an IDR frame) gets the QP 40, above
  \<open>qp_max\<close>.
\<close>

theorem job_prepare_qp_counterexample:
  "map_option (\<lambda>(job, c'). (qp job, qp_min c', qp_max c'))
     (cedrus_enc_h264_job_prepare (apply_ctrls (cedrus_enc_h264_setup kzalloc_ctx)
        [(V4L2_CID_MPEG_VIDEO_H264_MIN_QP, 40), (V4L2_CID_MPEG_VIDEO_H264_MAX_QP, 10),
         (V4L2_CID_MPEG_VIDEO_H264_I_FRAME_QP, 5)]))
   = Some (40, 40, 10)"
  by (simp add: apply_ctrls_def cedrus_enc_h264_setup_def kzalloc_ctx_def
      cedrus_enc_h264_job_prepare_def prepare_job_def prepare_qp_def prepare_frame_type_def
      gop_frame_type_def frame_qp_def Let_def)

subsection \<open>Runs of jobs: frame types\<close>

lemma run_force_jobs_Cons:
  "run_events c (force_jobs (f # fs)) =
     (case enc_job (if f then c\<lparr>force_key_frame := True\<rparr> else c) of
        None \<Rightarrow> None
      | Some (job, c') \<Rightarrow>
          (case run_events c' (force_jobs fs) of
             None \<Rightarrow> None
           | Some (jobs, cf) \<Rightarrow> Some (job # jobs, cf)))"
  by simp

lemma of_nat_u32_eq_0: "(of_nat m :: u32) = 0 \<longleftrightarrow> m mod 2 ^ 32 = 0"
  by (simp add: word_of_nat_eq_0_iff mod_eq_0_iff_dvd)

lemma of_nat_u32_mod4: "(of_nat m :: u32) mod 4 = 0 \<longleftrightarrow> m mod 4 = 0"
proof -
  have "unat ((of_nat m :: u32) mod 4) = (m mod 2 ^ 32) mod 4"
    by (simp add: unat_mod unat_of_nat)
  also have "\<dots> = m mod 4"
    by (rule mod_mod_cancel) simp
  finally have "unat ((of_nat m :: u32) mod 4) = m mod 4" .
  then show ?thesis by (metis unat_eq_0)
qed

lemma closed_next: "((of_nat (k mod 12) :: u32) + 1) mod 12 = of_nat (Suc k mod 12)"
proof -
  have lt: "k mod 12 < 12" by simp
  have a: "unat (of_nat (k mod 12) :: u32) = k mod 12"
    using lt by (simp add: unat_of_nat)
  have b: "unat ((of_nat (k mod 12) :: u32) + 1) = k mod 12 + 1"
    using lt by (simp add: unat_word_ariths a)
  have "unat (((of_nat (k mod 12) :: u32) + 1) mod 12) = (k mod 12 + 1) mod 12"
    by (simp add: unat_mod b)
  also have "\<dots> = Suc k mod 12"
    by (simp add: mod_Suc_eq)
  also have "\<dots> = unat (of_nat (Suc k mod 12) :: u32)"
    by (simp add: unat_of_nat)
  finally show ?thesis by (rule word_unat_eq_iff [THEN iffD2])
qed

lemma closed_zero: "(of_nat (k mod 12) :: u32) = 0 \<longleftrightarrow> k mod 12 = 0"
proof -
  have "k mod 12 < 2 ^ 32"
    by (rule less_trans [of _ 12]) simp_all
  then show ?thesis by (simp add: of_nat_u32_eq_0)
qed


lemma enc_job_result:
  assumes "gop_closure c = 0 \<or> gop_size c \<noteq> 0" and "step (state c) \<le> CEDRUS_ENC_H264_STEP_SLICE"
  shows "\<exists>job c'. enc_job c = Some (job, c')
    \<and> frame_type job = prepare_frame_type c
    \<and> gop_index (state c') = prepare_gop_index c
    \<and> gop_closure c' = gop_closure c \<and> gop_size c' = gop_size c
    \<and> gop_open_i_period c' = gop_open_i_period c
    \<and> step (state c') \<le> CEDRUS_ENC_H264_STEP_SLICE \<and> \<not> force_key_frame c'"
  unfolding enc_job_Some [OF assms] by (simp add: prepare_state_def)

lemma forced_job_result:
  assumes "gop_closure c = 0 \<or> gop_size c \<noteq> 0" and "step (state c) \<le> CEDRUS_ENC_H264_STEP_SLICE"
    and "\<not> force_key_frame c"
  shows "\<exists>job c'. enc_job (if f then c\<lparr>force_key_frame := True\<rparr> else c) = Some (job, c')
    \<and> frame_type job = (if f then CEDRUS_ENC_H264_FRAME_TYPE_IDR else gop_frame_type c)
    \<and> gop_index (state c') = prepare_gop_index c
    \<and> gop_closure c' = gop_closure c \<and> gop_size c' = gop_size c
    \<and> gop_open_i_period c' = gop_open_i_period c
    \<and> step (state c') \<le> CEDRUS_ENC_H264_STEP_SLICE \<and> \<not> force_key_frame c'"
proof (cases f)
  case True
  let ?c = "c\<lparr>force_key_frame := True\<rparr>"
  have "gop_closure ?c = 0 \<or> gop_size ?c \<noteq> 0" "step (state ?c) \<le> CEDRUS_ENC_H264_STEP_SLICE"
    using assms by simp_all
  moreover have "prepare_frame_type ?c = CEDRUS_ENC_H264_FRAME_TYPE_IDR"
    by (simp add: prepare_frame_type_def)
  moreover have "prepare_gop_index ?c = prepare_gop_index c"
    by (simp add: prepare_gop_index_def Let_def cong: if_cong)
  ultimately show ?thesis
    using enc_job_result [of ?c] True by simp
next
  case False
  from enc_job_result [OF assms(1,2)] False assms(3) show ?thesis
    by (simp add: prepare_frame_type_def)
qed

lemma run_open:
  assumes "gop_closure c = 0" and "gop_open_i_period c = 4"
    and "step (state c) \<le> CEDRUS_ENC_H264_STEP_SLICE"
    and "gop_index (state c) = of_nat k" and "\<not> force_key_frame c"
  shows "\<exists>jobs cf. run_events c (force_jobs fs) = Some (jobs, cf) \<and> length jobs = length fs
    \<and> (\<forall>n < length fs. frame_type (jobs ! n) =
          (if fs ! n \<or> (k + n) mod 2 ^ 32 = 0 then CEDRUS_ENC_H264_FRAME_TYPE_IDR
           else if (k + n) mod 4 = 0 then CEDRUS_ENC_H264_FRAME_TYPE_I
           else CEDRUS_ENC_H264_FRAME_TYPE_P))"
  using assms
proof (induction fs arbitrary: c k)
  case Nil
  show ?case by simp
next
  case (Cons f fs)
  have ok: "gop_closure c = 0 \<or> gop_size c \<noteq> 0" using Cons.prems(1) by simp
  from forced_job_result [OF ok Cons.prems(3,5), of f] obtain job c' where
    j: "enc_job (if f then c\<lparr>force_key_frame := True\<rparr> else c) = Some (job, c')"
    and ft: "frame_type job = (if f then CEDRUS_ENC_H264_FRAME_TYPE_IDR else gop_frame_type c)"
    and gi: "gop_index (state c') = prepare_gop_index c"
    and keep: "gop_closure c' = gop_closure c" "gop_open_i_period c' = gop_open_i_period c"
      "step (state c') \<le> CEDRUS_ENC_H264_STEP_SLICE" "\<not> force_key_frame c'"
    by blast
  have gi': "gop_index (state c') = of_nat (Suc k)"
    using gi Cons.prems(1,4) by (simp add: prepare_gop_index_def)
  have s4: "0 <s (4 :: u32)" by (simp add: word_sless_alt)
  have ft': "frame_type job =
      (if f \<or> k mod 2 ^ 32 = 0 then CEDRUS_ENC_H264_FRAME_TYPE_IDR
       else if k mod 4 = 0 then CEDRUS_ENC_H264_FRAME_TYPE_I
       else CEDRUS_ENC_H264_FRAME_TYPE_P)"
    unfolding ft gop_frame_type_def Cons.prems(1,2,4) of_nat_u32_eq_0 of_nat_u32_mod4
    using s4 by simp
  from Cons.IH [OF _ _ keep(3) gi' keep(4)] keep(1,2) Cons.prems(1,2) obtain jobs cf where
    r: "run_events c' (force_jobs fs) = Some (jobs, cf)" and l: "length jobs = length fs"
    and t: "\<forall>n < length fs. frame_type (jobs ! n) =
          (if fs ! n \<or> (Suc k + n) mod 2 ^ 32 = 0 then CEDRUS_ENC_H264_FRAME_TYPE_IDR
           else if (Suc k + n) mod 4 = 0 then CEDRUS_ENC_H264_FRAME_TYPE_I
           else CEDRUS_ENC_H264_FRAME_TYPE_P)"
    by auto
  have run: "run_events c (force_jobs (f # fs)) = Some (job # jobs, cf)"
    unfolding run_force_jobs_Cons j using r by simp
  have "\<forall>n < length (f # fs). frame_type ((job # jobs) ! n) =
          (if (f # fs) ! n \<or> (k + n) mod 2 ^ 32 = 0 then CEDRUS_ENC_H264_FRAME_TYPE_IDR
           else if (k + n) mod 4 = 0 then CEDRUS_ENC_H264_FRAME_TYPE_I
           else CEDRUS_ENC_H264_FRAME_TYPE_P)"
  proof (intro allI impI)
    fix n assume n: "n < length (f # fs)"
    show "frame_type ((job # jobs) ! n) =
          (if (f # fs) ! n \<or> (k + n) mod 2 ^ 32 = 0 then CEDRUS_ENC_H264_FRAME_TYPE_IDR
           else if (k + n) mod 4 = 0 then CEDRUS_ENC_H264_FRAME_TYPE_I
           else CEDRUS_ENC_H264_FRAME_TYPE_P)"
    proof (cases n)
      case 0
      with ft' show ?thesis by simp
    next
      case (Suc m)
      with n have "m < length fs" by simp
      with t Suc show ?thesis by simp
    qed
  qed
  with run l show ?case by simp
qed

lemma run_closed:
  assumes "gop_closure c \<noteq> 0" and "gop_size c = 12"
    and "step (state c) \<le> CEDRUS_ENC_H264_STEP_SLICE"
    and "gop_index (state c) = of_nat (k mod 12)" and "\<not> force_key_frame c"
  shows "\<exists>jobs cf. run_events c (force_jobs fs) = Some (jobs, cf) \<and> length jobs = length fs
    \<and> (\<forall>n < length fs. frame_type (jobs ! n) =
          (if fs ! n \<or> (k + n) mod 12 = 0 then CEDRUS_ENC_H264_FRAME_TYPE_IDR
           else CEDRUS_ENC_H264_FRAME_TYPE_P))"
  using assms
proof (induction fs arbitrary: c k)
  case Nil
  show ?case by simp
next
  case (Cons f fs)
  have ok: "gop_closure c = 0 \<or> gop_size c \<noteq> 0" using Cons.prems(2) by simp
  from forced_job_result [OF ok Cons.prems(3,5), of f] obtain job c' where
    j: "enc_job (if f then c\<lparr>force_key_frame := True\<rparr> else c) = Some (job, c')"
    and ft: "frame_type job = (if f then CEDRUS_ENC_H264_FRAME_TYPE_IDR else gop_frame_type c)"
    and gi: "gop_index (state c') = prepare_gop_index c"
    and keep: "gop_closure c' = gop_closure c" "gop_size c' = gop_size c"
      "step (state c') \<le> CEDRUS_ENC_H264_STEP_SLICE" "\<not> force_key_frame c'"
    by blast
  have gi': "gop_index (state c') = of_nat (Suc k mod 12)"
    using gi Cons.prems(1,2,4) by (simp add: prepare_gop_index_def closed_next)
  have ft': "frame_type job =
      (if f \<or> k mod 12 = 0 then CEDRUS_ENC_H264_FRAME_TYPE_IDR
       else CEDRUS_ENC_H264_FRAME_TYPE_P)"
    unfolding ft gop_frame_type_def Cons.prems(4) closed_zero
    using Cons.prems(1) by simp
  from Cons.IH [OF _ _ keep(3) gi' keep(4)] keep(1,2) Cons.prems(1,2) obtain jobs cf where
    r: "run_events c' (force_jobs fs) = Some (jobs, cf)" and l: "length jobs = length fs"
    and t: "\<forall>n < length fs. frame_type (jobs ! n) =
          (if fs ! n \<or> (Suc k + n) mod 12 = 0 then CEDRUS_ENC_H264_FRAME_TYPE_IDR
           else CEDRUS_ENC_H264_FRAME_TYPE_P)"
    by auto
  have run: "run_events c (force_jobs (f # fs)) = Some (job # jobs, cf)"
    unfolding run_force_jobs_Cons j using r by simp
  have "\<forall>n < length (f # fs). frame_type ((job # jobs) ! n) =
          (if (f # fs) ! n \<or> (k + n) mod 12 = 0 then CEDRUS_ENC_H264_FRAME_TYPE_IDR
           else CEDRUS_ENC_H264_FRAME_TYPE_P)"
  proof (intro allI impI)
    fix n assume n: "n < length (f # fs)"
    show "frame_type ((job # jobs) ! n) =
          (if (f # fs) ! n \<or> (k + n) mod 12 = 0 then CEDRUS_ENC_H264_FRAME_TYPE_IDR
           else CEDRUS_ENC_H264_FRAME_TYPE_P)"
    proof (cases n)
      case 0
      with ft' show ?thesis by simp
    next
      case (Suc m)
      with n have "m < length fs" by simp
      with t Suc show ?thesis by simp
    qed
  qed
  with run l show ?case by simp
qed

lemma nth_frame_type_open:
  assumes "gop_closure c = 0" and "gop_open_i_period c = 4"
    and "step (state c) \<le> CEDRUS_ENC_H264_STEP_SLICE"
    and "gop_index (state c) = 0" and "\<not> force_key_frame c" and "n < length fs"
  shows "nth_frame_type c fs n =
    Some (if fs ! n \<or> n mod 2 ^ 32 = 0 then CEDRUS_ENC_H264_FRAME_TYPE_IDR
          else if n mod 4 = 0 then CEDRUS_ENC_H264_FRAME_TYPE_I
          else CEDRUS_ENC_H264_FRAME_TYPE_P)"
proof -
  have g: "gop_index (state c) = of_nat 0" using assms(4) by simp
  from run_open [OF assms(1,2,3) g assms(5), of fs] assms(6) show ?thesis
    by (auto simp: nth_frame_type_def)
qed

lemma nth_frame_type_closed:
  assumes "gop_closure c \<noteq> 0" and "gop_size c = 12"
    and "step (state c) \<le> CEDRUS_ENC_H264_STEP_SLICE"
    and "gop_index (state c) = 0" and "\<not> force_key_frame c" and "n < length fs"
  shows "nth_frame_type c fs n =
    Some (if fs ! n \<or> n mod 12 = 0 then CEDRUS_ENC_H264_FRAME_TYPE_IDR
          else CEDRUS_ENC_H264_FRAME_TYPE_P)"
proof -
  have g: "gop_index (state c) = of_nat (0 mod 12)" using assms(4) by simp
  from run_closed [OF assms(1,2,3) g assms(5), of fs] assms(6) show ?thesis
    by (auto simp: nth_frame_type_def)
qed


text \<open>
  C3 (amended): in a run of jobs started with GOP index 0 under fixed controls, job \<open>n\<close>
  is IDR when a force-key-frame request is pending on it, whatever the GOP position;
  otherwise, in GOP-closed mode with \<open>gop_size = 12\<close> it is IDR when \<open>n\<close> is a multiple of
  12 and P if not, and in GOP-open mode with \<open>i_period = 4\<close> it is IDR when \<open>n\<close> is a
  multiple of \<open>2^32\<close> (so for \<open>n = 0\<close>; the 32-bit GOP index wraps to 0), I at the other
  multiples of 4 and P elsewhere. For \<open>n < 2^32\<close> that is: index 0 is IDR, nonzero
  multiples of 4 are I. The request is consumed: the type of job \<open>n\<close> depends on the
  request of job \<open>n\<close> alone.
\<close>

theorem frame_type_decision:
  assumes "step (state c) \<le> CEDRUS_ENC_H264_STEP_SLICE" and "gop_index (state c) = 0"
    and "\<not> force_key_frame c" and "n < length fs"
  shows "(gop_closure c \<noteq> 0 \<and> gop_size c = 12 \<longrightarrow>
        nth_frame_type c fs n =
          Some (if fs ! n \<or> n mod 12 = 0 then CEDRUS_ENC_H264_FRAME_TYPE_IDR
                else CEDRUS_ENC_H264_FRAME_TYPE_P))
    \<and> (gop_closure c = 0 \<and> gop_open_i_period c = 4 \<longrightarrow>
        nth_frame_type c fs n =
          Some (if fs ! n \<or> n mod 2 ^ 32 = 0 then CEDRUS_ENC_H264_FRAME_TYPE_IDR
                else if n mod 4 = 0 then CEDRUS_ENC_H264_FRAME_TYPE_I
                else CEDRUS_ENC_H264_FRAME_TYPE_P))
    \<and> (gop_closure c = 0 \<and> gop_open_i_period c = 4 \<and> n < 2 ^ 32 \<longrightarrow>
        nth_frame_type c fs n =
          Some (if fs ! n \<or> n = 0 then CEDRUS_ENC_H264_FRAME_TYPE_IDR
                else if n mod 4 = 0 then CEDRUS_ENC_H264_FRAME_TYPE_I
                else CEDRUS_ENC_H264_FRAME_TYPE_P))"
proof (intro conjI impI)
  assume "gop_closure c \<noteq> 0 \<and> gop_size c = 12"
  then show "nth_frame_type c fs n =
          Some (if fs ! n \<or> n mod 12 = 0 then CEDRUS_ENC_H264_FRAME_TYPE_IDR
                else CEDRUS_ENC_H264_FRAME_TYPE_P)"
    using nth_frame_type_closed [OF _ _ assms] by blast
next
  assume "gop_closure c = 0 \<and> gop_open_i_period c = 4"
  then show "nth_frame_type c fs n =
          Some (if fs ! n \<or> n mod 2 ^ 32 = 0 then CEDRUS_ENC_H264_FRAME_TYPE_IDR
                else if n mod 4 = 0 then CEDRUS_ENC_H264_FRAME_TYPE_I
                else CEDRUS_ENC_H264_FRAME_TYPE_P)"
    using nth_frame_type_open [OF _ _ assms] by blast
next
  assume a: "gop_closure c = 0 \<and> gop_open_i_period c = 4 \<and> n < 2 ^ 32"
  then have "n mod 2 ^ 32 = 0 \<longleftrightarrow> n = 0" by simp
  then show "nth_frame_type c fs n =
          Some (if fs ! n \<or> n = 0 then CEDRUS_ENC_H264_FRAME_TYPE_IDR
                else if n mod 4 = 0 then CEDRUS_ENC_H264_FRAME_TYPE_I
                else CEDRUS_ENC_H264_FRAME_TYPE_P)"
    using nth_frame_type_open [OF _ _ assms] a by simp
qed

theorem frame_type_decision_witness:
  "nth_frame_type (apply_ctrls (cedrus_enc_h264_setup kzalloc_ctx)
       [(V4L2_CID_MPEG_VIDEO_GOP_CLOSURE, 1), (V4L2_CID_MPEG_VIDEO_GOP_SIZE, 12)])
     [False, True, False] 1 = Some CEDRUS_ENC_H264_FRAME_TYPE_IDR
   \<and> nth_frame_type (apply_ctrls (cedrus_enc_h264_setup kzalloc_ctx)
       [(V4L2_CID_MPEG_VIDEO_GOP_CLOSURE, 1), (V4L2_CID_MPEG_VIDEO_GOP_SIZE, 12)])
     [False, True, False] 2 = Some CEDRUS_ENC_H264_FRAME_TYPE_P
   \<and> nth_frame_type (apply_ctrls (cedrus_enc_h264_setup kzalloc_ctx)
       [(V4L2_CID_MPEG_VIDEO_GOP_CLOSURE, 0), (V4L2_CID_MPEG_VIDEO_H264_I_PERIOD, 4)])
     [False, False, False, False, False] 4 = Some CEDRUS_ENC_H264_FRAME_TYPE_I"
proof -
  define c where "c = apply_ctrls (cedrus_enc_h264_setup kzalloc_ctx)
       [(V4L2_CID_MPEG_VIDEO_GOP_CLOSURE, 1), (V4L2_CID_MPEG_VIDEO_GOP_SIZE, 12)]"
  define d where "d = apply_ctrls (cedrus_enc_h264_setup kzalloc_ctx)
       [(V4L2_CID_MPEG_VIDEO_GOP_CLOSURE, 0), (V4L2_CID_MPEG_VIDEO_H264_I_PERIOD, 4)]"
  have c: "step (state c) \<le> CEDRUS_ENC_H264_STEP_SLICE" "gop_index (state c) = 0"
    "\<not> force_key_frame c" "gop_closure c \<noteq> 0 \<and> gop_size c = 12"
    by (simp_all add: c_def apply_ctrls_def cedrus_enc_h264_setup_def kzalloc_ctx_def
        CEDRUS_ENC_H264_STEP_START_def)
  have d: "step (state d) \<le> CEDRUS_ENC_H264_STEP_SLICE" "gop_index (state d) = 0"
    "\<not> force_key_frame d" "gop_closure d = 0 \<and> gop_open_i_period d = 4"
    by (simp_all add: d_def apply_ctrls_def cedrus_enc_h264_setup_def kzalloc_ctx_def
        CEDRUS_ENC_H264_STEP_START_def)
  have n1: "1 < length [False, True, False]" and n2: "2 < length [False, True, False]"
    and n4: "4 < length [False, False, False, False, False]" by simp_all
  have "nth_frame_type c [False, True, False] 1 = Some CEDRUS_ENC_H264_FRAME_TYPE_IDR"
    using frame_type_decision [OF c(1,2,3) n1] c(4) by simp
  moreover have "nth_frame_type c [False, True, False] 2 = Some CEDRUS_ENC_H264_FRAME_TYPE_P"
    using frame_type_decision [OF c(1,2,3) n2] c(4) by simp
  moreover have "nth_frame_type d [False, False, False, False, False] 4 =
      Some CEDRUS_ENC_H264_FRAME_TYPE_I"
    using frame_type_decision [OF d(1,2,3) n4] d(4) by simp
  ultimately show ?thesis unfolding c_def d_def by blast
qed


text \<open>
  In GOP-open mode the GOP index is never reduced, so job \<open>2^32\<close>, a nonzero multiple of
  4, finds the index wrapped to 0 and is an IDR frame, not an I frame.
\<close>

theorem frame_type_open_wrap_counterexample:
  "nth_frame_type (apply_ctrls (cedrus_enc_h264_setup kzalloc_ctx)
       [(V4L2_CID_MPEG_VIDEO_GOP_CLOSURE, 0), (V4L2_CID_MPEG_VIDEO_H264_I_PERIOD, 4)])
     (replicate 4294967297 False) 4294967296 = Some CEDRUS_ENC_H264_FRAME_TYPE_IDR
   \<and> (4294967296 :: nat) mod 4 = 0 \<and> (4294967296 :: nat) \<noteq> 0"
proof -
  define d where "d = apply_ctrls (cedrus_enc_h264_setup kzalloc_ctx)
       [(V4L2_CID_MPEG_VIDEO_GOP_CLOSURE, 0), (V4L2_CID_MPEG_VIDEO_H264_I_PERIOD, 4)]"
  have d: "gop_closure d = 0" "gop_open_i_period d = 4"
    "step (state d) \<le> CEDRUS_ENC_H264_STEP_SLICE" "gop_index (state d) = 0"
    "\<not> force_key_frame d"
    by (simp_all add: d_def apply_ctrls_def cedrus_enc_h264_setup_def kzalloc_ctx_def
        CEDRUS_ENC_H264_STEP_START_def)
  have n: "4294967296 < length (replicate 4294967297 False)" by simp
  have "nth_frame_type d (replicate 4294967297 False) 4294967296 =
      Some CEDRUS_ENC_H264_FRAME_TYPE_IDR"
    using nth_frame_type_open [OF d n] by simp
  then show ?thesis unfolding d_def by simp
qed

subsection \<open>Interrupt and watchdog\<close>

lemma trace_job_finish:
  "trace (cedrus_context_job_finish c st s) =
     trace s @ [Engine_job_finish c st, Job_memset c, M2m_buf_done_and_job_finish c st]"
  by (simp add: cedrus_context_job_finish_def do_action_def)

lemma job_finish_fields:
  "curr_priv (cedrus_context_job_finish c st s) = None
   \<and> watchdog_pending (cedrus_context_job_finish c st s) = watchdog_pending s
   \<and> dec_ctx_active (cedrus_context_job_finish c st s) = dec_ctx_active s
   \<and> enc_ctx_active (cedrus_context_job_finish c st s) = enc_ctx_active s"
  by (simp add: cedrus_context_job_finish_def do_action_def)

lemma irq_disable_clear_fields:
  "trace (cedrus_irq_disable_clear c s) = trace s @ [Engine_irq_disable c, Engine_irq_clear c]
   \<and> curr_priv (cedrus_irq_disable_clear c s) = curr_priv s
   \<and> watchdog_pending (cedrus_irq_disable_clear c s) = watchdog_pending s
   \<and> dec_ctx_active (cedrus_irq_disable_clear c s) = dec_ctx_active s
   \<and> enc_ctx_active (cedrus_irq_disable_clear c s) = enc_ctx_active s"
  by (simp add: cedrus_irq_disable_clear_def do_action_def)

lemma completions_append: "completions (xs @ ys) = completions xs @ completions ys"
  by (induction xs rule: completions.induct) simp_all

lemma cedrus_irq_pending:
  assumes "watchdog_pending s" and "curr_priv s = Some c"
  shows "cedrus_irq status s =
    (if status = CEDRUS_IRQ_NONE then (IRQ_NONE, s\<lparr>watchdog_pending := False\<rparr>)
     else (IRQ_HANDLED,
       cedrus_context_job_finish c
         (if status = CEDRUS_IRQ_ERROR then VB2_BUF_STATE_ERROR else VB2_BUF_STATE_DONE)
         (cedrus_irq_disable_clear c (s\<lparr>watchdog_pending := False\<rparr>))))"
  using assms by (simp add: cedrus_irq_def cancel_delayed_work_def Let_def)

lemma cedrus_irq_not_pending:
  assumes "\<not> watchdog_pending s"
  shows "cedrus_irq status s = (IRQ_HANDLED, cedrus_irq_spurious s)"
proof -
  have eq: "s\<lparr>watchdog_pending := False\<rparr> = s" using assms by simp
  show ?thesis using assms by (simp add: cedrus_irq_def cancel_delayed_work_def Let_def eq)
qed

text \<open>
  C2 (the code on each status): when the interrupt arrives while a job is outstanding
  and the watchdog has not fired, the handler cancels the watchdog and reads the status.
  On Error it disables and clears the interrupts and then completes the job with the
  error state; on Success it does the same and completes the job as done. On None it
  returns \<open>IRQ_NONE\<close> at once: it calls nothing, so no interrupt is disabled or cleared
  and no completion is reported, the job stays the framework's current job, and the
  watchdog is no longer pending.
\<close>

theorem irq_status_outcome:
  assumes "watchdog_pending s" and "curr_priv s = Some c"
  shows "cedrus_irq status s =
    (case status of
       CEDRUS_IRQ_NONE \<Rightarrow> (IRQ_NONE, s\<lparr>watchdog_pending := False\<rparr>)
     | CEDRUS_IRQ_ERROR \<Rightarrow>
         (IRQ_HANDLED,
          s\<lparr>watchdog_pending := False, curr_priv := None,
            trace := trace s @ [Engine_irq_disable c, Engine_irq_clear c,
              Engine_job_finish c VB2_BUF_STATE_ERROR, Job_memset c,
              M2m_buf_done_and_job_finish c VB2_BUF_STATE_ERROR]\<rparr>)
     | CEDRUS_IRQ_SUCCESS \<Rightarrow>
         (IRQ_HANDLED,
          s\<lparr>watchdog_pending := False, curr_priv := None,
            trace := trace s @ [Engine_irq_disable c, Engine_irq_clear c,
              Engine_job_finish c VB2_BUF_STATE_DONE, Job_memset c,
              M2m_buf_done_and_job_finish c VB2_BUF_STATE_DONE]\<rparr>))
    \<and> completions (trace (snd (cedrus_irq status s))) =
        completions (trace s) @
          (case status of CEDRUS_IRQ_NONE \<Rightarrow> [] | CEDRUS_IRQ_ERROR \<Rightarrow> [VB2_BUF_STATE_ERROR]
           | CEDRUS_IRQ_SUCCESS \<Rightarrow> [VB2_BUF_STATE_DONE])
    \<and> \<not> watchdog_pending (snd (cedrus_irq status s))"
  unfolding cedrus_irq_pending [OF assms]
  by (cases status)
    (simp_all add: cedrus_context_job_finish_def cedrus_irq_disable_clear_def do_action_def
      completions_append)

text \<open>
  A dispatched job and an interrupt that finds the status None: the handler returns
  \<open>IRQ_NONE\<close>, the trace is that of the dispatch alone, and the job is still current with
  no watchdog pending.
\<close>

theorem irq_status_outcome_witness:
  "cedrus_irq CEDRUS_IRQ_NONE (dispatched \<lparr>ctx_id = 0, ctx_proc = Proc_dec\<rparr>) =
     (IRQ_NONE, (dispatched \<lparr>ctx_id = 0, ctx_proc = Proc_dec\<rparr>)\<lparr>watchdog_pending := False\<rparr>)
   \<and> completions (trace (snd (cedrus_irq CEDRUS_IRQ_NONE
         (dispatched \<lparr>ctx_id = 0, ctx_proc = Proc_dec\<rparr>)))) = []
   \<and> trace (snd (cedrus_irq CEDRUS_IRQ_NONE (dispatched \<lparr>ctx_id = 0, ctx_proc = Proc_dec\<rparr>))) =
       [Job_memset \<lparr>ctx_id = 0, ctx_proc = Proc_dec\<rparr>,
        Engine_job_trigger \<lparr>ctx_id = 0, ctx_proc = Proc_dec\<rparr>]
   \<and> curr_priv (snd (cedrus_irq CEDRUS_IRQ_NONE
         (dispatched \<lparr>ctx_id = 0, ctx_proc = Proc_dec\<rparr>))) =
       Some \<lparr>ctx_id = 0, ctx_proc = Proc_dec\<rparr>
   \<and> \<not> watchdog_pending (snd (cedrus_irq CEDRUS_IRQ_NONE
         (dispatched \<lparr>ctx_id = 0, ctx_proc = Proc_dec\<rparr>)))"
proof -
  let ?c = "\<lparr>ctx_id = 0, ctx_proc = Proc_dec\<rparr>"
  have d: "watchdog_pending (dispatched ?c)" "curr_priv (dispatched ?c) = Some ?c"
    "trace (dispatched ?c) = [Job_memset ?c, Engine_job_trigger ?c]"
    by (simp_all add: dispatched_def cedrus_context_job_run_def do_action_def
        cedrus_proc_context_active_update_def)
  from irq_status_outcome [OF d(1,2), of CEDRUS_IRQ_NONE] d(2,3)
  show ?thesis by simp
qed

text \<open>
  C1 (the code at the failing input): a job is dispatched; an interrupt finds the status
  None. The handler has cancelled the watchdog and completes nothing; the watchdog, no
  longer pending, never expires; the interrupt that reports Success afterwards finds no
  pending watchdog and is handled as spurious. No path completes the job, which stays
  the framework's current job.
\<close>

theorem lost_completion:
  "completions (trace (snd (cedrus_irq CEDRUS_IRQ_SUCCESS
      (watchdog_expire (snd (cedrus_irq CEDRUS_IRQ_NONE
        (dispatched \<lparr>ctx_id = 0, ctx_proc = Proc_dec\<rparr>))))))) = []
   \<and> curr_priv (snd (cedrus_irq CEDRUS_IRQ_SUCCESS
      (watchdog_expire (snd (cedrus_irq CEDRUS_IRQ_NONE
        (dispatched \<lparr>ctx_id = 0, ctx_proc = Proc_dec\<rparr>)))))) =
       Some \<lparr>ctx_id = 0, ctx_proc = Proc_dec\<rparr>"
proof -
  let ?c = "\<lparr>ctx_id = 0, ctx_proc = Proc_dec\<rparr>"
  have d: "watchdog_pending (dispatched ?c)" "curr_priv (dispatched ?c) = Some ?c"
    "trace (dispatched ?c) = [Job_memset ?c, Engine_job_trigger ?c]"
    "dec_ctx_active (dispatched ?c) = Some ?c" "enc_ctx_active (dispatched ?c) = None"
    by (simp_all add: dispatched_def cedrus_context_job_run_def do_action_def
        cedrus_proc_context_active_update_def)
  let ?s1 = "(dispatched ?c)\<lparr>watchdog_pending := False\<rparr>"
  have 1: "snd (cedrus_irq CEDRUS_IRQ_NONE (dispatched ?c)) = ?s1"
    unfolding cedrus_irq_pending [OF d(1,2)] by simp
  have 2: "watchdog_expire ?s1 = ?s1"
    by (simp add: watchdog_expire_def)
  have 3: "cedrus_irq CEDRUS_IRQ_SUCCESS ?s1 = (IRQ_HANDLED, cedrus_irq_spurious ?s1)"
    by (rule cedrus_irq_not_pending) simp
  show ?thesis
    unfolding 1 2 3
    by (simp add: cedrus_irq_spurious_def d irq_disable_clear_fields completions_append)
qed

text \<open>
  With the handlers taken as atomic, in either order of interrupt and watchdog expiry on a
  dispatched job, the completions reported are those of one path alone.
\<close>

lemma spurious_completions:
  "completions (trace (cedrus_irq_spurious s)) = completions (trace s)
   \<and> curr_priv (cedrus_irq_spurious s) = curr_priv s
   \<and> watchdog_pending (cedrus_irq_spurious s) = watchdog_pending s"
  by (simp add: cedrus_irq_spurious_def Let_def irq_disable_clear_fields completions_append
      split: option.splits)

lemma watchdog_expire_pending:
  assumes "watchdog_pending s" and "curr_priv s = Some c"
  shows "watchdog_expire s =
    cedrus_context_job_finish c VB2_BUF_STATE_ERROR
      (do_action Reset_control_reset (s\<lparr>watchdog_pending := False\<rparr>))"
  using assms by (simp add: watchdog_expire_def cedrus_watchdog_def do_action_def)

lemma irq_then_watchdog:
  assumes "watchdog_pending s" and "curr_priv s = Some c"
  shows "completions (trace (watchdog_expire (snd (cedrus_irq status s)))) =
    completions (trace s) @
      (case status of CEDRUS_IRQ_NONE \<Rightarrow> [] | CEDRUS_IRQ_ERROR \<Rightarrow> [VB2_BUF_STATE_ERROR]
       | CEDRUS_IRQ_SUCCESS \<Rightarrow> [VB2_BUF_STATE_DONE])"
proof -
  have "\<not> watchdog_pending (snd (cedrus_irq status s))"
    unfolding cedrus_irq_pending [OF assms]
    by (simp add: job_finish_fields irq_disable_clear_fields)
  then have "watchdog_expire (snd (cedrus_irq status s)) = snd (cedrus_irq status s)"
    by (simp add: watchdog_expire_def)
  then show ?thesis
    unfolding cedrus_irq_pending [OF assms]
    by (cases status)
      (simp_all add: trace_job_finish irq_disable_clear_fields completions_append)
qed

lemma watchdog_then_irq:
  assumes "watchdog_pending s" and "curr_priv s = Some c"
  shows "completions (trace (snd (cedrus_irq status (watchdog_expire s)))) =
    completions (trace s) @ [VB2_BUF_STATE_ERROR]"
proof -
  let ?w = "watchdog_expire s"
  have w: "\<not> watchdog_pending ?w"
    "completions (trace ?w) = completions (trace s) @ [VB2_BUF_STATE_ERROR]"
    unfolding watchdog_expire_pending [OF assms]
    by (simp_all add: job_finish_fields trace_job_finish do_action_def completions_append)
  show ?thesis
    unfolding cedrus_irq_not_pending [OF w(1)] by (simp add: spurious_completions w(2))
qed

subsection \<open>H.265 job configuration\<close>

lemma h265_configure_offset_zero:
  assumes "data_byte_offset j = 0"
  shows "cedrus_dec_h265_job_configure j =
    (if num_entry_point_offsets j \<noteq> 0 \<and> num_entry_point_offsets j \<noteq> entry_point_offsets_count j
     then (Inl ERANGE, [], mv_col_buf_size j)
     else if mv_col_buf_size j = 0 \<and> \<not> mv_col_buf_alloc_ok j
     then (Inl ENOMEM, [], 0)
     else (Inl EOPNOTSUPP,
           [Write_bits_offset_len_addr, Write_dec_ctb_addr] @
           (if pps_tiles_or_entropy_sync j then [Tiles_write] else [Write_tile_start_end_zero]) @
           (if new_frame j then [Write_dec_ctb_num_zero] else []) @ [Trigger_init_swdec],
           if mv_col_buf_size j = 0 then mv_col_buf_size_needed j else mv_col_buf_size j))"
  using assms by (simp add: cedrus_dec_h265_job_configure_def Let_def)

lemma job_run_configure_error:
  "cedrus_context_job_run ctx req None None None (Some e) s =
     (Some e, job_run_error ctx req
        (if req then do_action (Ctrl_request_setup ctx) (do_action (Job_memset ctx) s)
         else do_action (Job_memset ctx) s))"
  by (simp add: cedrus_context_job_run_def Let_def)

lemma job_run_error_fields:
  "trace (job_run_error ctx req s) =
     trace s @ (if req then [Ctrl_request_complete ctx] else []) @
       [Engine_job_finish ctx VB2_BUF_STATE_ERROR, Job_memset ctx,
        M2m_buf_done_and_job_finish ctx VB2_BUF_STATE_ERROR]
   \<and> curr_priv (job_run_error ctx req s) = None
   \<and> watchdog_pending (job_run_error ctx req s) = watchdog_pending s
   \<and> dec_ctx_active (job_run_error ctx req s) = dec_ctx_active s
   \<and> enc_ctx_active (job_run_error ctx req s) = enc_ctx_active s"
  by (simp add: job_run_error_def trace_job_finish job_finish_fields do_action_def)

lemma h265_job_run_error:
  assumes "cedrus_dec_h265_job_configure j = (Inl e, ops, mv)"
  shows "\<exists>s'. h265_job_run ctx req None None j s = (Some e, s')
    \<and> trace s' = trace s @ [Job_memset ctx] @
         (if req then [Ctrl_request_setup ctx, Ctrl_request_complete ctx] else []) @
         [Engine_job_finish ctx VB2_BUF_STATE_ERROR, Job_memset ctx,
          M2m_buf_done_and_job_finish ctx VB2_BUF_STATE_ERROR]
    \<and> curr_priv s' = None
    \<and> watchdog_pending s' = watchdog_pending s
    \<and> dec_ctx_active s' = dec_ctx_active s
    \<and> enc_ctx_active s' = enc_ctx_active s"
proof -
  let ?s0 = "if req then do_action (Ctrl_request_setup ctx) (do_action (Job_memset ctx) s)
         else do_action (Job_memset ctx) s"
  let ?s' = "job_run_error ctx req ?s0"
  have run: "h265_job_run ctx req None None j s = (Some e, ?s')"
    unfolding h265_job_run_def assms by (simp add: job_run_configure_error)
  have t: "trace ?s' = trace s @ [Job_memset ctx] @
         (if req then [Ctrl_request_setup ctx, Ctrl_request_complete ctx] else []) @
         [Engine_job_finish ctx VB2_BUF_STATE_ERROR, Job_memset ctx,
          M2m_buf_done_and_job_finish ctx VB2_BUF_STATE_ERROR]"
    by (simp add: job_run_error_fields do_action_def)
  have f: "curr_priv ?s' = None" "watchdog_pending ?s' = watchdog_pending s"
    "dec_ctx_active ?s' = dec_ctx_active s" "enc_ctx_active ?s' = enc_ctx_active s"
    by (simp_all add: job_run_error_fields do_action_def)
  from run t f show ?thesis by blast
qed

text \<open>
  C9 (amended): an H.265 job whose slice parameters carry \<open>data_byte_offset = 0\<close> fails
  in \<open>job_configure\<close> before any bit of the bitstream is skipped or shown: with
  Unsupported, unless the entry-point count check fails first (Range) or the MV column
  buffer cannot be allocated (OutOfMemory). The failure is confined to the job:
  \<open>cedrus_context_job_run\<close> returns the error, completes the request, reports the buffers
  of this job with the error state and clears the job; it arms no watchdog, triggers
  nothing and leaves the active markers as they were.
\<close>

theorem h265_zero_data_byte_offset:
  assumes "data_byte_offset j = 0"
  shows "\<exists>e ops mv s'. cedrus_dec_h265_job_configure j = (Inl e, ops, mv)
    \<and> e = (if num_entry_point_offsets j \<noteq> 0 \<and>
              num_entry_point_offsets j \<noteq> entry_point_offsets_count j then ERANGE
           else if mv_col_buf_size j = 0 \<and> \<not> mv_col_buf_alloc_ok j then ENOMEM
           else EOPNOTSUPP)
    \<and> (\<forall>n. Trigger_flush_bits n \<notin> set ops \<and> Trigger_show_bits n \<notin> set ops)
    \<and> Write_slice_registers \<notin> set ops
    \<and> h265_job_run ctx req None None j s = (Some e, s')
    \<and> trace s' = trace s @ [Job_memset ctx] @
         (if req then [Ctrl_request_setup ctx, Ctrl_request_complete ctx] else []) @
         [Engine_job_finish ctx VB2_BUF_STATE_ERROR, Job_memset ctx,
          M2m_buf_done_and_job_finish ctx VB2_BUF_STATE_ERROR]
    \<and> curr_priv s' = None
    \<and> watchdog_pending s' = watchdog_pending s
    \<and> dec_ctx_active s' = dec_ctx_active s
    \<and> enc_ctx_active s' = enc_ctx_active s"
proof -
  let ?A = "num_entry_point_offsets j \<noteq> 0 \<and>
              num_entry_point_offsets j \<noteq> entry_point_offsets_count j"
  let ?B = "mv_col_buf_size j = 0 \<and> \<not> mv_col_buf_alloc_ok j"
  let ?e = "if ?A then ERANGE else if ?B then ENOMEM else EOPNOTSUPP"
  let ?ops = "if ?A \<or> ?B then []
    else [Write_bits_offset_len_addr, Write_dec_ctb_addr] @
           (if pps_tiles_or_entropy_sync j then [Tiles_write] else [Write_tile_start_end_zero]) @
           (if new_frame j then [Write_dec_ctb_num_zero] else []) @ [Trigger_init_swdec]"
  let ?mv = "if ?A then mv_col_buf_size j else if ?B then 0
    else if mv_col_buf_size j = 0 then mv_col_buf_size_needed j else mv_col_buf_size j"
  have c: "cedrus_dec_h265_job_configure j = (Inl ?e, ?ops, ?mv)"
    unfolding h265_configure_offset_zero [OF assms] by simp
  have o: "\<forall>n. Trigger_flush_bits n \<notin> set ?ops \<and> Trigger_show_bits n \<notin> set ?ops"
    by simp
  have w: "Write_slice_registers \<notin> set ?ops" by simp
  from h265_job_run_error [OF c, of ctx req s] c o w show ?thesis by blast
qed

theorem h265_zero_data_byte_offset_witness:
  "\<exists>ops mv s'. cedrus_dec_h265_job_configure
       \<lparr>num_entry_point_offsets = 0, entry_point_offsets_count = 0, mv_col_buf_size = 0,
        mv_col_buf_size_needed = 4096, mv_col_buf_alloc_ok = True,
        pps_tiles_or_entropy_sync = False, new_frame = True, data_byte_offset = 0,
        padding_byte = 128\<rparr> = (Inl EOPNOTSUPP, ops, mv)
     \<and> (\<forall>n. Trigger_flush_bits n \<notin> set ops \<and> Trigger_show_bits n \<notin> set ops)
     \<and> h265_job_run \<lparr>ctx_id = 0, ctx_proc = Proc_dec\<rparr> True None None
         \<lparr>num_entry_point_offsets = 0, entry_point_offsets_count = 0, mv_col_buf_size = 0,
          mv_col_buf_size_needed = 4096, mv_col_buf_alloc_ok = True,
          pps_tiles_or_entropy_sync = False, new_frame = True, data_byte_offset = 0,
          padding_byte = 128\<rparr>
         \<lparr>watchdog_pending = False, curr_priv = Some \<lparr>ctx_id = 0, ctx_proc = Proc_dec\<rparr>,
          dec_ctx_active = None, enc_ctx_active = None, trace = []\<rparr> = (Some EOPNOTSUPP, s')
     \<and> completions (trace s') = [VB2_BUF_STATE_ERROR]
     \<and> \<not> watchdog_pending s'"
proof -
  define j where "j = \<lparr>num_entry_point_offsets = 0, entry_point_offsets_count = 0,
        mv_col_buf_size = 0, mv_col_buf_size_needed = 4096, mv_col_buf_alloc_ok = True,
        pps_tiles_or_entropy_sync = False, new_frame = True, data_byte_offset = 0,
        padding_byte = (128 :: 8 word)\<rparr>"
  define s where "s = \<lparr>watchdog_pending = False,
          curr_priv = Some \<lparr>ctx_id = 0, ctx_proc = Proc_dec\<rparr>,
          dec_ctx_active = None, enc_ctx_active = None, trace = []\<rparr>"
  have z: "data_byte_offset j = 0" by (simp add: j_def)
  have f: "num_entry_point_offsets j = 0" "mv_col_buf_alloc_ok j" "\<not> watchdog_pending s"
    "trace s = []"
    by (simp_all add: j_def s_def)
  from h265_zero_data_byte_offset [OF z, of "\<lparr>ctx_id = 0, ctx_proc = Proc_dec\<rparr>" True s]
  obtain e ops mv s' where
    c: "cedrus_dec_h265_job_configure j = (Inl e, ops, mv)"
    and e: "e = (if num_entry_point_offsets j \<noteq> 0 \<and>
              num_entry_point_offsets j \<noteq> entry_point_offsets_count j then ERANGE
           else if mv_col_buf_size j = 0 \<and> \<not> mv_col_buf_alloc_ok j then ENOMEM
           else EOPNOTSUPP)"
    and o: "\<forall>n. Trigger_flush_bits n \<notin> set ops \<and> Trigger_show_bits n \<notin> set ops"
    and r: "h265_job_run \<lparr>ctx_id = 0, ctx_proc = Proc_dec\<rparr> True None None j s = (Some e, s')"
    and t: "trace s' = trace s @ [Job_memset \<lparr>ctx_id = 0, ctx_proc = Proc_dec\<rparr>] @
         (if True then [Ctrl_request_setup \<lparr>ctx_id = 0, ctx_proc = Proc_dec\<rparr>,
            Ctrl_request_complete \<lparr>ctx_id = 0, ctx_proc = Proc_dec\<rparr>] else []) @
         [Engine_job_finish \<lparr>ctx_id = 0, ctx_proc = Proc_dec\<rparr> VB2_BUF_STATE_ERROR,
          Job_memset \<lparr>ctx_id = 0, ctx_proc = Proc_dec\<rparr>,
          M2m_buf_done_and_job_finish \<lparr>ctx_id = 0, ctx_proc = Proc_dec\<rparr> VB2_BUF_STATE_ERROR]"
    and p: "watchdog_pending s' = watchdog_pending s"
    by blast
  have e': "e = EOPNOTSUPP" unfolding e using f(1,2) by simp
  have k: "completions (trace s') = [VB2_BUF_STATE_ERROR]"
    unfolding t f(4) by simp
  have np: "\<not> watchdog_pending s'" unfolding p by (rule f(3))
  have "cedrus_dec_h265_job_configure j = (Inl EOPNOTSUPP, ops, mv)
     \<and> (\<forall>n. Trigger_flush_bits n \<notin> set ops \<and> Trigger_show_bits n \<notin> set ops)
     \<and> h265_job_run \<lparr>ctx_id = 0, ctx_proc = Proc_dec\<rparr> True None None j s = (Some EOPNOTSUPP, s')
     \<and> completions (trace s') = [VB2_BUF_STATE_ERROR]
     \<and> \<not> watchdog_pending s'"
    using c o r k np unfolding e' by (intro conjI)
  then have "\<exists>ops mv s'. cedrus_dec_h265_job_configure j = (Inl EOPNOTSUPP, ops, mv)
     \<and> (\<forall>n. Trigger_flush_bits n \<notin> set ops \<and> Trigger_show_bits n \<notin> set ops)
     \<and> h265_job_run \<lparr>ctx_id = 0, ctx_proc = Proc_dec\<rparr> True None None j s = (Some EOPNOTSUPP, s')
     \<and> completions (trace s') = [VB2_BUF_STATE_ERROR]
     \<and> \<not> watchdog_pending s'"
    by (intro exI)
  then show ?thesis unfolding j_def s_def .
qed

text \<open>
  With \<open>data_byte_offset = 0\<close>, an entry-point count that differs from the control array's
  gives Range, and a failed allocation of the MV column buffer gives OutOfMemory: the
  checks come first in the function.
\<close>

theorem h265_zero_offset_range_counterexample:
  "fst (cedrus_dec_h265_job_configure
       \<lparr>num_entry_point_offsets = 2, entry_point_offsets_count = 1, mv_col_buf_size = 0,
        mv_col_buf_size_needed = 4096, mv_col_buf_alloc_ok = True,
        pps_tiles_or_entropy_sync = True, new_frame = True, data_byte_offset = 0,
        padding_byte = 128\<rparr>) = Inl ERANGE
   \<and> fst (cedrus_dec_h265_job_configure
       \<lparr>num_entry_point_offsets = 0, entry_point_offsets_count = 0, mv_col_buf_size = 0,
        mv_col_buf_size_needed = 4096, mv_col_buf_alloc_ok = False,
        pps_tiles_or_entropy_sync = False, new_frame = True, data_byte_offset = 0,
        padding_byte = 128\<rparr>) = Inl ENOMEM"
  by (simp add: cedrus_dec_h265_job_configure_def)

subsection \<open>H.264 frame list\<close>

lemma scan_snoc:
  "frame_list_scan_dpb q ts (es @ [e]) = dpb_step q ts (frame_list_scan_dpb q ts es) e"
  by (simp add: frame_list_scan_dpb_def)

lemma scan_Nil:
  "frame_list_scan_dpb q ts [] =
     \<lparr>used_dpbs = 0, scan_output = None,
      pic_list = replicate CEDRUS_DEC_H264_FRAME_NUM None, overrun = False\<rparr>"
  by (simp add: frame_list_scan_dpb_def)



lemma fill_used [simp]:
  "used_dpbs (cedrus_fill_ref_pic q b t bo pos st) = used_dpbs st"
  by (simp add: cedrus_fill_ref_pic_def)

lemma fill_output [simp]:
  "scan_output (cedrus_fill_ref_pic q b t bo pos st) = scan_output st"
  by (simp add: cedrus_fill_ref_pic_def)













lemma fill_length [simp]:
  "length (pic_list (cedrus_fill_ref_pic q b t bo pos st)) = length (pic_list st)"
  by (simp add: cedrus_fill_ref_pic_def)




lemma step_length [simp]:
  "length (pic_list (dpb_step q ts st e)) = length (pic_list st)"
  by (simp add: dpb_step_def Let_def split: option.splits)

lemma scan_length [simp]:
  "length (pic_list (frame_list_scan_dpb q ts es)) = CEDRUS_DEC_H264_FRAME_NUM"
  by (induction es rule: rev_induct) (simp_all add: scan_Nil scan_snoc)























end
